(* ===== verification/Prelude.thy ===== *)
theory Prelude
  imports Main
begin

text \<open>
  Shared vocabulary of the development: the byte-string type that models
  JavaScript strings, joining a list of strings with a separator (the shape of
  \<open>Array.prototype.join\<close> and of every serialiser in the client) and splitting
  a string at a delimiter (the shape of every parser that inverts them), with
  the round-trip lemmas between the two that the component theories share.
\<close>

named_theorems model_simps "evaluation rules of the model, for closed instances"

type_synonym bytes = string

text \<open>
  JavaScript strings are sequences of UTF-16 code units. The model keeps a
  string as its UTF-8 encoding, a list of bytes (\<open>char\<close>), which is what every
  serialiser of the client (URL encoding, JSON text on the wire) operates on.
\<close>

fun join_with :: "'a list \<Rightarrow> 'a list list \<Rightarrow> 'a list" where
  "join_with sep [] = []"
| "join_with sep [x] = x"
| "join_with sep (x # y # ys) = x @ sep @ join_with sep (y # ys)"

fun split_on :: "'a \<Rightarrow> 'a list \<Rightarrow> 'a list list" where
  "split_on d [] = [[]]"
| "split_on d (c # cs) =
     (if c = d then [] # split_on d cs
      else (let r = split_on d cs in (c # hd r) # tl r))"

lemma join_with_Cons:
  "join_with sep (x # xs) = (if xs = [] then x else x @ sep @ join_with sep xs)"
  by (cases xs) simp_all

lemma split_on_not_Nil [simp]: "split_on d xs \<noteq> []"
  by (induction xs) (auto simp: Let_def)

lemma split_on_no_delim: "d \<notin> set xs \<Longrightarrow> split_on d xs = [xs]"
  by (induction xs) (auto simp: Let_def)

lemma split_on_append_delim:
  "d \<notin> set xs \<Longrightarrow> split_on d (xs @ d # ys) = xs # split_on d ys"
  by (induction xs) (auto simp: Let_def)

text \<open>Splitting at the delimiter inverts joining with it, when no piece contains it.\<close>

lemma split_on_join_with:
  assumes "xss \<noteq> []" and "\<forall>xs \<in> set xss. d \<notin> set xs"
  shows "split_on d (join_with [d] xss) = xss"
  using assms
proof (induction xss)
  case Nil
  then show ?case by simp
next
  case (Cons xs xss)
  show ?case
  proof (cases xss)
    case Nil
    with Cons.prems show ?thesis by (simp add: split_on_no_delim)
  next
    case (Cons ys yss)
    with Cons.prems Cons.IH show ?thesis
      by (simp add: split_on_append_delim)
  qed
qed

lemma set_join_with_subset:
  "set (join_with sep xss) \<subseteq> set sep \<union> \<Union> (set ` set xss)"
  by (induction xss rule: induct_list012) auto

lemma join_with_Nil_iff:
  "sep \<noteq> [] \<Longrightarrow> (join_with sep xss = []) \<longleftrightarrow> (\<forall>xs \<in> set xss. xs = []) \<and> length xss \<le> 1"
  by (induction xss rule: induct_list012) auto

lemma insort_key_map_keep:
  "(\<And>x. f (g x) = h x) \<Longrightarrow> insort_key f (g x) (map g ys) = map g (insort_key h x ys)"
  by (induction ys) auto

lemma sort_key_map_keep:
  "(\<And>x. f (g x) = h x) \<Longrightarrow> sort_key f (map g xs) = map g (sort_key h xs)"
  by (induction xs) (simp_all add: insort_key_map_keep)

lemma replicate_numeral_unfold [model_simps]:
  "replicate (numeral n) x = x # replicate (pred_numeral n) x"
  by (simp add: numeral_eq_Suc)

end
