(* ===== verification/JsValue.thy ===== *)
theory JsValue
  imports Prelude "HOL-Library.Multiset"
begin

text \<open>
  The JavaScript values the client handles and the three language operations
  its code relies on: \<open>Boolean(v)\<close> (ToBoolean, used by \<open>cleanObj\<close>, by the
  constructor's \<open>if (apiKey)\<close> and by \<open>filter(Boolean)\<close>), \<open>String(v)\<close> and
  template literals (ToString, with \<open>Number::toString\<close> for numbers and
  \<open>Array.prototype.join\<close> for arrays), and ordinary objects with the property
  order of \<open>Object.entries\<close>, \<open>Object.fromEntries\<close> and \<open>Object.assign\<close>.
  These are language semantics, not code of the repository: they are modelled
  from ECMA-262.

  A number is kept as its shortest decimal form \<open>Dec m x\<close>, the value
  \<open>m \<cdot> 10^x\<close>; this is the form \<open>Number::toString\<close> prints, so the printing
  below is exact for every double given by its shortest round-trip digits. The
  rounding of decimal literals to binary doubles is not modelled.
\<close>

datatype number = Dec int int | NaN | Infinity | NegInfinity

datatype jsval =
    JUndefined
  | JNull
  | JBool bool
  | JNumber number
  | JString bytes
  | JArray "jsval list"
  | JObject "(bytes \<times> jsval) list"

type_synonym jsobj = "(bytes \<times> jsval) list"

text \<open>The exceptions the client can raise or see rejected: \<open>TypeError\<close> (a bad
  base URL, \<open>toString\<close> of \<open>null\<close>, a failed \<open>fetch\<close>) and \<open>SyntaxError\<close>
  (a body that is not JSON).\<close>

datatype js_error = TypeError bytes | SyntaxError bytes

subsection \<open>ToBoolean\<close>

fun num_truthy :: "number \<Rightarrow> bool" where
  "num_truthy (Dec m x) = (m \<noteq> 0)"
| "num_truthy NaN = False"
| "num_truthy Infinity = True"
| "num_truthy NegInfinity = True"

fun js_truthy :: "jsval \<Rightarrow> bool" where
  "js_truthy JUndefined = False"
| "js_truthy JNull = False"
| "js_truthy (JBool b) = b"
| "js_truthy (JNumber n) = num_truthy n"
| "js_truthy (JString s) = (s \<noteq> [])"
| "js_truthy (JArray xs) = True"
| "js_truthy (JObject ps) = True"

subsection \<open>Number::toString (radix 10)\<close>

definition digit_char :: "nat \<Rightarrow> char" where
  "digit_char d = char_of (48 + d)"

fun nat_digits :: "nat \<Rightarrow> bytes" where
  "nat_digits n = (if n < 10 then [digit_char n] else nat_digits (n div 10) @ [digit_char (n mod 10)])"

declare nat_digits.simps [simp del]

text \<open>
  Step 5 of \<open>Number::toString\<close> takes the digits \<open>s\<close> of the value without
  trailing zeros, their count \<open>k\<close> and the position \<open>n\<close> of the decimal point;
  \<open>strip10\<close> removes the trailing zeros of the mantissa.
\<close>

fun strip10 :: "nat \<Rightarrow> int \<Rightarrow> nat \<times> int" where
  "strip10 m x = (if m \<noteq> 0 \<and> m mod 10 = 0 then strip10 (m div 10) (x + 1) else (m, x))"

declare strip10.simps [simp del]

definition exp_suffix :: "int \<Rightarrow> bytes" where
  "exp_suffix e = ''e'' @ (if 0 \<le> e then ''+'' else ''-'') @ nat_digits (nat \<bar>e\<bar>)"

definition pos_to_string :: "nat \<Rightarrow> int \<Rightarrow> bytes" where
  "pos_to_string m0 x0 =
     (let (s, x) = strip10 m0 x0; ds = nat_digits s; k = int (length ds); n = x + k in
      if k \<le> n \<and> n \<le> 21 then ds @ replicate (nat (n - k)) CHR ''0''
      else if 0 < n \<and> n \<le> 21 then take (nat n) ds @ ''.'' @ drop (nat n) ds
      else if -6 < n \<and> n \<le> 0 then ''0.'' @ replicate (nat (- n)) CHR ''0'' @ ds
      else if k = 1 then ds @ exp_suffix (n - 1)
      else take 1 ds @ ''.'' @ drop 1 ds @ exp_suffix (n - 1))"

fun num_to_string :: "number \<Rightarrow> bytes" where
  "num_to_string (Dec m x) =
     (if m = 0 then ''0''
      else if m < 0 then ''-'' @ pos_to_string (nat (- m)) x
      else pos_to_string (nat m) x)"
| "num_to_string NaN = ''NaN''"
| "num_to_string Infinity = ''Infinity''"
| "num_to_string NegInfinity = ''-Infinity''"

subsection \<open>ToString and Array.prototype.join\<close>

text \<open>
  \<open>Array.prototype.join\<close> writes \<open>undefined\<close> and \<open>null\<close> elements as the
  empty string and every other element by ToString; \<open>String\<close> of an array is
  its join with \<open>,\<close>; a plain object prints as \<open>[object Object]\<close>.
\<close>

fun js_string :: "jsval \<Rightarrow> bytes" where
  "js_string JUndefined = ''undefined''"
| "js_string JNull = ''null''"
| "js_string (JBool b) = (if b then ''true'' else ''false'')"
| "js_string (JNumber n) = num_to_string n"
| "js_string (JString s) = s"
| "js_string (JArray xs) =
     join_with '','' (map (\<lambda>v. if v = JUndefined \<or> v = JNull then [] else js_string v) xs)"
| "js_string (JObject ps) = ''[object Object]''"

definition join_elem :: "jsval \<Rightarrow> bytes" where
  "join_elem v = (if v = JUndefined \<or> v = JNull then [] else js_string v)"

definition array_join :: "bytes \<Rightarrow> jsval list \<Rightarrow> bytes" where
  "array_join sep xs = join_with sep (map join_elem xs)"

subsection \<open>Ordinary objects and their property order\<close>

text \<open>
  An object is the list of its own properties in creation order. Its
  \<open>[[OwnPropertyKeys]]\<close> order, which \<open>Object.entries\<close> and \<open>Object.assign\<close>
  follow, lists the array-index keys first in ascending numeric order and then
  the other string keys in creation order. A key is an array index when it is
  the canonical decimal form of an integer below \<open>2^32 - 1\<close>.
\<close>

definition is_digit :: "char \<Rightarrow> bool" where
  "is_digit c = (48 \<le> (of_char c :: nat) \<and> (of_char c :: nat) \<le> 57)"

definition digits_value :: "bytes \<Rightarrow> nat" where
  "digits_value s = foldl (\<lambda>n c. 10 * n + (of_char c - 48)) 0 s"

definition array_index :: "bytes \<Rightarrow> nat option" where
  "array_index k =
     (if k \<noteq> [] \<and> list_all is_digit k \<and> \<not> (hd k = CHR ''0'' \<and> tl k \<noteq> [])
         \<and> digits_value k < 4294967295
      then Some (digits_value k) else None)"

definition obj_entries :: "(bytes \<times> 'v) list \<Rightarrow> (bytes \<times> 'v) list" where
  "obj_entries obj =
     sort_key (\<lambda>p. the (array_index (fst p))) (filter (\<lambda>p. array_index (fst p) \<noteq> None) obj)
     @ filter (\<lambda>p. array_index (fst p) = None) obj"

text \<open>\<open>o[k] = v\<close>: an existing property keeps its place, a new one is appended.\<close>

definition obj_set :: "bytes \<Rightarrow> jsval \<Rightarrow> jsobj \<Rightarrow> jsobj" where
  "obj_set k v obj =
     (if k \<in> set (map fst obj) then map (\<lambda>p. if fst p = k then (k, v) else p) obj
      else obj @ [(k, v)])"

definition obj_set_all :: "jsobj \<Rightarrow> jsobj \<Rightarrow> jsobj" where
  "obj_set_all obj kvs = foldl (\<lambda>acc p. obj_set (fst p) (snd p) acc) obj kvs"

text \<open>\<open>Object.fromEntries(kvs)\<close> and \<open>Object.assign(target, source)\<close>.\<close>

definition from_entries :: "jsobj \<Rightarrow> jsobj" where
  "from_entries kvs = obj_set_all [] kvs"

definition obj_assign :: "jsobj \<Rightarrow> jsobj \<Rightarrow> jsobj" where
  "obj_assign target source = obj_set_all target (obj_entries source)"

definition wf_obj :: "jsobj \<Rightarrow> bool" where
  "wf_obj obj = distinct (map fst obj)"

text \<open>The characters \<open>Number::toString\<close> can produce.\<close>

definition num_alphabet :: "char set" where
  "num_alphabet = set ''0123456789.e+-NaIfinty''"

subsection \<open>Facts about numbers\<close>

lemma digit_char_table [simp, model_simps]:
  "digit_char 0 = CHR ''0''" "digit_char 1 = CHR ''1''" "digit_char 2 = CHR ''2''"
  "digit_char 3 = CHR ''3''" "digit_char 4 = CHR ''4''" "digit_char 5 = CHR ''5''"
  "digit_char 6 = CHR ''6''" "digit_char 7 = CHR ''7''" "digit_char 8 = CHR ''8''"
  "digit_char 9 = CHR ''9''" "digit_char (Suc 0) = CHR ''1''"
  unfolding digit_char_def by code_simp+

subsection \<open>Facts about objects\<close>

lemma map_fst_obj_set:
  "map fst (obj_set k v obj) = (if k \<in> set (map fst obj) then map fst obj else map fst obj @ [k])"
  by (induction obj) (auto simp: obj_set_def)

lemma wf_obj_set [intro]: "wf_obj obj \<Longrightarrow> wf_obj (obj_set k v obj)"
  by (simp add: wf_obj_def map_fst_obj_set)

lemma map_of_map_overwrite:
  "map_of (map (\<lambda>p. if fst p = k then (k, v) else p) obj) =
     (if k \<in> set (map fst obj) then (map_of obj)(k \<mapsto> v) else map_of obj)"
  by (induction obj) (auto simp: fun_eq_iff)

lemma map_of_snoc_fresh:
  "k \<notin> set (map fst obj) \<Longrightarrow> map_of (obj @ [(k, v)]) = (map_of obj)(k \<mapsto> v)"
  by (induction obj) (auto simp: fun_eq_iff)

lemma map_of_obj_set [simp]: "map_of (obj_set k v obj) = (map_of obj)(k \<mapsto> v)"
  by (simp add: obj_set_def map_of_map_overwrite map_of_snoc_fresh del: map_of_append)

lemma wf_obj_set_all [intro]: "wf_obj obj \<Longrightarrow> wf_obj (obj_set_all obj kvs)"
  by (induction kvs arbitrary: obj) (auto simp: obj_set_all_def)

lemma map_of_obj_set_all:
  "map_of (obj_set_all obj kvs) = foldl (\<lambda>m p. m(fst p \<mapsto> snd p)) (map_of obj) kvs"
  by (induction kvs arbitrary: obj) (simp_all add: obj_set_all_def)

text \<open>Setting keys the object does not have appends them in order.\<close>

lemma obj_set_all_fresh:
  "distinct (map fst (obj @ kvs)) \<Longrightarrow> obj_set_all obj kvs = obj @ kvs"
proof (induction kvs arbitrary: obj)
  case Nil
  then show ?case by (simp add: obj_set_all_def)
next
  case (Cons p kvs)
  then have "obj_set (fst p) (snd p) obj = obj @ [p]"
    by (auto simp: obj_set_def)
  with Cons.IH [of "obj @ [p]"] Cons.prems show ?case
    by (simp add: obj_set_all_def)
qed

lemma set_obj_set: "set (obj_set k v obj) \<subseteq> insert (k, v) (set obj)"
  by (auto simp: obj_set_def)

lemma set_obj_set_all: "set (obj_set_all obj kvs) \<subseteq> set obj \<union> set kvs"
proof (induction kvs arbitrary: obj)
  case (Cons p kvs)
  have "set (obj_set_all (obj_set (fst p) (snd p) obj) kvs) \<subseteq> set (obj_set (fst p) (snd p) obj) \<union> set kvs"
    by (rule Cons.IH)
  with set_obj_set [of "fst p" "snd p" obj] show ?case by (auto simp: obj_set_all_def)
qed (simp add: obj_set_all_def)

lemma set_from_entries: "set (from_entries kvs) \<subseteq> set kvs"
  using set_obj_set_all [of "[]" kvs] by (simp add: from_entries_def)

lemma from_entries_distinct [simp]: "distinct (map fst kvs) \<Longrightarrow> from_entries kvs = kvs"
  by (simp add: from_entries_def obj_set_all_fresh)

lemma foldl_upd_distinct:
  "distinct (map fst kvs) \<Longrightarrow> foldl (\<lambda>m p. m(fst p \<mapsto> snd p)) m kvs = m ++ map_of kvs"
proof (induction kvs arbitrary: m)
  case Nil
  then show ?case by simp
next
  case (Cons p kvs)
  obtain k v where p: "p = (k, v)" by (cases p)
  with Cons.prems have k: "k \<notin> dom (map_of kvs)" and d: "distinct (map fst kvs)"
    by (auto simp: dom_map_of_conv_image_fst)
  have "foldl (\<lambda>m p. m(fst p \<mapsto> snd p)) m (p # kvs) = m(k \<mapsto> v) ++ map_of kvs"
    using Cons.IH [OF d, of "m(k \<mapsto> v)"] by (simp only: p foldl_Cons prod.sel)
  also have "\<dots> = m ++ map_of (p # kvs)"
    using k by (simp add: p map_add_upd_left)
  finally show ?case .
qed

lemma mset_obj_entries [simp]: "mset (obj_entries obj) = mset obj"
  by (simp add: obj_entries_def)

lemma set_obj_entries [simp]: "set (obj_entries obj) = set obj"
  by (metis mset_obj_entries set_mset_mset)

lemma wf_obj_entries [intro]: "wf_obj obj \<Longrightarrow> wf_obj (obj_entries obj)"
  unfolding wf_obj_def
  by (metis mset_obj_entries mset_map mset_eq_imp_distinct_iff)

lemma map_of_obj_entries: "wf_obj obj \<Longrightarrow> map_of (obj_entries obj) = map_of obj"
  by (metis wf_obj_def wf_obj_entries set_obj_entries map_of_inject_set)

text \<open>\<open>Object.entries\<close> order is stable under filtering and under changing values.\<close>

lemma obj_entries_filter:
  "obj_entries (filter P (obj_entries obj)) = filter P (obj_entries obj)"
proof -
  let ?I = "\<lambda>p. array_index (fst p) \<noteq> None"
  let ?f = "\<lambda>p. the (array_index (fst p))"
  let ?S = "sort_key ?f (filter ?I obj)"
  let ?N = "filter (\<lambda>p. array_index (fst p) = None) obj"
  have s: "sorted (map ?f (filter P ?S))"
    by (rule sorted_filter) simp
  have "filter ?I (filter P ?S) = filter P ?S"
    by (rule filter_True) auto
  moreover have "filter ?I (filter P ?N) = []"
    by (rule filter_False) auto
  moreover have "filter (\<lambda>p. array_index (fst p) = None) (filter P ?S) = []"
    by (rule filter_False) auto
  moreover have "filter (\<lambda>p. array_index (fst p) = None) (filter P ?N) = filter P ?N"
    by (rule filter_True) auto
  ultimately show ?thesis
    using s by (simp add: obj_entries_def sort_key_id_if_sorted)
qed

lemma obj_entries_map_snd:
  "obj_entries (map (\<lambda>p. (fst p, g p)) obj) = map (\<lambda>p. (fst p, g p)) (obj_entries obj)"
  by (simp add: obj_entries_def filter_map comp_def sort_key_map_keep)

lemma obj_entries_no_index:
  "\<forall>p \<in> set obj. array_index (fst p) = None \<Longrightarrow> obj_entries obj = obj"
  by (simp add: obj_entries_def filter_empty_conv)
lemma obj_entries_idem [simp]: "obj_entries (obj_entries obj) = obj_entries obj"
  using obj_entries_filter [of "\<lambda>_. True" obj] by simp

lemma wf_obj_filter: "wf_obj obj \<Longrightarrow> distinct (map fst (filter P obj))"
  by (simp add: wf_obj_def distinct_map_filter)

lemma nat_digits_not_Nil [simp]: "nat_digits n \<noteq> []"
  by (subst nat_digits.simps) simp

lemma pos_to_string_not_Nil: "pos_to_string m x \<noteq> []"
  by (simp add: pos_to_string_def Let_def split: prod.split)

lemma num_to_string_not_Nil [simp]: "num_to_string n \<noteq> []"
  by (cases n) (simp_all add: pos_to_string_not_Nil)

lemma array_join_strings: "array_join sep (map JString xs) = join_with sep xs"
  by (simp add: array_join_def join_elem_def comp_def)

subsection \<open>Character set of \<open>Number::toString\<close>\<close>

lemma digit_chars_all: "list_all (\<lambda>d. digit_char d \<in> num_alphabet) [0..<10]"
  unfolding num_alphabet_def by code_simp

lemma num_alphabet_symbols:
  "CHR ''.'' \<in> num_alphabet" "CHR ''e'' \<in> num_alphabet" "CHR ''+'' \<in> num_alphabet"
  "CHR ''-'' \<in> num_alphabet" "CHR ''0'' \<in> num_alphabet"
  "set ''NaN'' \<subseteq> num_alphabet" "set ''Infinity'' \<subseteq> num_alphabet"
  by (simp_all add: num_alphabet_def)

lemma set_nat_digits: "set (nat_digits n) \<subseteq> num_alphabet"
proof (induction n rule: nat_digits.induct)
  case (1 n)
  have d: "d < 10 \<Longrightarrow> digit_char d \<in> num_alphabet" for d
    using digit_chars_all by (simp add: list_all_iff)
  show ?case
  proof (cases "n < 10")
    case True
    then show ?thesis using d [of n] by (subst nat_digits.simps) simp
  next
    case False
    with "1.IH" show ?thesis
      using d [of "n mod 10"] by (subst nat_digits.simps) simp
  qed
qed

lemma set_pos_to_string: "set (pos_to_string m x) \<subseteq> num_alphabet"
proof -
  obtain s e where se: "strip10 m x = (s, e)" by (cases "strip10 m x")
  have ds: "set (nat_digits k) \<subseteq> num_alphabet" for k by (rule set_nat_digits)
  have tk: "set (take j (nat_digits s)) \<subseteq> num_alphabet" for j
    using set_take_subset ds by (rule order_trans)
  have dr: "set (drop j (nat_digits s)) \<subseteq> num_alphabet" for j
    using set_drop_subset ds by (rule order_trans)
  have ex: "set (exp_suffix k) \<subseteq> num_alphabet" for k
    using ds [of "nat \<bar>k\<bar>"] num_alphabet_symbols by (simp add: exp_suffix_def)
  show ?thesis
    using ds [of s] tk dr ex num_alphabet_symbols
    by (simp add: pos_to_string_def se Let_def set_replicate_conv_if)
qed

lemma set_num_to_string: "set (num_to_string n) \<subseteq> num_alphabet"
proof (cases n)
  case (Dec m x)
  then show ?thesis
    using set_pos_to_string num_alphabet_symbols by (simp add: num_alphabet_def [symmetric])
qed (use num_alphabet_symbols in simp_all)

lemma num_alphabet_excludes:
  "CHR '','' \<notin> num_alphabet" "CHR '';'' \<notin> num_alphabet" "CHR ''#'' \<notin> num_alphabet"
  "CHR ''?'' \<notin> num_alphabet" "CHR ''/'' \<notin> num_alphabet"
  by (simp_all add: num_alphabet_def)

lemma num_to_string_excludes:
  "CHR '','' \<notin> set (num_to_string n)" "CHR '';'' \<notin> set (num_to_string n)"
  "CHR ''#'' \<notin> set (num_to_string n)"
  using set_num_to_string [of n] num_alphabet_excludes by blast+

lemmas obj_eval = wf_obj_def obj_entries_def array_index_def digits_value_def is_digit_def

end
