(* ===== verification/Mapir.thy ===== *)
theory Mapir
  imports JsValue
begin

text \<open>
  The client object of src/src/index.ts (class \<open>Mapir\<close>): its two fields, read
  by every request function, and its constructor. \<open>baseURL\<close> is declared
  optional (\<open>baseURL?: string\<close>), so the model keeps it as an option; the
  constructor always sets it. A point (\<open>LngLat\<close>, from a \<open>types\<close> module that
  is not among the sources) is a longitude and a latitude.
\<close>

record mapir =
  apiKey :: bytes
  baseURL :: "bytes option"

record constructor_options =
  opt_apiKey :: "bytes option"
  opt_baseURL :: "bytes option"

record lnglat =
  lng :: number
  lat :: number

definition mapir_defaults :: mapir where
  "mapir_defaults = \<lparr>apiKey = [], baseURL = Some ''https://map.ir''\<rparr>"

text \<open>
  \<open>const { apiKey, baseURL } = opt ?? {}\<close>, then each field is overwritten only
  when the option is truthy, so an empty string keeps the default.
\<close>

definition Mapir_new :: "constructor_options option \<Rightarrow> mapir" where
  "Mapir_new opt =
     (let oo = (case opt of None \<Rightarrow> \<lparr>opt_apiKey = None, opt_baseURL = None\<rparr> | Some x \<Rightarrow> x);
          m1 = (case opt_apiKey oo of
                  Some k \<Rightarrow> if js_truthy (JString k) then mapir_defaults\<lparr>apiKey := k\<rparr> else mapir_defaults
                | None \<Rightarrow> mapir_defaults)
      in (case opt_baseURL oo of
            Some b \<Rightarrow> if js_truthy (JString b) then m1\<lparr>baseURL := Some b\<rparr> else m1
          | None \<Rightarrow> m1))"

end
