(* ===== verification/FormUrlencoded.thy ===== *)
theory FormUrlencoded
  imports Prelude
begin

text \<open>
  The \<open>application/x-www-form-urlencoded\<close> format of the WHATWG URL standard
  (section 5), which \<open>new URLSearchParams(record).toString()\<close> produces in
  \<open>qs\<close> (src/src/utils.ts) and which the map service parses on the other
  side. It is a platform library, not code of the repository, and is modelled
  from the standard. Strings are taken after UTF-8 encoding, so the model works
  on bytes; the final UTF-8 decoding of the parser is the identity on the
  well-formed UTF-8 the serializer emits.

  The serializer percent-encodes every byte outside \<open>A-Z a-z 0-9 * - . _\<close>,
  writes a space as \<open>+\<close>, and joins \<open>name=value\<close> pairs with \<open>&\<close>. The
  parser splits at \<open>&\<close>, skips empty pieces, splits each at its first \<open>=\<close>,
  turns \<open>+\<close> into a space and percent-decodes.
\<close>

subsection \<open>Serializer\<close>

definition form_safe :: "char \<Rightarrow> bool" where
  "form_safe c =
     (let n = (of_char c :: nat) in
      (48 \<le> n \<and> n \<le> 57) \<or> (65 \<le> n \<and> n \<le> 90) \<or> (97 \<le> n \<and> n \<le> 122) \<or> c \<in> set ''*-._'')"

definition hex_upper :: "nat \<Rightarrow> char" where
  "hex_upper d = (if d < 10 then char_of (48 + d) else char_of (55 + d))"

definition pct_byte :: "char \<Rightarrow> bytes" where
  "pct_byte c = [CHR ''%'', hex_upper (of_char c div 16), hex_upper (of_char c mod 16)]"

definition form_encode_byte :: "char \<Rightarrow> bytes" where
  "form_encode_byte c =
     (if form_safe c then [c] else if c = CHR '' '' then ''+'' else pct_byte c)"

definition form_encode :: "bytes \<Rightarrow> bytes" where
  "form_encode s = concat (map form_encode_byte s)"

definition form_serialize :: "(bytes \<times> bytes) list \<Rightarrow> bytes" where
  "form_serialize ps = join_with ''&'' (map (\<lambda>(n, v). form_encode n @ ''='' @ form_encode v) ps)"

subsection \<open>Parser\<close>

definition hex_value :: "char \<Rightarrow> nat option" where
  "hex_value c =
     (let n = (of_char c :: nat) in
      if 48 \<le> n \<and> n \<le> 57 then Some (n - 48)
      else if 65 \<le> n \<and> n \<le> 70 then Some (n - 55)
      else if 97 \<le> n \<and> n \<le> 102 then Some (n - 87)
      else None)"

fun pct_decode :: "bytes \<Rightarrow> bytes" where
  "pct_decode [] = []"
| "pct_decode (c # cs) =
     (if c = CHR ''%'' then
        (case cs of
           a # b # rest \<Rightarrow>
             (case (hex_value a, hex_value b) of
                (Some x, Some y) \<Rightarrow> char_of (16 * x + y) # pct_decode rest
              | _ \<Rightarrow> c # pct_decode cs)
         | _ \<Rightarrow> c # pct_decode cs)
      else c # pct_decode cs)"

definition plus_to_space :: "bytes \<Rightarrow> bytes" where
  "plus_to_space s = map (\<lambda>c. if c = CHR ''+'' then CHR '' '' else c) s"

definition split_pair :: "bytes \<Rightarrow> bytes \<times> bytes" where
  "split_pair b =
     (if CHR ''='' \<in> set b
      then (takeWhile (\<lambda>c. c \<noteq> CHR ''='') b, drop 1 (dropWhile (\<lambda>c. c \<noteq> CHR ''='') b))
      else (b, []))"

definition form_decode_pair :: "bytes \<Rightarrow> bytes \<times> bytes" where
  "form_decode_pair b =
     (let (n, v) = split_pair b in (pct_decode (plus_to_space n), pct_decode (plus_to_space v)))"

definition form_parse :: "bytes \<Rightarrow> (bytes \<times> bytes) list" where
  "form_parse s = map form_decode_pair (filter (\<lambda>b. b \<noteq> []) (split_on CHR ''&'' s))"

subsection \<open>Round trip\<close>

lemma hex_digits_all:
  "list_all (\<lambda>d. hex_upper d \<in> set ''0123456789ABCDEF'' \<and> hex_value (hex_upper d) = Some d) [0..<16]"
  by code_simp

lemma hex_upper_mem: "d < 16 \<Longrightarrow> hex_upper d \<in> set ''0123456789ABCDEF''"
  using hex_digits_all by (simp add: list_all_iff)

lemma hex_value_hex_upper: "d < 16 \<Longrightarrow> hex_value (hex_upper d) = Some d"
  using hex_digits_all by (simp add: list_all_iff)

lemma of_char_hex_parts: "of_char c div 16 < (16::nat)" "of_char c mod 16 < (16::nat)"
proof -
  have "of_char c < (16 * 16 :: nat)" by simp
  then show "of_char c div 16 < (16::nat)" by (simp only: less_mult_imp_div_less)
  show "of_char c mod 16 < (16::nat)" by simp
qed

lemma plus_to_space_append [simp]:
  "plus_to_space (a @ b) = plus_to_space a @ plus_to_space b"
  by (simp add: plus_to_space_def)

lemma plus_to_space_Cons [simp]:
  "plus_to_space (c # s) = (if c = CHR ''+'' then CHR '' '' else c) # plus_to_space s"
  by (simp add: plus_to_space_def)

lemma plus_to_space_pct_byte [simp]: "plus_to_space (pct_byte c) = pct_byte c"
proof -
  have "hex_upper (of_char c div 16) \<noteq> CHR ''+''"
    using hex_upper_mem [OF of_char_hex_parts(1) [of c]] by auto
  moreover have "hex_upper (of_char c mod 16) \<noteq> CHR ''+''"
    using hex_upper_mem [OF of_char_hex_parts(2) [of c]] by auto
  ultimately show ?thesis by (simp add: plus_to_space_def pct_byte_def)
qed

lemma pct_decode_pct_byte: "pct_decode (pct_byte c @ rest) = c # pct_decode rest"
proof -
  note hi = of_char_hex_parts(1) [of c] and lo = of_char_hex_parts(2) [of c]
  have "char_of (16 * (of_char c div 16) + of_char c mod 16 :: nat) = c"
    by simp
  then show ?thesis
    by (simp add: pct_byte_def hex_value_hex_upper [OF hi] hex_value_hex_upper [OF lo])
qed

lemma form_safe_not_special:
  "form_safe c \<Longrightarrow>
   c \<noteq> CHR ''+'' \<and> c \<noteq> CHR ''%'' \<and> c \<noteq> CHR ''&'' \<and> c \<noteq> CHR ''='' \<and> c \<noteq> CHR ''#''"
  by (auto simp: form_safe_def)

lemma pct_decode_form_encode_byte:
  "pct_decode (plus_to_space (form_encode_byte c @ rest)) = c # pct_decode (plus_to_space rest)"
proof (cases "form_safe c")
  case True
  with form_safe_not_special [OF True] show ?thesis
    by (simp add: form_encode_byte_def plus_to_space_def)
next
  case False
  then show ?thesis
    by (cases "c = CHR '' ''") (simp_all add: form_encode_byte_def pct_decode_pct_byte)
qed

lemma form_decode_encode: "pct_decode (plus_to_space (form_encode s)) = s"
proof (induction s)
  case Nil
  then show ?case by (simp add: form_encode_def plus_to_space_def)
next
  case (Cons c s)
  then show ?case
    using pct_decode_form_encode_byte [of c "form_encode s"] by (simp add: form_encode_def)
qed

lemma hex_upper_not_delim:
  assumes "d < 16"
  shows "hex_upper d \<noteq> CHR ''&'' \<and> hex_upper d \<noteq> CHR ''='' \<and> hex_upper d \<noteq> CHR ''#''"
proof -
  have m: "hex_upper d \<in> set ''0123456789ABCDEF''" by (rule hex_upper_mem [OF assms])
  have "CHR ''&'' \<notin> set ''0123456789ABCDEF''" and "CHR ''='' \<notin> set ''0123456789ABCDEF''"
    and "CHR ''#'' \<notin> set ''0123456789ABCDEF''"
    by simp_all
  with m show ?thesis by metis
qed

lemma form_encode_byte_no_delims:
  "CHR ''&'' \<notin> set (form_encode_byte c) \<and> CHR ''='' \<notin> set (form_encode_byte c) \<and>
   CHR ''#'' \<notin> set (form_encode_byte c)"
proof (cases "form_safe c")
  case True
  then show ?thesis using form_safe_not_special [of c] by (auto simp: form_encode_byte_def)
next
  case False
  have "CHR ''&'' \<notin> set (pct_byte c) \<and> CHR ''='' \<notin> set (pct_byte c) \<and>
        CHR ''#'' \<notin> set (pct_byte c)"
    using hex_upper_not_delim [OF of_char_hex_parts(1) [of c]]
      hex_upper_not_delim [OF of_char_hex_parts(2) [of c]]
    by (auto simp: pct_byte_def)
  with False show ?thesis by (simp add: form_encode_byte_def)
qed

lemma form_encode_no_delims:
  "CHR ''&'' \<notin> set (form_encode s) \<and> CHR ''='' \<notin> set (form_encode s) \<and>
   CHR ''#'' \<notin> set (form_encode s)"
  using form_encode_byte_no_delims by (auto simp: form_encode_def)

lemma split_pair_encoded:
  assumes "CHR ''='' \<notin> set a"
  shows "split_pair (a @ CHR ''='' # b) = (a, b)"
proof -
  have "\<And>x. x \<in> set a \<Longrightarrow> x \<noteq> CHR ''=''" using assms by auto
  then show ?thesis by (simp add: split_pair_def)
qed

lemma form_parse_serialize: "form_parse (form_serialize ps) = ps"
proof (cases "ps = []")
  case True
  then show ?thesis by (simp add: form_parse_def form_serialize_def)
next
  case False
  let ?enc = "\<lambda>(n, v). form_encode n @ ''='' @ form_encode v"
  have pieces: "\<forall>xs \<in> set (map ?enc ps). CHR ''&'' \<notin> set xs"
    using form_encode_no_delims by auto
  have split: "split_on CHR ''&'' (form_serialize ps) = map ?enc ps"
    unfolding form_serialize_def
    using split_on_join_with [of "map ?enc ps" "CHR ''&''"] False pieces by simp
  have nonempty: "filter (\<lambda>b. b \<noteq> []) (map ?enc ps) = map ?enc ps"
    by (rule filter_True) auto
  have dec: "form_decode_pair (?enc p) = p" for p
    using form_encode_no_delims [of "fst p"]
    by (cases p) (simp add: form_decode_pair_def split_pair_encoded form_decode_encode)
  have "map form_decode_pair (map ?enc ps) = ps"
    by (induction ps) (simp_all only: list.map dec)
  then show ?thesis
    unfolding form_parse_def split nonempty .
qed


lemma form_serialize_no_hash: "CHR ''#'' \<notin> set (form_serialize ps)"
proof
  assume h: "CHR ''#'' \<in> set (form_serialize ps)"
  have "set (form_serialize ps) \<subseteq>
          set ''&'' \<union> \<Union> (set ` set (map (\<lambda>(n, v). form_encode n @ ''='' @ form_encode v) ps))"
    unfolding form_serialize_def by (rule set_join_with_subset)
  with h form_encode_no_delims show False by auto
qed

end
