(* ===== verification/Utils.thy ===== *)
theory Utils
  imports JsValue FormUrlencoded
begin

text \<open>
  The helpers of src/src/utils.ts: \<open>isValue\<close>, \<open>cleanObj\<close> (drop
  \<open>undefined\<close>/\<open>null\<close> entries, or every falsy entry in strict mode),
  \<open>convertAllPropsToString\<close>, the query-string builder \<open>qs\<close> and the digit
  transliteration \<open>toFaDigits\<close>. \<open>qs\<close> hands the cleaned, stringified object
  to \<open>new URLSearchParams(record)\<close>, modelled by \<open>url_search_params\<close>
  (a record's entries in \<open>[[OwnPropertyKeys]]\<close> order, values by ToString)
  and \<open>form_serialize\<close>.
\<close>

definition isValue :: "jsval \<Rightarrow> bool" where
  "isValue v = (v \<noteq> JUndefined \<and> v \<noteq> JNull)"

definition cleanObj :: "jsobj \<Rightarrow> bool \<Rightarrow> jsobj" where
  "cleanObj obj strict =
     from_entries (filter (\<lambda>p. if strict then js_truthy (snd p) else isValue (snd p)) (obj_entries obj))"

definition convertAllPropsToString :: "jsobj \<Rightarrow> jsobj" where
  "convertAllPropsToString obj =
     from_entries (map (\<lambda>p. (fst p, JString (js_string (snd p)))) (obj_entries obj))"

definition url_search_params :: "jsobj \<Rightarrow> (bytes \<times> bytes) list" where
  "url_search_params obj = map (\<lambda>p. (fst p, js_string (snd p))) (obj_entries obj)"

text \<open>\<open>qs(obj)\<close> calls \<open>cleanObj\<close> with its default \<open>strict = true\<close>.\<close>

definition qs :: "jsobj \<Rightarrow> bytes" where
  "qs obj = form_serialize (url_search_params (convertAllPropsToString (cleanObj obj True)))"

text \<open>
  \<open>toFaDigits\<close> calls \<open>input.toString()\<close> (a \<open>TypeError\<close> on \<open>null\<close> and
  \<open>undefined\<close>), returns \<open>""\<close> for the empty string and replaces each ASCII
  digit by the Extended Arabic-Indic digit U+06F0 + d, two bytes in UTF-8.
\<close>

definition fa_digit :: "char \<Rightarrow> bytes" where
  "fa_digit c = [CHR 0xDB, char_of (0xB0 + (of_char c - 48 :: nat))]"

definition fa_char :: "char \<Rightarrow> bytes" where
  "fa_char c = (if is_digit c then fa_digit c else [c])"

definition toFaDigits :: "jsval \<Rightarrow> js_error + bytes" where
  "toFaDigits input =
     (if input = JUndefined \<or> input = JNull
      then Inl (TypeError ''Cannot read properties of null (reading toString)'')
      else (let s = js_string input in if s = [] then Inr [] else Inr (concat (map fa_char s))))"

text \<open>The left inverse of the digit transliteration, used to state what
  \<open>toFaDigits\<close> preserves.\<close>

fun fa_to_ascii :: "bytes \<Rightarrow> bytes" where
  "fa_to_ascii (a # b # rest) =
     (if a = CHR 0xDB \<and> 176 \<le> (of_char b :: nat) \<and> (of_char b :: nat) \<le> 185
      then char_of (of_char b - 128 :: nat) # fa_to_ascii rest
      else a # fa_to_ascii (b # rest))"
| "fa_to_ascii xs = xs"

abbreviation clean_pred :: "bool \<Rightarrow> bytes \<times> jsval \<Rightarrow> bool" where
  "clean_pred strict p \<equiv> (if strict then js_truthy (snd p) else isValue (snd p))"


subsection \<open>Properties\<close>

lemma cleanObj_eq:
  "wf_obj obj \<Longrightarrow> cleanObj obj strict = filter (clean_pred strict) (obj_entries obj)"
  unfolding cleanObj_def by (simp add: wf_obj_filter wf_obj_entries)

lemma convertAllPropsToString_eq:
  "wf_obj obj \<Longrightarrow>
   convertAllPropsToString obj = map (\<lambda>p. (fst p, JString (js_string (snd p)))) (obj_entries obj)"
proof -
  assume "wf_obj obj"
  then have "distinct (map fst (map (\<lambda>p. (fst p, JString (js_string (snd p)))) (obj_entries obj)))"
    using wf_obj_entries by (simp add: wf_obj_def comp_def)
  then show ?thesis unfolding convertAllPropsToString_def by simp
qed

lemma qs_eq:
  assumes "wf_obj obj"
  shows "qs obj = form_serialize (map (\<lambda>p. (fst p, js_string (snd p)))
                    (filter (\<lambda>p. js_truthy (snd p)) (obj_entries obj)))"
proof -
  let ?c = "filter (\<lambda>p. js_truthy (snd p)) (obj_entries obj)"
  have c: "cleanObj obj True = ?c"
    using cleanObj_eq [OF assms, of True] by simp
  have wc: "wf_obj ?c"
    using assms wf_obj_entries by (simp add: wf_obj_def distinct_map_filter)
  have ec: "obj_entries ?c = ?c"
    by (rule obj_entries_filter)
  have "convertAllPropsToString ?c = map (\<lambda>p. (fst p, JString (js_string (snd p)))) ?c"
    using convertAllPropsToString_eq [OF wc] ec by simp
  moreover have "obj_entries (map (\<lambda>p. (fst p, JString (js_string (snd p)))) ?c)
                   = map (\<lambda>p. (fst p, JString (js_string (snd p)))) ?c"
    using obj_entries_map_snd [of "\<lambda>p. JString (js_string (snd p))" ?c] ec by simp
  ultimately show ?thesis
    by (simp add: qs_def c url_search_params_def comp_def)
qed

lemma map_of_filter_snd:
  "distinct (map fst xs) \<Longrightarrow>
   map_of (filter (\<lambda>p. Q (snd p)) xs) k =
     (case map_of xs k of None \<Rightarrow> None | Some v \<Rightarrow> if Q v then Some v else None)"
  by (induction xs) (auto simp: map_of_eq_None_iff split: option.splits)

text \<open>C1: parsing the query string that \<open>qs\<close> builds gives back exactly
  the entries of the object whose value is truthy, in \<open>Object.entries\<close> order, each
  value as its \<open>String(...)\<close> form.\<close>

theorem qs_roundtrip:
  "wf_obj obj \<Longrightarrow>
   form_parse (qs obj) =
     map (\<lambda>p. (fst p, js_string (snd p))) (filter (\<lambda>p. js_truthy (snd p)) (obj_entries obj))"
  by (simp add: qs_eq form_parse_serialize)

text \<open>C12: seen as a map, \<open>cleanObj\<close> keeps the value of a key exactly
  when it is truthy (strict mode) or neither \<open>undefined\<close> nor \<open>null\<close> (normal
  mode), and drops the key otherwise.\<close>

theorem cleanObj_map:
  "wf_obj obj \<Longrightarrow>
   map_of (cleanObj obj strict) k =
     (case map_of obj k of None \<Rightarrow> None
      | Some v \<Rightarrow> if (if strict then js_truthy v else isValue v) then Some v else None)"
proof -
  assume wf: "wf_obj obj"
  then have d: "distinct (map fst (obj_entries obj))"
    using wf_obj_entries by (simp add: wf_obj_def)
  show ?thesis
    using map_of_filter_snd [OF d, of "\<lambda>v. if strict then js_truthy v else isValue v" k]
    by (simp only: cleanObj_eq [OF wf] map_of_obj_entries [OF wf])
qed

lemma fa_to_ascii_fa_char:
  "CHR 0xDB \<noteq> c \<Longrightarrow> fa_to_ascii (fa_char c @ rest) = c # fa_to_ascii rest"
proof (cases "is_digit c")
  case True
  then have "(of_char c :: nat) - 48 \<le> 9" unfolding is_digit_def by linarith
  then have "of_char (char_of (176 + (of_char c - 48 :: nat)) :: char) = (176 + (of_char c - 48) :: nat)"
    by simp
  with True show ?thesis by (simp add: fa_char_def fa_digit_def is_digit_def)
next
  case False
  assume "CHR 0xDB \<noteq> c"
  with False show ?thesis
    by (cases rest) (simp_all add: fa_char_def)
qed

text \<open>C15: \<open>toFaDigits\<close> of a string or number returns a string
  with no ASCII digit left, from which mapping each Persian digit back recovers
  \<open>input.toString()\<close>, for inputs whose text has no byte 0xDB: no character of
  U+06C0 to U+06FF, the block of the Persian digits.\<close>

theorem toFaDigits_roundtrip:
  assumes "v \<noteq> JUndefined" and "v \<noteq> JNull" and "CHR 0xDB \<notin> set (js_string v)"
  shows "\<exists>t. toFaDigits v = Inr t \<and> fa_to_ascii t = js_string v \<and> (\<forall>c \<in> set t. \<not> is_digit c)"
proof -
  have inv: "CHR 0xDB \<notin> set s \<Longrightarrow> fa_to_ascii (concat (map fa_char s)) = s" for s
    by (induction s) (simp_all add: fa_to_ascii_fa_char)
  have nd: "\<forall>c \<in> set (concat (map fa_char s)). \<not> is_digit c" for s
    by (auto simp: fa_char_def fa_digit_def is_digit_def)
  show ?thesis
    using assms inv [of "js_string v"] nd [of "js_string v"]
    by (simp add: toFaDigits_def Let_def)
qed

lemma qs_plain_strings:
  assumes "distinct (map fst kvs)" and "\<forall>p \<in> set kvs. array_index (fst p) = None"
  shows "form_parse (qs (map (\<lambda>p. (fst p, JString (snd p))) kvs)) = filter (\<lambda>p. snd p \<noteq> []) kvs"
proof -
  let ?o = "map (\<lambda>p. (fst p, JString (snd p))) kvs"
  have w: "wf_obj ?o" using assms(1) by (simp add: wf_obj_def comp_def)
  have e: "obj_entries ?o = ?o" using assms(2) by (simp add: obj_entries_no_index)
  show ?thesis
    by (simp add: qs_eq [OF w] e form_parse_serialize filter_map comp_def)
qed

subsection \<open>Witnesses\<close>

theorem qs_roundtrip_witness:
  "wf_obj [(''steps'', JBool False), (''lat'', JString ''35.7''), (''w'', JNumber (Dec 0 0))] \<and>
   form_parse (qs [(''steps'', JBool False), (''lat'', JString ''35.7''), (''w'', JNumber (Dec 0 0))])
     = [(''lat'', ''35.7'')]"
  using qs_roundtrip [of "[(''steps'', JBool False), (''lat'', JString ''35.7''), (''w'', JNumber (Dec 0 0))]"]
  by (simp add: obj_eval)

theorem cleanObj_map_witness:
  "wf_obj [(''a'', JNull), (''b'', JBool False)] \<and>
   map_of (cleanObj [(''a'', JNull), (''b'', JBool False)] False) ''b'' = Some (JBool False)"
  using cleanObj_map [of "[(''a'', JNull), (''b'', JBool False)]" False "''b''"]
  by (simp add: obj_eval isValue_def)

theorem toFaDigits_roundtrip_witness:
  "\<exists>t. toFaDigits (JNumber (Dec 35 0)) = Inr t \<and> fa_to_ascii t = ''35'' \<and> (\<forall>c \<in> set t. \<not> is_digit c)"
  using toFaDigits_roundtrip [of "JNumber (Dec 35 0)"]
  by (simp add: pos_to_string_def strip10.simps nat_digits.simps)

end
