(* ===== verification/Decimal.thy ===== *)
theory Decimal
  imports JsValue
begin

text \<open>
  Reading a decimal number text back into its value: the number grammar of
  JSON (ECMA-404), which \<open>JSON.parse\<close> applies to the body of a request and
  which the service applies to the coordinates it receives in a query. It is
  modelled from the standard. The value read is the exact decimal
  \<open>m \<cdot> 10^e\<close>, normalised by \<open>dec_norm\<close> so that equal values have one
  representation.
\<close>

fun dec_norm :: "number \<Rightarrow> number" where
  "dec_norm (Dec m x) =
     (if m = 0 then Dec 0 0 else (let (s, e) = strip10 (nat \<bar>m\<bar>) x in Dec (sgn m * int s) e))"
| "dec_norm n = n"

fun num_finite :: "number \<Rightarrow> bool" where
  "num_finite (Dec m x) = True"
| "num_finite _ = False"

definition scan_frac :: "bytes \<Rightarrow> (bytes \<times> bytes) option" where
  "scan_frac r =
     (case r of
        c # r' \<Rightarrow>
          if c = CHR ''.'' then
            (let fd = takeWhile is_digit r' in
             if fd = [] then None else Some (fd, dropWhile is_digit r'))
          else Some ([], r)
      | [] \<Rightarrow> Some ([], []))"

definition exp_sign :: "bytes \<Rightarrow> int \<times> bytes" where
  "exp_sign r =
     (case r of
        d # t \<Rightarrow> if d = CHR ''+'' then (1, t) else if d = CHR ''-'' then (-1, t) else (1, r)
      | [] \<Rightarrow> (1, []))"

definition scan_exp :: "bytes \<Rightarrow> (int \<times> bytes) option" where
  "scan_exp r =
     (case r of
        c # r' \<Rightarrow>
          if c = CHR ''e'' \<or> c = CHR ''E'' then
            (let (sg, r'') = exp_sign r'; ed = takeWhile is_digit r'' in
             if ed = [] then None else Some (sg * int (digits_value ed), dropWhile is_digit r''))
          else Some (0, r)
      | [] \<Rightarrow> Some (0, []))"

definition scan_number :: "bytes \<Rightarrow> (number \<times> bytes) option" where
  "scan_number s =
     (let (neg, s1) = (case s of c # t \<Rightarrow> if c = CHR ''-'' then (True, t) else (False, s)
                                 | [] \<Rightarrow> (False, []));
          ip = takeWhile is_digit s1; r1 = dropWhile is_digit s1 in
      if ip = [] \<or> (hd ip = CHR ''0'' \<and> tl ip \<noteq> []) then None
      else
        (case scan_frac r1 of
           None \<Rightarrow> None
         | Some (fd, r2) \<Rightarrow>
             (case scan_exp r2 of
                None \<Rightarrow> None
              | Some (e, r3) \<Rightarrow>
                  Some (dec_norm (Dec ((if neg then -1 else 1) * int (digits_value (ip @ fd)))
                                      (e - int (length fd))), r3))))"

text \<open>The shape of the texts \<open>Number::toString\<close> prints, and the characters
  that may follow a number token without extending it.\<close>

definition valid_int :: "bytes \<Rightarrow> bool" where
  "valid_int ip = (ip \<noteq> [] \<and> list_all is_digit ip \<and> \<not> (hd ip = CHR ''0'' \<and> tl ip \<noteq> []))"

definition num_text :: "bytes \<Rightarrow> bytes \<Rightarrow> int option \<Rightarrow> bytes" where
  "num_text ip fd ex =
     ip @ (if fd = [] then [] else CHR ''.'' # fd) @ (case ex of None \<Rightarrow> [] | Some e \<Rightarrow> exp_suffix e)"

definition num_end :: "bytes \<Rightarrow> bool" where
  "num_end r =
     (case r of [] \<Rightarrow> True | c # _ \<Rightarrow> \<not> is_digit c \<and> c \<noteq> CHR ''.'' \<and> c \<noteq> CHR ''e'' \<and> c \<noteq> CHR ''E'')"

definition parse_number :: "bytes \<Rightarrow> number option" where
  "parse_number s = (case scan_number s of Some (v, []) \<Rightarrow> Some v | _ \<Rightarrow> None)"

subsection \<open>Digits\<close>

lemma of_char_digit_char: "d < 10 \<Longrightarrow> (of_char (digit_char d) :: nat) = 48 + d"
  by (simp add: digit_char_def)

lemma is_digit_digit_char: "d < 10 \<Longrightarrow> is_digit (digit_char d)"
  by (simp add: is_digit_def of_char_digit_char)

lemma digit_char_zero_iff: "d < 10 \<Longrightarrow> digit_char d = CHR ''0'' \<longleftrightarrow> d = 0"
proof -
  assume d: "d < 10"
  have "digit_char d = CHR ''0'' \<longleftrightarrow> (of_char (digit_char d) :: nat) = of_char (CHR ''0'')"
    by (metis char_of_char)
  with d show ?thesis by (simp add: of_char_digit_char)
qed

lemma is_digit_nat_digits: "list_all is_digit (nat_digits n)"
  by (induction n rule: nat_digits.induct) (subst nat_digits.simps, simp add: is_digit_digit_char)

lemma hd_nat_digits: "0 < n \<Longrightarrow> hd (nat_digits n) \<noteq> CHR ''0''"
proof (induction n rule: nat_digits.induct)
  case (1 n)
  show ?case
  proof (cases "n < 10")
    case True
    with "1.prems" show ?thesis by (subst nat_digits.simps) (simp add: digit_char_zero_iff)
  next
    case False
    with "1.IH" show ?thesis by (subst nat_digits.simps) simp
  qed
qed

lemma valid_int_nat_digits: "0 < n \<Longrightarrow> valid_int (nat_digits n)"
  by (simp add: valid_int_def is_digit_nat_digits hd_nat_digits)

lemma foldl_digits_acc:
  "foldl (\<lambda>n c. 10 * n + (of_char c - 48)) acc b =
     acc * 10 ^ length b + foldl (\<lambda>n c. 10 * n + (of_char c - 48)) 0 b"
proof (induction b arbitrary: acc)
  case (Cons c b)
  show ?case
    using Cons.IH [of "10 * acc + (of_char c - 48)"] Cons.IH [of "of_char c - 48"]
    by (simp add: algebra_simps)
qed simp

lemma digits_value_append:
  "digits_value (a @ b) = digits_value a * 10 ^ length b + digits_value b"
  unfolding digits_value_def foldl_append by (rule foldl_digits_acc)

lemma digits_value_snoc: "digits_value (a @ [c]) = 10 * digits_value a + (of_char c - 48)"
  by (simp add: digits_value_def)

lemma digits_value_Nil [simp]: "digits_value [] = 0"
  by (simp add: digits_value_def)

lemma digits_value_Cons_zero [simp]: "digits_value (CHR ''0'' # xs) = digits_value xs"
  by (simp add: digits_value_def)

lemma digits_value_nat_digits [simp]: "digits_value (nat_digits n) = n"
proof (induction n rule: nat_digits.induct)
  case (1 n)
  show ?case
  proof (cases "n < 10")
    case True
    then show ?thesis by (subst nat_digits.simps) (simp add: digits_value_def of_char_digit_char)
  next
    case False
    with "1.IH" show ?thesis
      by (subst nat_digits.simps) (simp add: digits_value_snoc of_char_digit_char)
  qed
qed

lemma digits_value_zeros [simp]: "digits_value (replicate z CHR ''0'') = 0"
proof (induction z)
  case (Suc z)
  have "replicate (Suc z) CHR ''0'' = replicate z CHR ''0'' @ [CHR ''0'']"
    by (simp add: replicate_append_same)
  with Suc show ?case by (simp only: digits_value_snoc) simp
qed (simp add: digits_value_def)


subsection \<open>Trailing zeros\<close>

lemma strip10_mult10: "0 < s \<Longrightarrow> strip10 (s * 10) x = strip10 s (x + 1)"
  by (subst strip10.simps) simp

lemma strip10_pow: "0 < s \<Longrightarrow> strip10 (s * 10 ^ z) x = strip10 s (x + int z)"
proof (induction z arbitrary: x)
  case (Suc z)
  have "strip10 (s * 10 ^ Suc z) x = strip10 (s * 10 ^ z * 10) x" by (simp add: ac_simps)
  also have "\<dots> = strip10 (s * 10 ^ z) (x + 1)" using Suc.prems by (simp add: strip10_mult10)
  also have "\<dots> = strip10 s (x + int (Suc z))" using Suc by (simp add: ac_simps)
  finally show ?case .
qed simp

lemma strip10_fix: "strip10 m x = (s, e) \<Longrightarrow> strip10 s e = (s, e)"
proof (induction m x rule: strip10.induct)
  case (1 m x)
  show ?case
  proof (cases "m \<noteq> 0 \<and> m mod 10 = 0")
    case True
    with "1.IH" "1.prems" show ?thesis by (simp add: strip10.simps [of m x])
  next
    case False
    then have f: "strip10 m x = (m, x)" by (subst strip10.simps) (rule if_not_P)
    with "1.prems" have "s = m" "e = x" by simp_all
    with f show ?thesis by simp
  qed
qed

lemma strip10_pos: "strip10 m x = (s, e) \<Longrightarrow> 0 < m \<Longrightarrow> 0 < s"
proof (induction m x rule: strip10.induct)
  case (1 m x)
  show ?case
  proof (cases "m \<noteq> 0 \<and> m mod 10 = 0")
    case True
    then have "0 < m div 10" by auto
    with True "1.IH" "1.prems" show ?thesis by (simp add: strip10.simps [of m x])
  next
    case False
    then have "strip10 m x = (m, x)" by (subst strip10.simps) (rule if_not_P)
    with "1.prems" show ?thesis by simp
  qed
qed

subsection \<open>Scanning\<close>

lemma digits_prefix:
  assumes "list_all is_digit ds" and "r = [] \<or> \<not> is_digit (hd r)"
  shows "takeWhile is_digit (ds @ r) = ds \<and> dropWhile is_digit (ds @ r) = r"
  using assms
proof (induction ds)
  case Nil
  then show ?case by (cases r) auto
qed simp

lemma num_end_stop: "num_end r \<Longrightarrow> r = [] \<or> \<not> is_digit (hd r)"
  by (cases r) (simp_all add: num_end_def)

lemma scan_frac_end: "num_end r \<Longrightarrow> scan_frac r = Some ([], r)"
  by (cases r) (simp_all add: num_end_def scan_frac_def)

lemma scan_exp_end: "num_end r \<Longrightarrow> scan_exp r = Some (0, r)"
  by (cases r) (simp_all add: num_end_def scan_exp_def)

lemma not_digit_symbols [simp]:
  "\<not> is_digit CHR ''.''" "\<not> is_digit CHR ''e''" "\<not> is_digit CHR ''-''" "\<not> is_digit CHR ''+''"
  by (simp_all add: is_digit_def)

lemma scan_exp_suffix: "num_end r \<Longrightarrow> scan_exp (exp_suffix e @ r) = Some (e, r)"
proof -
  assume r: "num_end r"
  have d: "takeWhile is_digit (nat_digits n @ r) = nat_digits n \<and>
           dropWhile is_digit (nat_digits n @ r) = r" for n
    by (rule digits_prefix [OF is_digit_nat_digits num_end_stop [OF r]])
  show ?thesis
    by (cases "0 \<le> e") (simp_all add: scan_exp_def exp_sign_def exp_suffix_def d)
qed

lemma scan_number_text:
  assumes ip: "valid_int ip" and fd: "list_all is_digit fd" and r: "num_end r"
  shows "scan_number ((if neg then ''-'' else []) @ num_text ip fd ex @ r) =
           Some (dec_norm (Dec ((if neg then -1 else 1) * int (digits_value (ip @ fd)))
                               ((case ex of None \<Rightarrow> 0 | Some e \<Rightarrow> e) - int (length fd))), r)"
proof -
  define er where "er = (case ex of None \<Rightarrow> [] | Some e \<Rightarrow> exp_suffix e) @ r"
  define rest where "rest = (if fd = [] then [] else CHR ''.'' # fd) @ er"
  have e1: "scan_exp er = Some (case ex of None \<Rightarrow> 0 | Some e \<Rightarrow> e, r)"
    by (cases ex) (simp_all add: er_def scan_exp_suffix scan_exp_end r)
  have e2: "er = [] \<or> \<not> is_digit (hd er) \<and> hd er \<noteq> CHR ''.''"
    using r by (cases ex; cases r) (simp_all add: er_def exp_suffix_def num_end_def)
  have f: "scan_frac rest = Some (fd, er)"
  proof (cases "fd = []")
    case True
    with e2 show ?thesis by (cases er) (simp_all add: rest_def scan_frac_def)
  next
    case False
    have "takeWhile is_digit (fd @ er) = fd \<and> dropWhile is_digit (fd @ er) = er"
      using e2 by (intro digits_prefix [OF fd]) auto
    with False show ?thesis by (simp add: rest_def scan_frac_def)
  qed
  have s: "rest = [] \<or> \<not> is_digit (hd rest)"
    using e2 by (auto simp: rest_def)
  have i: "takeWhile is_digit (ip @ rest) = ip \<and> dropWhile is_digit (ip @ rest) = rest"
    using ip s by (simp add: valid_int_def digits_prefix)
  have "is_digit (hd ip)" using ip by (cases ip) (simp_all add: valid_int_def)
  then have h: "ip @ rest = hd ip # tl ip @ rest" and "hd ip \<noteq> CHR ''-''"
    using ip by (auto simp: valid_int_def)
  then have sg: "(case ip @ rest of c # t \<Rightarrow> if c = CHR ''-'' then (True, t) else (False, ip @ rest)
                                  | [] \<Rightarrow> (False, [])) = (False, ip @ rest)"
    by (simp only: list.case if_False)
  have nt: "num_text ip fd ex @ r = ip @ rest"
    by (simp add: num_text_def rest_def er_def)
  show ?thesis
    using ip i f e1 sg
    by (cases neg) (simp_all add: nt scan_number_def valid_int_def)
qed

subsection \<open>Number::toString reads back\<close>

lemma valid_int_take: "valid_int ds \<Longrightarrow> 0 < j \<Longrightarrow> hd ds \<noteq> CHR ''0'' \<Longrightarrow> valid_int (take j ds)"
  by (cases ds; cases j) (auto simp: valid_int_def list_all_iff dest: in_set_takeD)

lemma valid_int_append: "valid_int ds \<Longrightarrow> hd ds \<noteq> CHR ''0'' \<Longrightarrow> list_all is_digit zs \<Longrightarrow> valid_int (ds @ zs)"
  by (cases ds) (simp_all add: valid_int_def)

lemma valid_int_zero: "valid_int ''0''"
  by (simp add: valid_int_def is_digit_def)

lemma is_digit_zeros: "list_all is_digit (replicate z CHR ''0'')"
  by (simp add: list_all_iff is_digit_def)

lemma pos_to_string_text:
  assumes m: "0 < m" and se: "strip10 m x = (s, e)"
  shows "\<exists>ip fd ex. pos_to_string m x = num_text ip fd ex \<and> valid_int ip \<and> list_all is_digit fd \<and>
           0 < digits_value (ip @ fd) \<and>
           strip10 (digits_value (ip @ fd)) ((case ex of None \<Rightarrow> 0 | Some e \<Rightarrow> e) - int (length fd)) = (s, e)"
proof -
  have s0: "0 < s" using strip10_pos [OF se m] .
  have fx: "strip10 s e = (s, e)" using strip10_fix [OF se] .
  define ds where "ds = nat_digits s"
  define k where "k = int (length ds)"
  define n where "n = e + k"
  have ds: "valid_int ds" "list_all is_digit ds" "digits_value ds = s" "ds \<noteq> []" "hd ds \<noteq> CHR ''0''"
    using valid_int_nat_digits [OF s0] is_digit_nat_digits hd_nat_digits [OF s0]
    by (simp_all add: ds_def)
  have k1: "1 \<le> k" using ds(4) by (simp add: k_def Suc_le_eq)
  have p: "pos_to_string m x =
     (if k \<le> n \<and> n \<le> 21 then ds @ replicate (nat (n - k)) CHR ''0''
      else if 0 < n \<and> n \<le> 21 then take (nat n) ds @ ''.'' @ drop (nat n) ds
      else if -6 < n \<and> n \<le> 0 then ''0.'' @ replicate (nat (- n)) CHR ''0'' @ ds
      else if k = 1 then ds @ exp_suffix (n - 1)
      else take 1 ds @ ''.'' @ drop 1 ds @ exp_suffix (n - 1))"
    by (simp add: pos_to_string_def se Let_def ds_def k_def n_def)
  have dd: "list_all is_digit (drop j ds)" for j
    using ds(2) by (auto simp: list_all_iff dest: in_set_dropD)
  show ?thesis
  proof (cases "k \<le> n \<and> n \<le> 21")
    case c1: True
    have h1: "strip10 (s * 10 ^ nat (n - k)) 0 = (s, e)"
      using c1 fx s0 by (simp add: strip10_pow n_def)
    have h2: "pos_to_string m x = num_text (ds @ replicate (nat (n - k)) CHR ''0'') [] None"
      using c1 by (simp add: p num_text_def)
    have h3: "valid_int (ds @ replicate (nat (n - k)) CHR ''0'')"
      using ds by (simp add: valid_int_append is_digit_zeros)
    have h4: "digits_value (ds @ replicate (nat (n - k)) CHR ''0'') = s * 10 ^ nat (n - k)"
      using ds by (simp add: digits_value_append)
    show ?thesis
      apply (rule exI [of _ "ds @ replicate (nat (n - k)) CHR ''0''"], rule exI [of _ "[]"], rule exI [of _ None])
      using h1 h2 h3 h4 s0 by simp
  next
    case nc1: False
    show ?thesis
    proof (cases "0 < n \<and> n \<le> 21")
      case c2: True
      with nc1 have lt: "n < k" by auto
      show ?thesis
        apply (rule exI [of _ "take (nat n) ds"], rule exI [of _ "drop (nat n) ds"], rule exI [of _ None])
        using lt c2 ds s0 fx by (simp add: p num_text_def valid_int_take k_def n_def dd) arith
    next
      case nc2: False
      show ?thesis
      proof (cases "-6 < n \<and> n \<le> 0")
        case c3: True
        show ?thesis
          apply (rule exI [of _ "''0''"], rule exI [of _ "replicate (nat (- n)) CHR ''0'' @ ds"], rule exI [of _ None])
          using c3 nc1 nc2 ds s0 fx by (simp add: p num_text_def valid_int_zero is_digit_zeros digits_value_append k_def n_def)
      next
        case nc3: False
        show ?thesis
        proof (cases "k = 1")
          case c4: True
          have sh: "pos_to_string m x = ds @ exp_suffix (n - 1)"
            by (simp only: p if_not_P [OF nc1] if_not_P [OF nc2] if_not_P [OF nc3] if_P [OF c4])
          show ?thesis
            apply (rule exI [of _ ds], rule exI [of _ "[]"], rule exI [of _ "Some (n - 1)"])
            using sh c4 ds s0 fx by (simp add: num_text_def n_def)
        next
          case c5: False
          with k1 have k2: "2 \<le> k" by simp
          have sh: "pos_to_string m x = take 1 ds @ ''.'' @ drop 1 ds @ exp_suffix (n - 1)"
            by (simp only: p if_not_P [OF nc1] if_not_P [OF nc2] if_not_P [OF nc3] if_not_P [OF c5])
          show ?thesis
            apply (rule exI [of _ "take 1 ds"], rule exI [of _ "drop 1 ds"], rule exI [of _ "Some (n - 1)"])
            using sh k2 ds s0 fx by (simp add: num_text_def valid_int_take k_def n_def dd)
        qed
      qed
    qed
  qed
qed

lemma num_end_Nil [simp]: "num_end []"
  by (simp add: num_end_def)

lemma scan_num_to_string:
  assumes r: "num_end r"
  shows "scan_number (num_to_string (Dec m x) @ r) = Some (dec_norm (Dec m x), r)"
proof (cases "m = 0")
  case True
  have "scan_number ((if False then ''-'' else []) @ num_text ''0'' [] None @ r) =
          Some (dec_norm (Dec ((if False then -1 else 1) * int (digits_value (''0'' @ [])))
                              ((case None of None \<Rightarrow> 0 | Some e \<Rightarrow> e) - int (length ([] :: bytes)))), r)"
    by (rule scan_number_text [OF valid_int_zero _ r]) simp
  with True show ?thesis by (simp add: num_text_def)
next
  case nz: False
  define v where "v = nat \<bar>m\<bar>"
  have v0: "0 < v" using nz by (simp add: v_def)
  obtain s e where se: "strip10 v x = (s, e)" by (cases "strip10 v x")
  obtain ip fd ex where t: "pos_to_string v x = num_text ip fd ex" and ip: "valid_int ip"
      and fd: "list_all is_digit fd" and pos: "0 < digits_value (ip @ fd)"
      and st: "strip10 (digits_value (ip @ fd)) ((case ex of None \<Rightarrow> 0 | Some e \<Rightarrow> e) - int (length fd)) = (s, e)"
    using pos_to_string_text [OF v0 se] by blast
  have pos': "digits_value (ip @ fd) \<noteq> 0" using pos by simp
  show ?thesis
  proof (cases "0 < m")
    case True
    then have "num_to_string (Dec m x) @ r = (if False then ''-'' else []) @ num_text ip fd ex @ r"
      using t by (simp add: v_def)
    with True se show ?thesis
      by (simp only: scan_number_text [OF ip fd r]) (simp add: pos pos' st v_def)
  next
    case False
    with nz have "m < 0" by simp
    then have "num_to_string (Dec m x) @ r = (if True then ''-'' else []) @ num_text ip fd ex @ r"
      using t by (simp add: v_def)
    with \<open>m < 0\<close> se show ?thesis
      by (simp only: scan_number_text [OF ip fd r]) (simp add: pos pos' st v_def)
  qed
qed

lemma parse_num_to_string: "num_finite n \<Longrightarrow> parse_number (num_to_string n) = Some (dec_norm n)"
  using scan_num_to_string [OF num_end_Nil] by (cases n) (simp_all add: parse_number_def)

end
