(* ===== verification/Url.thy ===== *)
theory Url
  imports JsValue Decimal FormUrlencoded "HOL-Library.Word"
begin

unbundle bit_operations_syntax

text \<open>
  \<open>new URL(input, base)\<close> of the WHATWG URL standard, for the inputs the client
  passes: a path-absolute reference (\<open>/search\<close>, \<open>/reverse?...\<close>,
  \<open>/routes/...\<close>, \<open>/static?...\<close>) resolved against \<open>this.baseURL\<close>. Such a
  reference keeps the scheme, credentials, host and port of the base and
  replaces its path, query and fragment, so the result is the serialisation of
  that part of the base followed by the reference. The base is parsed by the
  basic URL parser: leading and trailing C0 controls and spaces are stripped and
  tabs and newlines removed; the scheme is lower-cased; special schemes skip any
  run of slashes and backslashes before the authority; the userinfo before the
  last \<open>@\<close> is split at its first \<open>:\<close> and percent-encoded; the host is
  percent-decoded, lower-cased, checked for forbidden code points and, when it
  ends in a number, read as an IPv4 address (a 32-bit word) and written back in
  dotted-decimal form; a port is a decimal number below \<open>2^16\<close>, dropped when it
  is the scheme's default; a non-special base keeps an opaque host, and one with
  an opaque path cannot be resolved against. Hosts that need the IDNA (UTS 46)
  mapping, that is non-ASCII hosts and \<open>xn--\<close> labels, and IPv6 hosts are not
  modelled: the parser returns \<open>UrlUnmodelled\<close> for them.
\<close>

datatype 'a url_result = UrlFailure | UrlUnmodelled | UrlParsed 'a

type_synonym ipv4_address = "32 word"

subsection \<open>Code points\<close>

definition c0_or_space :: "char \<Rightarrow> bool" where
  "c0_or_space c = ((of_char c :: nat) \<le> 32)"

definition tab_or_newline :: "char \<Rightarrow> bool" where
  "tab_or_newline c = ((of_char c :: nat) \<in> {9, 10, 13})"

definition ascii_lower :: "char \<Rightarrow> char" where
  "ascii_lower c =
     (let n = (of_char c :: nat) in if 65 \<le> n \<and> n \<le> 90 then char_of (n + 32) else c)"

text \<open>Forbidden host code points: NUL, tab, LF, CR, space, \<open># / : < > ? @ [ \ ] ^ |\<close>;
  forbidden domain code points add the C0 controls, \<open>%\<close> and DEL.\<close>

definition forbidden_host :: "char \<Rightarrow> bool" where
  "forbidden_host c =
     ((of_char c :: nat) \<in> set [0, 9, 10, 13, 32, 35, 47, 58, 60, 62, 63, 64, 91, 92, 93, 94, 124])"

definition forbidden_domain :: "char \<Rightarrow> bool" where
  "forbidden_domain c =
     (forbidden_host c \<or> (of_char c :: nat) \<le> 31 \<or> c = CHR ''%'' \<or> (of_char c :: nat) = 127)"

text \<open>The C0 control percent-encode set and the userinfo percent-encode set
  (bytes of non-ASCII code points are in both).\<close>

definition c0_control_set :: "char \<Rightarrow> bool" where
  "c0_control_set c = ((of_char c :: nat) \<le> 31 \<or> 126 < (of_char c :: nat))"

definition userinfo_set :: "char \<Rightarrow> bool" where
  "userinfo_set c =
     (c0_control_set c \<or>
      (of_char c :: nat) \<in> set [32, 34, 35, 60, 62, 63, 96, 123, 125, 47, 58, 59, 61, 64, 91, 92, 93, 94, 124])"

definition pct_encode :: "(char \<Rightarrow> bool) \<Rightarrow> bytes \<Rightarrow> bytes" where
  "pct_encode enc s = concat (map (\<lambda>c. if enc c then pct_byte c else [c]) s)"

subsection \<open>Schemes\<close>

definition scheme_char :: "char \<Rightarrow> bool" where
  "scheme_char c =
     (let n = (of_char c :: nat) in
      (65 \<le> n \<and> n \<le> 90) \<or> (97 \<le> n \<and> n \<le> 122) \<or> (48 \<le> n \<and> n \<le> 57) \<or> c \<in> set ''+-.'')"

definition scheme_start :: "char \<Rightarrow> bool" where
  "scheme_start c = (let n = (of_char c :: nat) in (65 \<le> n \<and> n \<le> 90) \<or> (97 \<le> n \<and> n \<le> 122))"

definition default_port :: "bytes \<Rightarrow> nat option" where
  "default_port s =
     (if s = ''ftp'' then Some 21 else if s = ''http'' \<or> s = ''ws'' then Some 80
      else if s = ''https'' \<or> s = ''wss'' then Some 443 else None)"

definition special_scheme :: "bytes \<Rightarrow> bool" where
  "special_scheme s = (s = ''file'' \<or> default_port s \<noteq> None)"

subsection \<open>IPv4 hosts\<close>

definition radix_digit :: "nat \<Rightarrow> char \<Rightarrow> nat option" where
  "radix_digit r c = (case hex_value c of Some d \<Rightarrow> if d < r then Some d else None | None \<Rightarrow> None)"

fun radix_value :: "nat \<Rightarrow> nat \<Rightarrow> bytes \<Rightarrow> nat option" where
  "radix_value r n [] = Some n"
| "radix_value r n (c # cs) =
     (case radix_digit r c of None \<Rightarrow> None | Some d \<Rightarrow> radix_value r (r * n + d) cs)"

text \<open>The IPv4 number parser: \<open>0x\<close> or \<open>0X\<close> selects hexadecimal, a leading
  \<open>0\<close> octal, and a prefix alone reads as zero.\<close>

definition ipv4_number :: "bytes \<Rightarrow> nat option" where
  "ipv4_number s =
     (if s = [] then None
      else if take 2 s = ''0x'' \<or> take 2 s = ''0X'' then radix_value 16 0 (drop 2 s)
      else if 2 \<le> length s \<and> hd s = CHR ''0'' then radix_value 8 0 (tl s)
      else radix_value 10 0 s)"

definition ipv4_parts :: "bytes \<Rightarrow> bytes list" where
  "ipv4_parts s =
     (let parts = split_on CHR ''.'' s in
      if last parts = [] \<and> 1 < length parts then butlast parts else parts)"

definition ends_in_a_number :: "bytes \<Rightarrow> bool" where
  "ends_in_a_number s =
     (let l = last (ipv4_parts s) in (l \<noteq> [] \<and> list_all is_digit l) \<or> ipv4_number l \<noteq> None)"

text \<open>The address is the last number plus each earlier one shifted into its
  octet; it is computed on unbounded naturals and the parser refuses it before
  it could exceed 32 bits.\<close>

definition ipv4_value :: "nat list \<Rightarrow> nat" where
  "ipv4_value ns =
     last ns + sum_list (map2 (\<lambda>n i. n * 256 ^ (3 - i)) (butlast ns) [0..<length ns - 1])"

definition ipv4_parser :: "bytes \<Rightarrow> ipv4_address option" where
  "ipv4_parser s =
     (let parts = ipv4_parts s in
      if 4 < length parts then None
      else
        (case those (map ipv4_number parts) of
           None \<Rightarrow> None
         | Some ns \<Rightarrow>
             if list_all (\<lambda>n. n \<le> 255) (butlast ns) \<and> last ns < 256 ^ (5 - length ns)
             then Some (word_of_nat (ipv4_value ns)) else None))"

definition ipv4_serialize :: "ipv4_address \<Rightarrow> bytes" where
  "ipv4_serialize a =
     join_with ''.'' (map (\<lambda>i. nat_digits (unat (drop_bit (8 * i) a AND 255))) [3, 2, 1, 0])"

subsection \<open>Hosts\<close>

text \<open>The host parser for special schemes: percent-decode, domain to ASCII
  (for ASCII input: lower-case, refuse forbidden domain code points and an empty
  result), then an IPv4 address if the host ends in a number. The result is the
  serialised host.\<close>

definition domain_host :: "bytes \<Rightarrow> bytes url_result" where
  "domain_host s =
     (let d = pct_decode s in
      if list_ex forbidden_domain d then UrlFailure
      else if list_ex (\<lambda>c. 127 < (of_char c :: nat)) d then UrlUnmodelled
      else
        (let a = map ascii_lower d in
         if a = [] then UrlFailure
         else if list_ex (\<lambda>l. take 4 l = ''xn--'') (split_on CHR ''.'' a) then UrlUnmodelled
         else if ends_in_a_number a then
           (case ipv4_parser a of None \<Rightarrow> UrlFailure | Some w \<Rightarrow> UrlParsed (ipv4_serialize w))
         else UrlParsed a))"

definition opaque_host :: "bytes \<Rightarrow> bytes url_result" where
  "opaque_host s =
     (if list_ex (\<lambda>c. forbidden_host c) s then UrlFailure
      else UrlParsed (pct_encode c0_control_set s))"

definition host_parser :: "bool \<Rightarrow> bytes \<Rightarrow> bytes url_result" where
  "host_parser special s =
     (if s \<noteq> [] \<and> hd s = CHR ''['' then
        (if last s = CHR '']'' then UrlUnmodelled else UrlFailure)
      else if special then domain_host s else opaque_host s)"

text \<open>The host state: the host ends at the first \<open>:\<close> outside brackets.\<close>

fun host_split :: "bool \<Rightarrow> bytes \<Rightarrow> bytes \<times> bytes option" where
  "host_split br [] = ([], None)"
| "host_split br (c # cs) =
     (if c = CHR '':'' \<and> \<not> br then ([], Some cs)
      else (let (h, p) = host_split (if c = CHR ''['' then True else if c = CHR '']'' then False else br) cs
            in (c # h, p)))"

text \<open>The port state: the serialised port, empty when it is absent or the
  scheme's default.\<close>

definition port_parser :: "bytes \<Rightarrow> bytes \<Rightarrow> bytes url_result" where
  "port_parser scheme p =
     (if p = [] then UrlParsed []
      else if \<not> list_all is_digit p then UrlFailure
      else
        (let v = digits_value p in
         if 65535 < v then UrlFailure
         else if default_port scheme = Some v then UrlParsed []
         else UrlParsed (CHR '':'' # nat_digits v)))"

subsection \<open>Authority\<close>

definition url_bind :: "'a url_result \<Rightarrow> ('a \<Rightarrow> 'b url_result) \<Rightarrow> 'b url_result" where
  "url_bind r f = (case r of UrlFailure \<Rightarrow> UrlFailure | UrlUnmodelled \<Rightarrow> UrlUnmodelled | UrlParsed x \<Rightarrow> f x)"

text \<open>The authority state and what follows it, up to the path: the userinfo
  is everything before the last \<open>@\<close>, the username its part before the
  first \<open>:\<close>. The result is the serialised \<open>//userinfo@host:port\<close>.\<close>

definition authority :: "bytes \<Rightarrow> bytes \<Rightarrow> bytes url_result" where
  "authority scheme t =
     (let special = special_scheme scheme;
          auth = takeWhile (\<lambda>c. c \<notin> set ''/?#'' \<and> \<not> (special \<and> c = CHR 0x5C)) t;
          ra = rev auth;
          hp = rev (takeWhile (\<lambda>c. c \<noteq> CHR ''@'') ra);
          ui = rev (drop 1 (dropWhile (\<lambda>c. c \<noteq> CHR ''@'') ra));
          user = pct_encode userinfo_set (takeWhile (\<lambda>c. c \<noteq> CHR '':'') ui);
          pass = pct_encode userinfo_set (drop 1 (dropWhile (\<lambda>c. c \<noteq> CHR '':'') ui));
          creds = (if user = [] \<and> pass = [] then []
                   else user @ (if pass = [] then [] else CHR '':'' # pass) @ ''@'');
          h = fst (host_split False hp);
          port = snd (host_split False hp)
      in if CHR ''@'' \<in> set auth \<and> hp = [] then UrlFailure
         else if h = [] \<and> (special \<or> port \<noteq> None) then UrlFailure
         else url_bind (host_parser special h) (\<lambda>host.
                url_bind (port_parser scheme (case port of None \<Rightarrow> [] | Some p \<Rightarrow> p)) (\<lambda>ps.
                  UrlParsed (''//'' @ creds @ host @ ps))))"

subsection \<open>The file scheme\<close>

definition drive_letter :: "bytes \<Rightarrow> bool" where
  "drive_letter s = (length s = 2 \<and> scheme_start (s ! 0) \<and> s ! 1 \<in> set '':|'')"

definition url_slash :: "char \<Rightarrow> bool" where
  "url_slash c = (c = CHR ''/'' \<or> c = CHR 0x5C)"

definition path_stop :: "char \<Rightarrow> bool" where
  "path_stop c = (url_slash c \<or> c \<in> set ''?#'')"

text \<open>A path-absolute reference against a \<open>file\<close> base keeps the base's first
  path segment when that is a Windows drive letter (normalised to \<open>X:\<close>).\<close>

definition drive_prefix :: "bytes \<Rightarrow> bytes" where
  "drive_prefix p =
     (let q = (if p \<noteq> [] \<and> url_slash (hd p) then tl p else p);
          seg = takeWhile (\<lambda>c. \<not> path_stop c) q in
      if drive_letter seg then [CHR ''/'', hd seg, CHR '':''] else [])"

definition file_base :: "bytes \<Rightarrow> bytes url_result" where
  "file_base r =
     (if 2 \<le> length r \<and> url_slash (r ! 0) \<and> url_slash (r ! 1) then
        (let buf = takeWhile (\<lambda>c. \<not> path_stop c) (drop 2 r) in
         if drive_letter buf then UrlParsed (''///'' @ [hd buf, CHR '':''])
         else if buf = [] then UrlParsed (''//'' @ drive_prefix (drop 2 r))
         else url_bind (host_parser True buf) (\<lambda>h.
                UrlParsed (''//'' @ (if h = ''localhost'' then [] else h) @
                           drive_prefix (drop (length buf) (drop 2 r)))))
      else UrlParsed (''//'' @ drive_prefix r))"

subsection \<open>The base URL and resolution\<close>

definition url_preprocess :: "bytes \<Rightarrow> bytes" where
  "url_preprocess b =
     filter (\<lambda>c. \<not> tab_or_newline c) (rev (dropWhile c0_or_space (rev (dropWhile c0_or_space b))))"

text \<open>The part of a base URL that a path-absolute reference keeps, serialised:
  \<open>scheme:\<close> followed by the authority, or nothing more for a non-special base
  with a path and no host. A base with an opaque path is refused.\<close>

definition url_base :: "bytes \<Rightarrow> bytes url_result" where
  "url_base b0 =
     (let b = url_preprocess b0;
          raw = takeWhile scheme_char b;
          rest = drop (length raw) b;
          scheme = map ascii_lower raw;
          r = drop 1 rest in
      if raw = [] \<or> \<not> scheme_start (hd raw) \<or> take 1 rest \<noteq> '':'' then UrlFailure
      else
        url_bind
          (if scheme = ''file'' then file_base r
           else if special_scheme scheme then authority scheme (dropWhile url_slash r)
           else if take 2 r = ''//'' then authority scheme (drop 2 r)
           else if take 1 r = ''/'' then UrlParsed []
           else UrlFailure)
          (\<lambda>a. UrlParsed (scheme @ '':'' @ a)))"

definition url_origin :: "bytes \<Rightarrow> bytes option" where
  "url_origin b = (case url_base b of UrlParsed p \<Rightarrow> Some p | _ \<Rightarrow> None)"

text \<open>\<open>new URL(path, base)\<close> for a path-absolute \<open>path\<close>: the serialised
  scheme and authority of the base followed by the path. A missing base or one
  the parser refuses makes the constructor throw \<open>TypeError: Invalid URL\<close>
  (\<open>UrlFailure\<close>); a base whose host needs IDNA or is IPv6 is accepted by the
  constructor, but the model does not compute its serialisation
  (\<open>UrlUnmodelled\<close>).\<close>

definition url_resolve :: "bytes option \<Rightarrow> bytes \<Rightarrow> bytes url_result" where
  "url_resolve base path =
     (case base of
        None \<Rightarrow> UrlFailure
      | Some b \<Rightarrow> url_bind (url_base b) (\<lambda>org. UrlParsed (org @ path)))"

text \<open>The value of a parsed result, for reading a result the lemmas show parsed.\<close>

fun url_value :: "'a url_result \<Rightarrow> 'a" where
  "url_value (UrlParsed x) = x"


subsection \<open>Plain bases\<close>

text \<open>The bases the lemmas below are stated for: a lower-case special scheme
  other than \<open>file\<close>, and a host text of printable characters without a
  delimiter of the authority.\<close>

definition web_scheme :: "bytes \<Rightarrow> bool" where
  "web_scheme s = (s \<noteq> [] \<and> list_all scheme_char s \<and> scheme_start (hd s) \<and> map ascii_lower s = s \<and>
                   special_scheme s \<and> s \<noteq> ''file'')"

text \<open>A character that may stand in an authority without ending it or
  starting its userinfo: printable, and none of \<open># / ? @ [ \\<close>.\<close>

definition auth_char :: "char \<Rightarrow> bool" where
  "auth_char c = (let n = (of_char c :: nat) in 32 < n \<and> n \<notin> {35, 47, 63, 64, 91, 92})"

definition plain_host :: "bytes \<Rightarrow> bool" where
  "plain_host h = (h \<noteq> [] \<and> list_all (\<lambda>c. auth_char c \<and> c \<noteq> CHR '':'') h)"

subsection \<open>Reading IPv4 numbers\<close>

lemma radix_value_digits:
  "list_all is_digit s \<Longrightarrow> radix_value 10 n s = Some (foldl (\<lambda>n c. 10 * n + (of_char c - 48)) n s)"
  by (induction s arbitrary: n) (auto simp: is_digit_def radix_digit_def hex_value_def)

lemma digits_no_symbol: "list_all is_digit s \<Longrightarrow> \<not> is_digit c \<Longrightarrow> c \<notin> set s"
  by (auto simp: list_all_iff)

lemma nat_digits_no_symbol:
  "CHR ''.'' \<notin> set (nat_digits n)" "CHR ''x'' \<notin> set (nat_digits n)" "CHR ''X'' \<notin> set (nat_digits n)"
  by (rule digits_no_symbol [OF is_digit_nat_digits], simp add: is_digit_def)+

lemma ipv4_number_nat_digits: "ipv4_number (nat_digits n) = Some n"
proof -
  have x: "take 2 (nat_digits n) \<noteq> ''0x''" "take 2 (nat_digits n) \<noteq> ''0X''"
    using nat_digits_no_symbol(2,3) [of n] by (metis in_set_takeD list.set_intros(2,1))+
  have o: "2 \<le> length (nat_digits n) \<Longrightarrow> hd (nat_digits n) \<noteq> CHR ''0''"
    using hd_nat_digits [of n] by (cases "n = 0") (simp_all add: nat_digits.simps)
  show ?thesis
    using x o radix_value_digits [OF is_digit_nat_digits [of n], of 0]
    by (auto simp: ipv4_number_def digits_value_def [symmetric])
qed

lemma ipv4_parts_plain: "CHR ''.'' \<notin> set s \<Longrightarrow> ipv4_parts s = [s]"
  by (simp add: ipv4_parts_def split_on_no_delim)

lemma ipv4_parser_nat_digits:
  "ipv4_parser (nat_digits n) = (if n < 2 ^ 32 then Some (word_of_nat n) else None)"
  by (simp add: ipv4_parser_def ipv4_parts_plain nat_digits_no_symbol ipv4_number_nat_digits ipv4_value_def)

subsection \<open>Octets of an address\<close>

lemma unat_octet: "unat (drop_bit k (a :: ipv4_address) AND 255) = unat a div 2 ^ k mod 256"
proof -
  have m: "w AND 255 = take_bit 8 w" for w :: ipv4_address
    by (simp add: take_bit_eq_mask mask_eq_exp_minus_1)
  have "drop_bit k a AND 255 = drop_bit k a mod 256"
    unfolding m take_bit_eq_mod by simp
  then show ?thesis by (simp only: unat_mod unat_drop_bit_eq) (simp add: drop_bit_eq_div)
qed

lemma base256_step: "(n::nat) = n mod 256 + 256 * (n div 256)"
  by simp

lemma octets_sum:
  assumes "(n::nat) < 2 ^ 32"
  shows "n = n mod 256 + 256 * (n div 256 mod 256) + 65536 * (n div 65536 mod 256) +
             16777216 * (n div 16777216 mod 256)"
proof -
  have a: "n div 256 div 256 = n div 65536" and b: "n div 65536 div 256 = n div 16777216"
    by (simp_all add: div_mult2_eq [symmetric])
  have c: "n div 16777216 mod 256 = n div 16777216"
    using assms by (simp add: less_mult_imp_div_less)
  define x where "x = n div 256"
  define y where "y = n div 65536"
  define z where "z = n div 16777216"
  have h1: "n = n mod 256 + 256 * x" unfolding x_def by simp
  have h2: "x = x mod 256 + 256 * y" unfolding x_def y_def using a by (metis base256_step)
  have h3: "y = y mod 256 + 256 * z" unfolding y_def z_def using b by (metis base256_step)
  have "n = n mod 256 + 256 * (x mod 256) + 65536 * (y mod 256) + 16777216 * z"
    using h1 h2 h3 by linarith
  then show ?thesis using c by (simp add: x_def y_def z_def)
qed

lemma ipv4_octets_value:
  "ipv4_value (map (\<lambda>i. unat (drop_bit (8 * i) a AND 255)) [3, 2, 1, 0]) = unat (a :: ipv4_address)"
proof -
  have b: "unat a < 2 ^ 32" using unsigned_less [of a] by simp
  have "ipv4_value (map (\<lambda>i. unat (drop_bit (8 * i) a AND 255)) [3, 2, 1, 0]) =
        unat a mod 256 + 256 * (unat a div 256 mod 256) + 65536 * (unat a div 65536 mod 256) +
        16777216 * (unat a div 16777216 mod 256)"
    by (simp add: ipv4_value_def unat_octet)
  then show ?thesis using octets_sum [OF b] by linarith
qed

lemma mod256_le: "(n::nat) mod 256 \<le> 255"
  by simp

lemma ipv4_parser_serialize: "ipv4_parser (ipv4_serialize a) = Some a"
proof -
  define bs where "bs = map (\<lambda>i. unat (drop_bit (8 * i) a AND 255)) [3, 2, 1, 0 :: nat]"
  have ser: "ipv4_serialize a = join_with [CHR ''.''] (map nat_digits bs)"
    by (simp add: ipv4_serialize_def bs_def)
  have parts: "ipv4_parts (ipv4_serialize a) = map nat_digits bs"
    unfolding ser ipv4_parts_def
    by (subst split_on_join_with) (auto simp: bs_def nat_digits_no_symbol)
  have nums: "those (map ipv4_number (map nat_digits bs)) = Some bs"
    by (simp add: bs_def ipv4_number_nat_digits)
  have small: "list_all (\<lambda>n. n \<le> 255) (butlast bs) \<and> last bs < 256"
    by (simp add: bs_def unat_octet mod256_le)
  show ?thesis
    using parts nums small ipv4_octets_value [of a]
    by (simp add: ipv4_parser_def bs_def)
qed



subsection \<open>Bases with a plain host\<close>

lemma dropWhile_all_not: "\<forall>c\<in>set xs. \<not> P c \<Longrightarrow> dropWhile P xs = xs"
  by (cases xs) auto

lemma takeWhile_list_all: "(\<And>c. Q c \<Longrightarrow> P c) \<Longrightarrow> list_all Q xs \<Longrightarrow> takeWhile P xs = xs"
  by (induction xs) auto

lemma dropWhile_list_all: "(\<And>c. Q c \<Longrightarrow> P c) \<Longrightarrow> list_all Q xs \<Longrightarrow> dropWhile P xs = []"
  by (induction xs) auto

lemma auth_char_facts:
  "auth_char c \<Longrightarrow> c \<notin> set ''/?#'' \<and> \<not> (sp \<and> c = CHR 0x5C)"
  "auth_char c \<Longrightarrow> c \<noteq> CHR ''@''"
  "auth_char c \<Longrightarrow> \<not> c0_or_space c \<and> \<not> tab_or_newline c"
  "auth_char c \<Longrightarrow> \<not> url_slash c"
  "auth_char CHR '':''"
  "auth_char c \<Longrightarrow> c \<noteq> CHR ''[''"
  by (auto simp: auth_char_def c0_or_space_def tab_or_newline_def url_slash_def)

lemma digit_auth_char: "is_digit c \<Longrightarrow> auth_char c \<and> c \<noteq> CHR '':''"
  by (auto simp: is_digit_def auth_char_def)

lemma digits_auth: "list_all is_digit p \<Longrightarrow> list_all auth_char p"
  by (induction p) (simp_all add: digit_auth_char)

lemma port_text_auth:
  "list_all is_digit p \<Longrightarrow> pt = [] \<or> pt = CHR '':'' # p \<Longrightarrow> list_all auth_char pt"
  by (elim disjE) (simp_all add: digits_auth auth_char_facts(5))

lemma plain_host_auth:
  assumes "plain_host h"
  shows "h \<noteq> [] \<and> list_all auth_char h \<and> CHR '':'' \<notin> set h \<and> CHR ''['' \<notin> set h"
proof -
  have "h \<noteq> []" and a: "\<forall>c\<in>set h. auth_char c \<and> c \<noteq> CHR '':''"
    using assms by (simp_all add: plain_host_def list_all_iff)
  then show ?thesis using auth_char_facts(6) unfolding list_all_iff by metis
qed

lemma host_split_plain:
  "CHR '':'' \<notin> set h \<Longrightarrow> CHR ''['' \<notin> set h \<Longrightarrow>
   host_split False (h @ rest) = (h @ fst (host_split False rest), snd (host_split False rest))"
  by (induction h) (auto split: prod.splits)

lemma authority_plain:
  assumes h: "plain_host h" and sp: "special_scheme s" and p: "list_all is_digit p"
    and pt: "pt = [] \<and> p = [] \<or> pt = CHR '':'' # p"
  shows "authority s (h @ pt) =
           url_bind (domain_host h) (\<lambda>d. url_bind (port_parser s p) (\<lambda>ps. UrlParsed (''//'' @ d @ ps)))"
proof -
  have hh: "h \<noteq> []" "list_all auth_char h" "CHR '':'' \<notin> set h" "CHR ''['' \<notin> set h"
    using plain_host_auth [OF h] by simp_all
  have pt': "pt = [] \<or> pt = CHR '':'' # p" using pt by blast
  have hs: "list_all auth_char (h @ pt)" using hh(2) port_text_auth [OF p pt'] by simp
  have "\<And>c. auth_char c \<Longrightarrow> c \<notin> set ''/?#'' \<and> \<not> (special_scheme s \<and> c = CHR 0x5C)"
    by (rule auth_char_facts(1))
  from takeWhile_list_all [OF this hs]
  have tw: "takeWhile (\<lambda>c. c \<notin> set ''/?#'' \<and> \<not> (special_scheme s \<and> c = CHR 0x5C)) (h @ pt) = h @ pt" .
  have hr: "list_all auth_char (rev (h @ pt))" using hs by simp
  have tw2: "takeWhile (\<lambda>c. c \<noteq> CHR ''@'') (rev (h @ pt)) = rev (h @ pt)"
    using takeWhile_list_all [of auth_char "\<lambda>c. c \<noteq> CHR ''@''", OF auth_char_facts(2) hr] .
  have hp: "rev (takeWhile (\<lambda>c. c \<noteq> CHR ''@'') (rev (h @ pt))) = h @ pt"
    by (simp only: tw2 rev_rev_ident)
  have ui: "dropWhile (\<lambda>c. c \<noteq> CHR ''@'') (rev (h @ pt)) = []"
    using dropWhile_list_all [of auth_char "\<lambda>c. c \<noteq> CHR ''@''", OF auth_char_facts(2) hr] .
  have at: "CHR ''@'' \<notin> set (h @ pt)" using hs auth_char_facts(2) unfolding list_all_iff by metis
  have hsp: "host_split False (h @ pt) = (h, if pt = [] then None else Some p)"
    using pt' host_split_plain [OF hh(3,4), of "[]"] by (elim disjE) (simp_all add: host_split_plain [OF hh(3,4)])
  have "hd h \<noteq> CHR ''[''" using hh(1,4) hd_in_set by metis
  then have hpar: "host_parser True h = domain_host h"
    using hh(1) by (simp add: host_parser_def)
  have port0: "port_parser s [] = UrlParsed []" by (simp add: port_parser_def)
  show ?thesis
    unfolding authority_def Let_def tw hp ui hsp
    using sp hh(1) at pt port0 hpar
    by (elim disjE) (simp_all add: pct_encode_def)
qed
lemma url_preprocess_id: "\<forall>c\<in>set b. 32 < (of_char c :: nat) \<Longrightarrow> url_preprocess b = b"
proof -
  assume a: "\<forall>c\<in>set b. 32 < (of_char c :: nat)"
  then have "\<forall>c\<in>set b. \<not> c0_or_space c" "\<forall>c\<in>set b. \<not> tab_or_newline c"
    by (auto simp: c0_or_space_def tab_or_newline_def)
  then show ?thesis
    by (simp add: url_preprocess_def dropWhile_all_not)
qed

lemma web_scheme_chars:
  assumes "web_scheme s"
  shows "s \<noteq> [] \<and> scheme_start (hd s) \<and> map ascii_lower s = s \<and> special_scheme s \<and> s \<noteq> ''file'' \<and>
         takeWhile scheme_char (s @ CHR '':'' # r) = s \<and> (\<forall>c\<in>set s. 32 < (of_char c :: nat))"
proof -
  have l: "list_all scheme_char s" using assms by (simp add: web_scheme_def)
  have "\<forall>c\<in>set s. scheme_char c" using l by (simp add: list_all_iff)
  moreover have "\<not> scheme_char CHR '':''" by (simp add: scheme_char_def)
  moreover have "scheme_char c \<Longrightarrow> 32 < (of_char c :: nat)" for c
    by (auto simp: scheme_char_def Let_def)
  ultimately show ?thesis using assms by (simp add: web_scheme_def takeWhile_append2)
qed

lemma url_base_plain:
  assumes s: "web_scheme s" and h: "plain_host h" and p: "list_all is_digit p"
    and pt: "pt = [] \<and> p = [] \<or> pt = CHR '':'' # p"
  shows "url_base (s @ ''://'' @ h @ pt) =
           url_bind (domain_host h) (\<lambda>d. url_bind (port_parser s p) (\<lambda>ps. UrlParsed (s @ ''://'' @ d @ ps)))"
proof -
  note sc = web_scheme_chars [OF s, of "''//'' @ h @ pt"]
  have pt': "pt = [] \<or> pt = CHR '':'' # p" using pt by blast
  have hs: "list_all auth_char (h @ pt)" and ne: "h \<noteq> []"
    using plain_host_auth [OF h] port_text_auth [OF p pt'] by simp_all
  have pr: "\<forall>c\<in>set (''://'' @ h @ pt). 32 < (of_char c :: nat)"
    using hs by (auto simp: list_all_iff auth_char_def Let_def)
  have pre: "url_preprocess (s @ ''://'' @ h @ pt) = s @ ''://'' @ h @ pt"
    using sc pr by (intro url_preprocess_id) (simp add: ball_Un)
  have tw: "takeWhile scheme_char (s @ ''://'' @ h @ pt) = s" using sc by simp
  have "\<not> url_slash (hd h)" using hs ne auth_char_facts(4) by (cases h) simp_all
  then have dw: "dropWhile url_slash (''//'' @ h @ pt) = h @ pt"
    using ne by (cases h) (simp_all add: url_slash_def)
  have "url_base (s @ ''://'' @ h @ pt) = url_bind (authority s (h @ pt)) (\<lambda>a. UrlParsed (s @ '':'' @ a))"
    using pre tw dw sc by (simp add: url_base_def Let_def)
  also have "\<dots> = url_bind (domain_host h) (\<lambda>d. url_bind (port_parser s p) (\<lambda>ps. UrlParsed (s @ ''://'' @ d @ ps)))"
    using sc by (simp add: authority_plain [OF h _ p pt] url_bind_def split: url_result.splits)
  finally show ?thesis .
qed

lemma port_parser_nat_digits:
  "port_parser s (nat_digits p) =
     (if 65535 < p then UrlFailure else if default_port s = Some p then UrlParsed []
      else UrlParsed (CHR '':'' # nat_digits p))"
  by (simp add: port_parser_def is_digit_nat_digits)

lemma pct_decode_plain: "CHR ''%'' \<notin> set s \<Longrightarrow> pct_decode s = s"
  by (induction s) auto

lemma digit_host_chars:
  "is_digit c \<Longrightarrow> \<not> forbidden_domain c \<and> ascii_lower c = c \<and> \<not> 127 < (of_char c :: nat) \<and>
     c \<noteq> CHR ''%''"
  by (auto simp: is_digit_def forbidden_domain_def forbidden_host_def ascii_lower_def)

lemma plain_host_nat_digits: "plain_host (nat_digits n)"
proof -
  have "list_all (\<lambda>c. auth_char c \<and> c \<noteq> CHR '':'') (nat_digits n)"
    using is_digit_nat_digits [of n] digit_auth_char by (simp add: list_all_iff)
  then show ?thesis by (simp add: plain_host_def)
qed

lemma domain_host_nat_digits:
  "domain_host (nat_digits n) =
     (if n < 2 ^ 32 then UrlParsed (ipv4_serialize (word_of_nat n)) else UrlFailure)"
proof -
  let ?ds = "nat_digits n"
  have d: "\<forall>c\<in>set ?ds. is_digit c" using is_digit_nat_digits [of n] by (simp add: list_all_iff)
  have hc: "\<forall>c\<in>set ?ds. \<not> forbidden_domain c \<and> ascii_lower c = c \<and> \<not> 127 < (of_char c :: nat) \<and>
     c \<noteq> CHR ''%''"
    using d digit_host_chars by simp
  have "CHR ''%'' \<notin> set ?ds" using hc by metis
  then have dec: "pct_decode ?ds = ?ds" by (rule pct_decode_plain)
  have low: "map ascii_lower ?ds = ?ds" using hc by (simp add: map_idI)
  have fb: "\<not> list_ex forbidden_domain ?ds" "\<not> list_ex (\<lambda>c. 127 < (of_char c :: nat)) ?ds"
    using hc by (simp_all add: list_ex_iff)
  have sp: "split_on CHR ''.'' ?ds = [?ds]" by (simp add: split_on_no_delim nat_digits_no_symbol)
  have xn: "take 4 ?ds \<noteq> ''xn--''"
    using nat_digits_no_symbol(2) [of n] by (metis in_set_takeD list.set_intros(1,2))
  have num: "ends_in_a_number ?ds"
    by (simp add: ends_in_a_number_def ipv4_parts_plain nat_digits_no_symbol is_digit_nat_digits)
  show ?thesis
    using dec low fb sp xn num by (simp add: domain_host_def ipv4_parser_nat_digits)
qed

lemma url_bind_Parsed [simp]:
  "url_bind r f = UrlParsed x \<longleftrightarrow> (\<exists>y. r = UrlParsed y \<and> f y = UrlParsed x)"
  by (cases r) (simp_all add: url_bind_def)

lemma url_bind_simps [simp]:
  "url_bind UrlFailure f = UrlFailure" "url_bind UrlUnmodelled f = UrlUnmodelled"
  "url_bind (UrlParsed x) f = f x"
  by (simp_all add: url_bind_def)

lemma url_resolve_origin:
  "url_origin b = Some org \<Longrightarrow> url_resolve (Some b) p = UrlParsed (org @ p)"
  by (simp add: url_resolve_def url_origin_def url_bind_def split: url_result.splits)

lemma url_resolve_failure:
  "(case base of None \<Rightarrow> True | Some b \<Rightarrow> url_base b = UrlFailure) \<Longrightarrow> url_resolve base p = UrlFailure"
  by (cases base) (simp_all add: url_resolve_def url_bind_def)

subsection \<open>No fragment delimiter in a serialised base\<close>

lemma pct_byte_no_hash: "CHR ''#'' \<notin> set (pct_byte c)"
  using hex_upper_not_delim [OF of_char_hex_parts(1) [of c]] hex_upper_not_delim [OF of_char_hex_parts(2) [of c]]
  by (auto simp: pct_byte_def)

lemma pct_encode_no_hash:
  "(CHR ''#'' \<in> set s \<Longrightarrow> enc CHR ''#'') \<Longrightarrow> CHR ''#'' \<notin> set (pct_encode enc s)"
  by (auto simp: pct_encode_def pct_byte_no_hash split: if_splits)

lemma nat_digits_no_hash: "CHR ''#'' \<notin> set (nat_digits n)"
  using set_nat_digits [of n] num_alphabet_excludes(3) by blast

lemma ipv4_serialize_no_hash: "CHR ''#'' \<notin> set (ipv4_serialize a)"
proof -
  let ?xs = "map (\<lambda>i. nat_digits (unat (drop_bit (8 * i) a AND 255))) [3, 2, 1, 0 :: nat]"
  have "set (join_with ''.'' ?xs) \<subseteq> set ''.'' \<union> \<Union> (set ` set ?xs)"
    by (rule set_join_with_subset)
  then show ?thesis using nat_digits_no_hash by (fastforce simp: ipv4_serialize_def)
qed

lemma ascii_lower_hash: "ascii_lower c = CHR ''#'' \<longleftrightarrow> c = CHR ''#''"
proof -
  have "char_of (n + 32) \<noteq> CHR ''#''" if "65 \<le> n" "n \<le> (90::nat)" for n
  proof
    assume "char_of (n + 32) = CHR ''#''"
    then have "(of_char (char_of (n + 32)) :: nat) = 35" by simp
    with that show False by (simp add: of_char_of)
  qed
  then show ?thesis by (auto simp: ascii_lower_def Let_def)
qed


lemma forbidden_domain_hash: "forbidden_domain CHR ''#''"
  by (simp add: forbidden_domain_def forbidden_host_def)

lemma domain_host_cases:
  "domain_host s = UrlParsed h \<Longrightarrow>
     (\<exists>w. h = ipv4_serialize w) \<or> (h = map ascii_lower (pct_decode s) \<and> \<not> list_ex forbidden_domain (pct_decode s))"
  unfolding domain_host_def Let_def by (auto split: if_splits option.splits)

lemma lower_no_hash: "\<not> list_ex forbidden_domain d \<Longrightarrow> CHR ''#'' \<notin> set (map ascii_lower d)"
proof
  assume n: "\<not> list_ex forbidden_domain d" and "CHR ''#'' \<in> set (map ascii_lower d)"
  then obtain c where "c \<in> set d" "ascii_lower c = CHR ''#''" by auto
  then have "c \<in> set d" "forbidden_domain c" using ascii_lower_hash forbidden_domain_hash by simp_all
  with n show False by (auto simp: list_ex_iff)
qed

lemma domain_host_no_hash: "domain_host s = UrlParsed h \<Longrightarrow> CHR ''#'' \<notin> set h"
  using domain_host_cases [of s h] ipv4_serialize_no_hash lower_no_hash by metis

lemma forbidden_host_hash: "forbidden_host CHR ''#''"
  by (simp add: forbidden_host_def)

lemma opaque_host_no_hash: "opaque_host s = UrlParsed h \<Longrightarrow> CHR ''#'' \<notin> set h"
proof -
  assume a: "opaque_host s = UrlParsed h"
  then have n: "\<not> list_ex forbidden_host s" and h: "h = pct_encode c0_control_set s"
    by (simp_all add: opaque_host_def split: if_splits)
  have "CHR ''#'' \<notin> set s" using n forbidden_host_hash by (auto simp: list_ex_iff)
  then show ?thesis unfolding h by (intro pct_encode_no_hash) simp
qed

lemma host_parser_no_hash: "host_parser sp s = UrlParsed h \<Longrightarrow> CHR ''#'' \<notin> set h"
  unfolding host_parser_def using domain_host_no_hash opaque_host_no_hash
  by (simp split: if_splits)

lemma port_parser_no_hash: "port_parser sc p = UrlParsed ps \<Longrightarrow> CHR ''#'' \<notin> set ps"
  using nat_digits_no_hash by (simp add: port_parser_def Let_def split: if_splits) auto

lemma userinfo_no_hash [simp]: "CHR ''#'' \<notin> set (pct_encode userinfo_set x)"
  by (rule pct_encode_no_hash) (simp add: userinfo_set_def)

lemma authority_no_hash: "authority sc t = UrlParsed a \<Longrightarrow> CHR ''#'' \<notin> set a"
  unfolding authority_def Let_def
  by (auto dest: host_parser_no_hash port_parser_no_hash split: if_splits)

lemma scheme_start_not_hash: "scheme_start c \<Longrightarrow> c \<noteq> CHR ''#''"
  by (auto simp: scheme_start_def)

lemma drive_letter_hd: "drive_letter s \<Longrightarrow> CHR ''#'' \<noteq> hd s"
  using scheme_start_not_hash by (cases s) (auto simp: drive_letter_def)

lemma drive_prefix_no_hash: "CHR ''#'' \<notin> set (drive_prefix p)"
  using drive_letter_hd by (simp add: drive_prefix_def Let_def)

lemma file_base_no_hash: "file_base r = UrlParsed a \<Longrightarrow> CHR ''#'' \<notin> set a"
  unfolding file_base_def Let_def
  using drive_letter_hd drive_prefix_no_hash
  by (auto dest: host_parser_no_hash split: if_splits)

lemma scheme_lower_no_hash: "CHR ''#'' \<notin> set (map ascii_lower (takeWhile scheme_char b))"
proof
  assume "CHR ''#'' \<in> set (map ascii_lower (takeWhile scheme_char b))"
  then obtain c where "c \<in> set (takeWhile scheme_char b)" "ascii_lower c = CHR ''#''" by auto
  then have "scheme_char CHR ''#''" using ascii_lower_hash by (metis set_takeWhileD)
  then show False by (simp add: scheme_char_def)
qed

lemma url_origin_no_hash: "url_origin b = Some org \<Longrightarrow> CHR ''#'' \<notin> set org"
  unfolding url_origin_def url_base_def Let_def
  using scheme_lower_no_hash [of "url_preprocess b"]
  by (auto dest: file_base_no_hash authority_no_hash split: url_result.splits if_splits)

lemma url_base_no_hash: "url_base b = UrlParsed org \<Longrightarrow> CHR ''#'' \<notin> set org"
  using url_origin_no_hash [of b org] by (simp add: url_origin_def)

lemmas url_eval = url_origin_def url_base_def url_preprocess_def c0_or_space_def tab_or_newline_def
  scheme_char_def scheme_start_def ascii_lower_def special_scheme_def default_port_def authority_def
  url_bind_def host_parser_def domain_host_def forbidden_domain_def forbidden_host_def
  ends_in_a_number_def ipv4_parts_def ipv4_number_def radix_digit_def hex_value_def port_parser_def
  userinfo_set_def c0_control_set_def pct_encode_def is_digit_def url_slash_def path_stop_def
  web_scheme_def plain_host_def auth_char_def

text \<open>The client's default base and a base without a scheme.\<close>

lemma url_origin_map_ir: "url_origin ''https://map.ir'' = Some ''https://map.ir''"
  by (simp add: url_eval)

lemma url_base_no_scheme: "url_base ''map.ir'' = UrlFailure"
  by (simp add: url_eval)

lemma url_origin_no_scheme: "url_origin ''map.ir'' = None"
  by (simp add: url_origin_def url_base_no_scheme)

lemma url_origin_userinfo: "url_origin ''https://user:pw@map.ir'' = Some ''https://user:pw@map.ir''"
  by (simp add: url_eval)

lemmas url_known = url_origin_map_ir url_base_no_scheme url_origin_no_scheme url_origin_userinfo

subsection \<open>Ports and IPv4 hosts\<close>

lemma url_port_bound:
  assumes "web_scheme s" and "plain_host h" and "domain_host h = UrlParsed d"
  shows "url_origin (s @ ''://'' @ h @ CHR '':'' # nat_digits p) =
           (if p < 65536
            then Some (s @ ''://'' @ d @ (if default_port s = Some p then [] else CHR '':'' # nat_digits p))
            else None)"
  using url_base_plain [OF assms(1,2) is_digit_nat_digits [of p], of "CHR '':'' # nat_digits p"] assms(3)
  by (simp add: url_origin_def url_bind_def port_parser_nat_digits)

lemma web_scheme_http: "web_scheme ''http''"
  by (simp add: web_scheme_def scheme_char_def scheme_start_def ascii_lower_def special_scheme_def
      default_port_def)

lemma url_ipv4_bound:
  "url_origin (''http://'' @ nat_digits n) =
     (if n < 2 ^ 32 then Some (''http://'' @ ipv4_serialize (word_of_nat n)) else None)"
proof -
  note web_scheme_http
  then show ?thesis
    using url_base_plain [of "''http''" "nat_digits n" "[]" "[]"] plain_host_nat_digits [of n]
    by (simp add: url_origin_def url_bind_def domain_host_nat_digits port_parser_def)
qed


lemma ipv4_serialize_split:
  "split_on CHR ''.'' (ipv4_serialize a) = map nat_digits (map (\<lambda>i. unat (drop_bit (8 * i) a AND 255)) [3, 2, 1, 0])"
  unfolding ipv4_serialize_def
  by (subst split_on_join_with) (auto simp: nat_digits_no_symbol)

lemma ipv4_serialize_chars: "list_all (\<lambda>c. is_digit c \<or> c = CHR ''.'') (ipv4_serialize a)"
proof -
  let ?xs = "map (\<lambda>i. nat_digits (unat (drop_bit (8 * i) a AND 255))) [3, 2, 1, 0 :: nat]"
  have "set (join_with ''.'' ?xs) \<subseteq> set ''.'' \<union> \<Union> (set ` set ?xs)"
    by (rule set_join_with_subset)
  moreover have "\<forall>c\<in>set (nat_digits k). is_digit c" for k
    using is_digit_nat_digits [of k] by (simp add: list_all_iff)
  ultimately show ?thesis unfolding list_all_iff ipv4_serialize_def by fastforce
qed

lemma ipv4_char_facts:
  "is_digit c \<or> c = CHR ''.'' \<Longrightarrow> auth_char c \<and> c \<noteq> CHR '':'' \<and> \<not> forbidden_domain c \<and>
     ascii_lower c = c \<and> \<not> 127 < (of_char c :: nat) \<and> c \<noteq> CHR ''%''"
  by (auto simp: is_digit_def auth_char_def forbidden_domain_def forbidden_host_def ascii_lower_def)

lemma domain_host_ipv4: "domain_host (ipv4_serialize a) = UrlParsed (ipv4_serialize a)"
proof -
  let ?s = "ipv4_serialize a"
  have hc: "\<forall>c\<in>set ?s. \<not> forbidden_domain c \<and> ascii_lower c = c \<and> \<not> 127 < (of_char c :: nat) \<and>
     c \<noteq> CHR ''%''"
    using ipv4_serialize_chars [of a] ipv4_char_facts by (simp add: list_all_iff)
  have "CHR ''%'' \<notin> set ?s" using hc by metis
  then have dec: "pct_decode ?s = ?s" by (rule pct_decode_plain)
  have low: "map ascii_lower ?s = ?s" using hc by (simp add: map_idI)
  have fb: "\<not> list_ex forbidden_domain ?s" "\<not> list_ex (\<lambda>c. 127 < (of_char c :: nat)) ?s"
    using hc by (simp_all add: list_ex_iff)
  have ne: "?s \<noteq> []" by (simp add: ipv4_serialize_def)
  have xn: "\<not> list_ex (\<lambda>l. take 4 l = ''xn--'') (split_on CHR ''.'' ?s)"
  proof -
    have "take 4 (nat_digits k) \<noteq> ''xn--''" for k
      using nat_digits_no_symbol(2) [of k] by (metis in_set_takeD list.set_intros(1,2))
    then show ?thesis by (simp add: ipv4_serialize_split)
  qed
  have num: "ends_in_a_number ?s"
    by (simp add: ends_in_a_number_def ipv4_parts_def Let_def ipv4_serialize_split is_digit_nat_digits)
  show ?thesis
    using dec low fb ne xn num by (simp add: domain_host_def ipv4_parser_serialize)
qed

lemma plain_host_ipv4: "plain_host (ipv4_serialize a)"
  using ipv4_serialize_chars [of a] ipv4_char_facts
  by (simp add: plain_host_def list_all_iff ipv4_serialize_def)

lemma url_origin_ipv4: "url_origin (''http://'' @ ipv4_serialize a) = Some (''http://'' @ ipv4_serialize a)"
  using url_base_plain [OF web_scheme_http plain_host_ipv4 [of a], of "[]" "[]"]
  by (simp add: url_origin_def url_bind_def domain_host_ipv4 port_parser_def)

subsection \<open>The shape of a serialised base\<close>

lemma of_char_colon: "(of_char CHR '':'' :: nat) < 65"
  by simp

lemma ascii_lower_low: "(of_char d :: nat) < 65 \<Longrightarrow> ascii_lower c = d \<longleftrightarrow> c = d"
proof -
  assume d: "(of_char d :: nat) < 65"
  have "char_of (n + 32) \<noteq> d" if "65 \<le> n" "n \<le> (90::nat)" for n
  proof
    assume "char_of (n + 32) = d"
    then have "(of_char (char_of (n + 32)) :: nat) = of_char d" by simp
    with that d show False by (simp add: of_char_of)
  qed
  then show ?thesis using d by (auto simp: ascii_lower_def Let_def)
qed

lemma authority_shape: "authority sc t = UrlParsed a \<Longrightarrow> take 2 a = ''//''"
  unfolding authority_def Let_def by (auto split: if_splits)

lemma file_base_shape: "file_base r = UrlParsed a \<Longrightarrow> take 2 a = ''//''"
  unfolding file_base_def Let_def by (auto split: if_splits)

lemma url_origin_shape:
  assumes "url_origin b = Some org"
  shows "\<exists>sc a. org = sc @ CHR '':'' # a \<and> CHR '':'' \<notin> set sc \<and> (a = [] \<or> take 2 a = ''//'')"
proof -
  let ?raw = "takeWhile scheme_char (url_preprocess b)"
  have "CHR '':'' \<notin> set (map ascii_lower ?raw)"
  proof
    assume "CHR '':'' \<in> set (map ascii_lower ?raw)"
    then obtain c where "c \<in> set ?raw" "ascii_lower c = CHR '':''" by auto
    then have "scheme_char CHR '':''" using ascii_lower_low [of "CHR '':''" c] by (metis set_takeWhileD of_char_colon)
    then show False by (simp add: scheme_char_def)
  qed
  moreover obtain a where "org = map ascii_lower ?raw @ CHR '':'' # a" "a = [] \<or> take 2 a = ''//''"
    using assms unfolding url_origin_def url_base_def Let_def
    by (auto dest: authority_shape file_base_shape split: url_result.splits if_splits)
  ultimately show ?thesis by blast
qed

end
