(* ===== verification/Http.thy ===== *)
theory Http
  imports JsValue Url
begin

text \<open>
  The one network primitive the client calls, \<open>fetch(url, init)\<close>, and how each
  operation consumes its response. A request is the method, the URL, the header
  list and the optional body the code passes in \<open>init\<close>. The network is a
  parameter of type \<open>network\<close>: any function from requests to a transport
  failure or an HTTP response, so every lemma holds whatever the server does.
  Before anything is sent, \<open>fetch\<close> builds a \<open>Request\<close> (Fetch standard,
  \<open>new Request(input, init)\<close>): the header record of \<open>init\<close> is converted to
  byte strings, which fails on a code point above U+00FF; a URL with credentials
  is refused; each header value is normalised (leading and trailing HTTP
  whitespace removed) and refused if it then contains NUL, LF or CR, and each
  name must be a token. Each failure is a \<open>TypeError\<close> that rejects the
  promise \<open>fetch\<close> returns, and the network is never reached.
  \<open>fetch\<close> rejects with a \<open>TypeError\<close> on a transport failure and resolves on
  every HTTP status; \<open>res.json()\<close> rejects with a \<open>SyntaxError\<close> when the body
  is not JSON (the JSON parser is a parameter as well); \<open>res.blob()\<close> resolves
  with the body bytes. The \<open>as T | undefined\<close> casts of the source are type
  assertions with no run-time effect.

  The outcome of calling an operation is one of: it throws synchronously
  (\<open>Thrown\<close>), it catches an exception, logs it and returns \<open>undefined\<close>
  (\<open>Caught\<close>, only \<open>route\<close> does this), or it returns a promise that rejects
  (\<open>Rejected\<close>) or resolves (\<open>Resolved\<close>). A call on a base URL whose
  serialisation the URL model does not compute (\<open>UrlUnmodelled\<close>: IDNA and
  IPv6 hosts) has the outcome \<open>Unmodelled\<close>: the model claims nothing about it.
\<close>

datatype http_method = GET | POST

record request =
  req_method :: http_method
  req_url :: bytes
  req_headers :: "(bytes \<times> bytes) list"
  req_body :: "bytes option"

record response =
  status :: nat
  resp_body :: bytes

datatype net_result = NetworkFailure | Response response

type_synonym network = "request \<Rightarrow> net_result"

datatype 'a outcome = Thrown js_error | Caught js_error | Rejected js_error | Resolved 'a | Unmodelled

subsection \<open>The Request constructor\<close>

text \<open>ByteString conversion of the UTF-8 bytes of a string: code points up to
  U+007F are one byte, U+0080 to U+00FF are the two-byte forms led by 0xC2 or
  0xC3 and become the byte of their code point; any longer form is a code point
  above U+00FF and fails.\<close>

fun byte_string :: "bytes \<Rightarrow> bytes option" where
  "byte_string [] = Some []"
| "byte_string (c # cs) =
     (if (of_char c :: nat) < 128 then map_option (Cons c) (byte_string cs)
      else if (of_char c :: nat) \<in> {194, 195} then
        (case cs of
           [] \<Rightarrow> None
         | d # ds \<Rightarrow> map_option (Cons (char_of (((of_char c :: nat) - 192) * 64 + ((of_char d :: nat) - 128))))
                       (byte_string ds))
      else None)"

definition http_whitespace :: "char \<Rightarrow> bool" where
  "http_whitespace c = ((of_char c :: nat) \<in> {9, 10, 13, 32})"

definition header_normalize :: "bytes \<Rightarrow> bytes" where
  "header_normalize v = rev (dropWhile http_whitespace (rev (dropWhile http_whitespace v)))"

definition header_value_ok :: "bytes \<Rightarrow> bool" where
  "header_value_ok v = list_all (\<lambda>c. (of_char c :: nat) \<notin> {0, 10, 13}) v"

text \<open>A token character: visible ASCII other than the separators
  \<open>" ( ) , / : ; < = > ? @ [ \ ] { }\<close>.\<close>

definition token_char :: "char \<Rightarrow> bool" where
  "token_char c =
     (let n = (of_char c :: nat) in
      33 \<le> n \<and> n \<le> 126 \<and> n \<notin> {34, 40, 41, 44, 47, 58, 59, 60, 61, 62, 63, 64, 91, 92, 93, 123, 125})"

definition header_fill :: "bytes \<times> bytes \<Rightarrow> (bytes \<times> bytes) option" where
  "header_fill nv =
     (let v = header_normalize (snd nv) in
      if fst nv \<noteq> [] \<and> list_all token_char (fst nv) \<and> header_value_ok v then Some (fst nv, v) else None)"

definition header_bytes :: "bytes \<times> bytes \<Rightarrow> (bytes \<times> bytes) option" where
  "header_bytes nv =
     (case (byte_string (fst nv), byte_string (snd nv)) of
        (Some n, Some v) \<Rightarrow> Some (n, v)
      | _ \<Rightarrow> None)"

text \<open>Whether a serialised URL has credentials: its authority, between
  \<open>scheme://\<close> and the first \<open>/\<close>, \<open>?\<close> or \<open>#\<close>, contains \<open>@\<close>.\<close>

definition url_credentials :: "bytes \<Rightarrow> bool" where
  "url_credentials u =
     (let r = dropWhile (\<lambda>c. c \<noteq> CHR '':'') u in
      take 3 r = ''://'' \<and> CHR ''@'' \<in> set (takeWhile (\<lambda>c. c \<notin> set ''/?#'') (drop 3 r)))"

definition request_new :: "request \<Rightarrow> js_error + request" where
  "request_new req =
     (case those (map header_bytes (req_headers req)) of
        None \<Rightarrow> Inl (TypeError ''Cannot convert argument to a ByteString'')
      | Some hs \<Rightarrow>
          if url_credentials (req_url req)
          then Inl (TypeError ''Request cannot be constructed from a URL that includes credentials'')
          else
            (case those (map header_fill hs) of
               None \<Rightarrow> Inl (TypeError ''Invalid header value'')
             | Some hs' \<Rightarrow> Inr (req\<lparr>req_headers := hs'\<rparr>)))"

text \<open>The message of the \<open>TypeError\<close> for an API key that fails the checks.\<close>

definition key_error :: "bytes \<Rightarrow> bytes" where
  "key_error k = (case byte_string k of None \<Rightarrow> ''Cannot convert argument to a ByteString''
                  | Some kb \<Rightarrow> ''Invalid header value'')"

subsection \<open>fetch and the body readers\<close>

definition fetch_json :: "network \<Rightarrow> (bytes \<Rightarrow> 'j option) \<Rightarrow> request \<Rightarrow> 'j outcome" where
  "fetch_json net parse req =
     (case request_new req of
        Inl e \<Rightarrow> Rejected e
      | Inr rq \<Rightarrow>
          (case net rq of
             NetworkFailure \<Rightarrow> Rejected (TypeError ''Failed to fetch'')
           | Response r \<Rightarrow>
               (case parse (resp_body r) of
                  None \<Rightarrow> Rejected (SyntaxError ''Unexpected token in JSON'')
                | Some j \<Rightarrow> Resolved j)))"

definition fetch_blob :: "network \<Rightarrow> request \<Rightarrow> bytes outcome" where
  "fetch_blob net req =
     (case request_new req of
        Inl e \<Rightarrow> Rejected e
      | Inr rq \<Rightarrow>
          (case net rq of
             NetworkFailure \<Rightarrow> Rejected (TypeError ''Failed to fetch'')
           | Response r \<Rightarrow> Resolved (resp_body r)))"

text \<open>A request whose URL \<open>new URL\<close> refuses throws its \<open>TypeError\<close>
  synchronously; a built one is sent.\<close>

definition send :: "(request \<Rightarrow> 'a outcome) \<Rightarrow> request url_result \<Rightarrow> 'a outcome" where
  "send run r = (case r of UrlFailure \<Rightarrow> Thrown (TypeError ''Invalid URL'') | UrlUnmodelled \<Rightarrow> Unmodelled
                 | UrlParsed req \<Rightarrow> run req)"

subsection \<open>Lemmas\<close>

text \<open>A path-absolute reference appended to a serialised base ends the
  authority, so the resolved URL has credentials exactly when the base has.\<close>

lemma url_credentials_path:
  assumes o: "url_origin b = Some org" and p: "p = CHR ''/'' # q" and q: "take 1 q \<noteq> ''/''"
  shows "url_credentials (org @ p) = url_credentials org"
proof -
  obtain sc a where org: "org = sc @ CHR '':'' # a" and sc: "CHR '':'' \<notin> set sc"
    and a: "a = [] \<or> take 2 a = ''//''"
    using url_origin_shape [OF o] by blast
  have dw: "dropWhile (\<lambda>c. c \<noteq> CHR '':'') (sc @ CHR '':'' # x) = CHR '':'' # x" for x
    using sc by (induction sc) auto
  show ?thesis
  proof (cases "a = []")
    case True
    then show ?thesis using q by (cases q) (simp_all add: url_credentials_def Let_def org p dw)
  next
    case False
    with a obtain a' where a': "a = ''//'' @ a'"
      by (metis append_take_drop_id)
    let ?P = "\<lambda>c. c \<notin> set ''/?#''"
    have "takeWhile ?P (a' @ p) = takeWhile ?P a'"
    proof (cases "\<forall>x\<in>set a'. ?P x")
      case True
      then have "takeWhile ?P a' = a'" by (simp only: takeWhile_eq_all_conv)
      with True show ?thesis using p by (simp only: takeWhile_append if_True) simp
    next
      case False
      then show ?thesis by (simp only: takeWhile_append if_False)
    qed
    then show ?thesis by (simp add: url_credentials_def Let_def org a' dw)
  qed
qed

lemma byte_string_ascii: "list_all (\<lambda>c. (of_char c :: nat) < 128) s \<Longrightarrow> byte_string s = Some s"
  by (induction s) simp_all

lemma request_new_client:
  assumes k: "byte_string key = Some kb" "header_value_ok (header_normalize kb)" and u: "\<not> url_credentials u"
    and rest: "rest = [] \<or> rest = [(''content-type'', ''application/json'')]"
  shows "request_new \<lparr>req_method = mth, req_url = u, req_headers = (''x-api-key'', key) # rest, req_body = bd\<rparr> =
           Inr \<lparr>req_method = mth, req_url = u, req_headers = (''x-api-key'', header_normalize kb) # rest,
                req_body = bd\<rparr>"
proof -
  have n: "header_fill (''x-api-key'', kb) = Some (''x-api-key'', header_normalize kb)"
    using k(2) by (simp add: header_fill_def token_char_def)
  have c: "header_bytes (''content-type'', ''application/json'') = Some (''content-type'', ''application/json'')"
          "header_fill (''content-type'', ''application/json'') = Some (''content-type'', ''application/json'')"
    by (simp_all add: header_bytes_def header_fill_def token_char_def header_normalize_def
        http_whitespace_def header_value_ok_def)
  have x: "header_bytes (''x-api-key'', key) = Some (''x-api-key'', kb)"
    using k(1) by (simp add: header_bytes_def)
  show ?thesis using rest n c x u by (elim disjE) (simp_all add: request_new_def)
qed

end
