(* ===== verification/Route.thy ===== *)
theory Route
  imports Mapir Utils Url Http Decimal
begin

text \<open>
  \<open>route\<close> of src/src/route.ts, a method of the client (\<open>this: Mapir\<close>). It
  maps the route type to a path segment, joins the points as \<open>lng,lat\<close> pairs
  with \<open>;\<close>, merges the caller's options over the defaults with
  \<open>Object.assign\<close>, stringifies every option value, builds the query with
  \<open>qs\<close> and the URL with \<open>new URL\<close>, and sends a GET. Unlike the other
  operations its body is wrapped in \<open>try/catch\<close>: a synchronous error (here:
  \<open>new URL\<close> rejecting the base URL) is logged and \<open>undefined\<close> is returned.
  The promise returned by \<open>fetch\<close> is returned, not awaited, so its rejections
  are not caught.
\<close>

datatype RouteType = car | walking | bicycle

text \<open>The lookup \<open>{car: "route", walking: "walking", bicycle: "bicycle"}[type]\<close>.\<close>

fun route_segment :: "RouteType \<Rightarrow> bytes" where
  "route_segment car = ''route''"
| "route_segment walking = ''walking''"
| "route_segment bicycle = ''bicycle''"

definition route_defaults :: jsobj where
  "route_defaults = [(''alternatives'', JBool True), (''steps'', JBool True), (''overview'', JBool False)]"

definition locations_string :: "lnglat list \<Rightarrow> bytes" where
  "locations_string locs =
     array_join '';'' (map (\<lambda>l. JString (array_join '','' [JNumber (lng l), JNumber (lat l)])) locs)"

definition route_query :: "jsobj \<Rightarrow> bytes" where
  "route_query options = qs (convertAllPropsToString (obj_assign route_defaults options))"

definition route_request :: "mapir \<Rightarrow> lnglat list \<Rightarrow> RouteType \<Rightarrow> jsobj \<Rightarrow> request url_result" where
  "route_request m locs t options =
     url_bind (url_resolve (baseURL m)
             (''/routes/'' @ route_segment t @ ''/v1/driving/'' @ locations_string locs @ ''?''
              @ route_query options))
       (\<lambda>u. UrlParsed \<lparr>req_method = GET, req_url = u,
                    req_headers = [(''x-api-key'', apiKey m), (''content-type'', ''application/json'')],
                    req_body = None\<rparr>)"

definition route :: "mapir \<Rightarrow> network \<Rightarrow> (bytes \<Rightarrow> 'j option) \<Rightarrow> lnglat list \<Rightarrow> RouteType \<Rightarrow> jsobj
                     \<Rightarrow> 'j outcome" where
  "route m net parse locs t options =
     (case route_request m locs t options of
        UrlFailure \<Rightarrow> Caught (TypeError ''Invalid URL'')
      | UrlUnmodelled \<Rightarrow> Unmodelled
      | UrlParsed req \<Rightarrow> fetch_json net parse req)"

subsection \<open>Properties\<close>

lemma map_of_obj_assign:
  "wf_obj t \<Longrightarrow> wf_obj s \<Longrightarrow> map_of (obj_assign t s) = map_of t ++ map_of s"
  using foldl_upd_distinct [of "obj_entries s" "map_of t"] wf_obj_entries [of s]
  by (simp add: obj_assign_def map_of_obj_set_all wf_obj_def map_of_obj_entries)

lemma wf_obj_assign: "wf_obj t \<Longrightarrow> wf_obj (obj_assign t s)"
  by (simp add: obj_assign_def wf_obj_set_all)

lemma map_of_map_snd:
  "map_of (map (\<lambda>p. (fst p, f (snd p))) xs) k = map_option f (map_of xs k)"
  by (induction xs) auto

lemma wf_route_defaults: "wf_obj route_defaults"
  by (simp add: wf_obj_def route_defaults_def)

lemma array_join_numbers:
  "array_join '','' [JNumber a, JNumber b] = num_to_string a @ '','' @ num_to_string b"
  by (simp add: array_join_def join_elem_def)

lemma locations_string_eq:
  "locations_string locs =
     join_with '';'' (map (\<lambda>l. num_to_string (lng l) @ '','' @ num_to_string (lat l)) locs)"
  by (simp add: locations_string_def array_join_def join_elem_def comp_def array_join_numbers)

lemma route_query_parse:
  assumes "wf_obj options"
  shows "form_parse (route_query options) =
           map (\<lambda>p. (fst p, js_string (snd p)))
             (filter (\<lambda>p. js_string (snd p) \<noteq> []) (obj_entries (obj_assign route_defaults options)))"
proof -
  let ?a = "obj_assign route_defaults options"
  let ?c = "map (\<lambda>p. (fst p, JString (js_string (snd p)))) (obj_entries ?a)"
  have wa: "wf_obj ?a" by (rule wf_obj_assign [OF wf_route_defaults])
  have c: "convertAllPropsToString ?a = ?c" by (rule convertAllPropsToString_eq [OF wa])
  have wc: "wf_obj ?c" using wf_obj_entries [OF wa] by (simp add: wf_obj_def comp_def)
  have ec: "obj_entries ?c = ?c"
    using obj_entries_map_snd [of "\<lambda>p. JString (js_string (snd p))" "obj_entries ?a"] by simp
  show ?thesis
    by (simp add: route_query_def c qs_eq [OF wc] ec form_parse_serialize filter_map comp_def)
qed


text \<open>C3: with a valid base URL, \<open>route\<close> sends a GET to the base's
  origin followed by \<open>/routes/{segment}/v1/driving/{lng,lat;...}?{query}\<close>, where the
  segment is \<open>route\<close> for cars and the type's own name otherwise, with the API key
  and the JSON content type as headers and no body.\<close>

theorem route_request_url:
  assumes "baseURL m = Some b" and "url_origin b = Some org"
  shows "route_request m locs t options =
           UrlParsed \<lparr>req_method = GET,
                req_url = org @ ''/routes/''
                          @ (case t of car \<Rightarrow> ''route'' | walking \<Rightarrow> ''walking'' | bicycle \<Rightarrow> ''bicycle'')
                          @ ''/v1/driving/''
                          @ join_with '';'' (map (\<lambda>l. num_to_string (lng l) @ '','' @ num_to_string (lat l)) locs)
                          @ ''?'' @ route_query options,
                req_headers = [(''x-api-key'', apiKey m), (''content-type'', ''application/json'')],
                req_body = None\<rparr>"
  using assms by (cases t) (simp_all add: route_request_def url_resolve_origin locations_string_eq)

text \<open>C7: \<open>route\<close> never throws, and it returns \<open>undefined\<close> from its
  \<open>catch\<close> block exactly when the client's base URL is missing or the URL
  parser refuses it: on a base the parser accepts nothing is caught, since
  \<open>fetch\<close>'s promise is returned and its rejections are not awaited.\<close>

theorem route_catches:
  "(\<forall>e. route m net parse locs t options \<noteq> Thrown e) \<and>
   ((\<exists>e. route m net parse locs t options = Caught e) \<longleftrightarrow>
      (case baseURL m of None \<Rightarrow> True | Some b \<Rightarrow> url_base b = UrlFailure))"
  by (auto simp: route_def route_request_def url_resolve_def fetch_json_def url_bind_def
           split: option.splits url_result.splits sum.splits net_result.splits)


subsection \<open>Witnesses\<close>


theorem route_request_url_witness:
  "route_request \<lparr>apiKey = ''k'', baseURL = Some ''https://map.ir''\<rparr>
     [\<lparr>lng = Dec 1 0, lat = Dec 2 0\<rparr>, \<lparr>lng = Dec 3 0, lat = Dec 4 0\<rparr>] walking [] =
   UrlParsed \<lparr>req_method = GET,
        req_url = ''https://map.ir/routes/walking/v1/driving/1,2;3,4?'' @ route_query [],
        req_headers = [(''x-api-key'', ''k''), (''content-type'', ''application/json'')],
        req_body = None\<rparr>"
  using route_request_url [of "\<lparr>apiKey = ''k'', baseURL = Some ''https://map.ir''\<rparr>"
      "''https://map.ir''" "''https://map.ir''"
      "[\<lparr>lng = Dec 1 0, lat = Dec 2 0\<rparr>, \<lparr>lng = Dec 3 0, lat = Dec 4 0\<rparr>]" walking "[]"]
  by (simp add: url_known pos_to_string_def strip10.simps
      nat_digits.simps)

lemma locations_string_split:
  assumes "locs \<noteq> []"
  shows "map (split_on CHR '','') (split_on CHR '';'' (locations_string locs)) =
           map (\<lambda>l. [num_to_string (lng l), num_to_string (lat l)]) locs"
proof -
  let ?p = "\<lambda>l. num_to_string (lng l) @ '','' @ num_to_string (lat l)"
  have A: "split_on CHR '';'' (locations_string locs) = map ?p locs"
    using split_on_join_with [of "map ?p locs" "CHR '';''"] assms num_to_string_excludes
    by (simp add: locations_string_eq)
  have B: "split_on CHR '','' (?p l) = [num_to_string (lng l), num_to_string (lat l)]" for l
    using num_to_string_excludes by (simp add: split_on_append_delim split_on_no_delim)
  show ?thesis
    unfolding A map_map comp_def B by (rule refl)
qed

text \<open>C16: the waypoint string of a route request reads back exactly: split at
  \<open>;\<close> and then at \<open>,\<close>, and each piece read as a decimal number, it gives for
  every waypoint in order the value of its longitude and of its latitude (no
  number text contains \<open>,\<close> or \<open>;\<close>, and every finite number text reads
  back to its value).\<close>

theorem route_locations_parse:
  assumes "locs \<noteq> []" and "\<forall>l \<in> set locs. num_finite (lng l) \<and> num_finite (lat l)"
  shows "map (map parse_number \<circ> split_on CHR '','') (split_on CHR '';'' (locations_string locs)) =
           map (\<lambda>l. [Some (dec_norm (lng l)), Some (dec_norm (lat l))]) locs"
proof -
  have "map (map parse_number \<circ> split_on CHR '','') (split_on CHR '';'' (locations_string locs)) =
        map (\<lambda>l. [parse_number (num_to_string (lng l)), parse_number (num_to_string (lat l))]) locs"
    unfolding map_map [symmetric] locations_string_split [OF assms(1)] by simp
  also have "\<dots> = map (\<lambda>l. [Some (dec_norm (lng l)), Some (dec_norm (lat l))]) locs"
    using assms(2) by (simp add: parse_num_to_string)
  finally show ?thesis .
qed

theorem route_locations_parse_witness:
  "map (map parse_number \<circ> split_on CHR '','') (split_on CHR '';''
     (locations_string [\<lparr>lng = Dec 5130 (-2), lat = Dec (-357) (-1)\<rparr>])) =
   [[Some (Dec 513 (-1)), Some (Dec (-357) (-1))]]"
  using route_locations_parse [of "[\<lparr>lng = Dec 5130 (-2), lat = Dec (-357) (-1)\<rparr>]"]
  by (simp add: strip10.simps)

end
