(* ===== verification/Json.thy ===== *)
theory Json
  imports JsValue
begin

text \<open>
  \<open>JSON.stringify\<close> (ECMA-262, SerializeJSONProperty and QuoteJSONString), which
  \<open>search\<close> (src/src/index.ts) uses to build its request body. A platform
  function, modelled from the standard on the values of \<open>jsval\<close>: \<open>undefined\<close>
  is not serialisable (\<open>None\<close>; omitted as an object member, \<open>null\<close> as an array
  element), non-finite numbers print as \<open>null\<close>, object members follow the
  \<open>Object.entries\<close> order. Strings are escaped byte by byte: \<open>"\<close> and
  \<open>\\<close> get a backslash, the control characters \<open>\b \f \n \r \t\<close> their short
  escapes and the other bytes below 0x20 a \<open>\u00XX\<close> escape; lone surrogates
  do not occur in UTF-8 text.
\<close>

definition hex_lower :: "nat \<Rightarrow> char" where
  "hex_lower d = (if d < 10 then char_of (48 + d) else char_of (87 + d))"

definition json_escape :: "char \<Rightarrow> bytes" where
  "json_escape c =
     (if c = CHR 0x22 then [CHR 0x5C, CHR 0x22]
      else if c = CHR 0x5C then [CHR 0x5C, CHR 0x5C]
      else if c = CHR 0x08 then [CHR 0x5C, CHR ''b'']
      else if c = CHR 0x0C then [CHR 0x5C, CHR ''f'']
      else if c = CHR 0x0A then [CHR 0x5C, CHR ''n'']
      else if c = CHR 0x0D then [CHR 0x5C, CHR ''r'']
      else if c = CHR 0x09 then [CHR 0x5C, CHR ''t'']
      else if (of_char c :: nat) < 32
      then [CHR 0x5C, CHR ''u'', CHR ''0'', CHR ''0'',
            hex_lower (of_char c div 16), hex_lower (of_char c mod 16)]
      else [c])"

definition json_quote :: "bytes \<Rightarrow> bytes" where
  "json_quote s = CHR 0x22 # concat (map json_escape s) @ [CHR 0x22]"

fun json_number :: "number \<Rightarrow> bytes" where
  "json_number (Dec m x) = num_to_string (Dec m x)"
| "json_number _ = ''null''"

definition json_members :: "(bytes \<times> bytes option) list \<Rightarrow> bytes list" where
  "json_members ms =
     concat (map (\<lambda>(k, r). case r of None \<Rightarrow> [] | Some t \<Rightarrow> [json_quote k @ '':'' @ t]) ms)"

fun json_stringify :: "jsval \<Rightarrow> bytes option" where
  "json_stringify JUndefined = None"
| "json_stringify JNull = Some ''null''"
| "json_stringify (JBool b) = Some (if b then ''true'' else ''false'')"
| "json_stringify (JNumber n) = Some (json_number n)"
| "json_stringify (JString s) = Some (json_quote s)"
| "json_stringify (JArray xs) =
     Some (''['' @ join_with '','' (map (\<lambda>v. case json_stringify v of None \<Rightarrow> ''null'' | Some t \<Rightarrow> t) xs)
           @ '']'')"
| "json_stringify (JObject ps) =
     Some (''{'' @ join_with '','' (json_members (obj_entries (map (\<lambda>(k, v). (k, json_stringify v)) ps)))
           @ ''}'')"

end
