(* ===== verification/Client.thy ===== *)
theory Client
  imports Route Json
begin

text \<open>
  The request methods of class \<open>Mapir\<close> in src/src/index.ts other than
  \<open>route\<close> (which the class takes from route.ts): \<open>search\<close>,
  \<open>reverseGeocode\<close> and \<open>staticMap\<close>. Each builds one request from its
  arguments and the client's fields, and sends it with \<open>fetch\<close>. None of them
  catches anything: a base URL that \<open>new URL\<close> rejects makes the call throw
  (\<open>send\<close> turns the \<open>UrlFailure\<close> of the request builder into \<open>Thrown\<close>).
\<close>

subsection \<open>search\<close>

definition search_path :: "bool \<Rightarrow> bytes" where
  "search_path autocomplete = ''/search'' @ (if autocomplete then ''/autocomplete'' else [])"

definition search_payload :: "bytes \<Rightarrow> lnglat \<Rightarrow> jsval" where
  "search_payload text location =
     JObject [(''text'', JString text), (''returnid'', JBool True),
              (''location'', JObject [(''type'', JString ''Point''),
                                     (''coordinates'', JArray [JNumber (lng location), JNumber (lat location)])])]"

definition search_request :: "mapir \<Rightarrow> bytes \<Rightarrow> lnglat \<Rightarrow> bool \<Rightarrow> request url_result" where
  "search_request m text location autocomplete =
     url_bind (url_resolve (baseURL m) (search_path autocomplete))
       (\<lambda>u. UrlParsed \<lparr>req_method = POST, req_url = u,
                    req_headers = [(''x-api-key'', apiKey m), (''content-type'', ''application/json'')],
                    req_body = json_stringify (search_payload text location)\<rparr>)"

definition search :: "mapir \<Rightarrow> network \<Rightarrow> (bytes \<Rightarrow> 'j option) \<Rightarrow> bytes \<Rightarrow> lnglat \<Rightarrow> bool
                      \<Rightarrow> 'j outcome" where
  "search m net parse text location autocomplete =
     send (fetch_json net parse) (search_request m text location autocomplete)"

subsection \<open>reverseGeocode\<close>

definition reverse_payload :: "lnglat \<Rightarrow> jsobj" where
  "reverse_payload location =
     [(''lat'', JString (num_to_string (lat location))), (''lon'', JString (num_to_string (lng location)))]"

definition reverse_query :: "lnglat \<Rightarrow> bytes" where
  "reverse_query location = qs (reverse_payload location)"

definition reverse_request :: "mapir \<Rightarrow> lnglat \<Rightarrow> request url_result" where
  "reverse_request m location =
     url_bind (url_resolve (baseURL m) (''/reverse?'' @ reverse_query location))
       (\<lambda>u. UrlParsed \<lparr>req_method = GET, req_url = u,
                    req_headers = [(''x-api-key'', apiKey m), (''content-type'', ''application/json'')],
                    req_body = None\<rparr>)"

definition reverseGeocode :: "mapir \<Rightarrow> network \<Rightarrow> (bytes \<Rightarrow> 'j option) \<Rightarrow> lnglat \<Rightarrow> 'j outcome" where
  "reverseGeocode m net parse location = send (fetch_json net parse) (reverse_request m location)"

subsection \<open>staticMap\<close>

text \<open>
  The options object; a field that is absent or \<open>undefined\<close> is \<open>JUndefined\<close>
  (for \<open>width\<close>, \<open>height\<close>, \<open>zoom\<close>, typed \<open>number | `${number}`\<close>) or
  \<open>None\<close> (for the \<open>colors\<close> and \<open>labels\<close> arrays). Destructuring defaults
  apply to \<open>undefined\<close> only.
\<close>

record static_options =
  so_width :: jsval
  so_height :: jsval
  so_zoom :: jsval
  so_colors :: "bytes list option"
  so_labels :: "bytes list option"

definition no_static_options :: static_options where
  "no_static_options =
     \<lparr>so_width = JUndefined, so_height = JUndefined, so_zoom = JUndefined,
      so_colors = None, so_labels = None\<rparr>"

definition default_to :: "jsval \<Rightarrow> jsval \<Rightarrow> jsval" where
  "default_to v d = (if v = JUndefined then d else v)"

text \<open>\<open>xs[i]\<close> on a JavaScript array: \<open>undefined\<close> out of range.\<close>

definition js_index :: "bytes list \<Rightarrow> nat \<Rightarrow> jsval" where
  "js_index xs i = (if i < length xs then JString (xs ! i) else JUndefined)"

text \<open>\<open>[`color:${colors[idx]}`, [loc.lng, loc.lat].join(), labels?.[idx]].filter(Boolean).join("|")\<close>\<close>

definition marker_descriptor :: "bytes list \<Rightarrow> bytes list option \<Rightarrow> nat \<Rightarrow> lnglat \<Rightarrow> bytes" where
  "marker_descriptor colors labels idx loc =
     array_join ''|''
       (filter js_truthy
          [JString (''color:'' @ js_string (js_index colors idx)),
           JString (array_join '','' [JNumber (lng loc), JNumber (lat loc)]),
           (case labels of None \<Rightarrow> JUndefined | Some ls \<Rightarrow> js_index ls idx)])"

definition static_markers :: "bytes list \<Rightarrow> bytes list option \<Rightarrow> lnglat list \<Rightarrow> bytes" where
  "static_markers colors labels locs =
     array_join '',''
       (map (\<lambda>(idx, loc). JString (marker_descriptor colors labels idx loc)) (enumerate 0 locs))"

definition static_payload :: "lnglat list \<Rightarrow> static_options option \<Rightarrow> jsobj" where
  "static_payload locs options =
     (let oo = (case options of None \<Rightarrow> no_static_options | Some x \<Rightarrow> x);
          width = default_to (so_width oo) (JNumber (Dec 700 0));
          height = default_to (so_height oo) (JNumber (Dec 500 0));
          zoom = default_to (so_zoom oo) (JNumber (Dec 13 0));
          colors = (case so_colors oo of None \<Rightarrow> [''red'', ''red''] | Some cs \<Rightarrow> cs);
          markers = static_markers colors (so_labels oo) locs
      in [(''markers'', JString markers), (''width'', JString (js_string width)),
          (''height'', JString (js_string height)), (''zoom_level'', JString (js_string zoom))])"

definition static_query :: "lnglat list \<Rightarrow> static_options option \<Rightarrow> bytes" where
  "static_query locs options = qs (static_payload locs options)"

definition staticMap_request :: "mapir \<Rightarrow> lnglat list \<Rightarrow> static_options option \<Rightarrow> request url_result" where
  "staticMap_request m locs options =
     url_bind (url_resolve (baseURL m) (''/static?'' @ static_query locs options))
       (\<lambda>u. UrlParsed \<lparr>req_method = GET, req_url = u, req_headers = [(''x-api-key'', apiKey m)],
                    req_body = None\<rparr>)"

definition staticMap :: "mapir \<Rightarrow> network \<Rightarrow> lnglat list \<Rightarrow> static_options option \<Rightarrow> bytes outcome" where
  "staticMap m net locs options = send (fetch_blob net) (staticMap_request m locs options)"

text \<open>The optional label segment of a marker: kept when the label exists and is
  not empty (\<open>filter(Boolean)\<close>).\<close>

definition label_part :: "bytes list option \<Rightarrow> nat \<Rightarrow> bytes list" where
  "label_part labels i =
     (case labels of None \<Rightarrow> [] | Some ls \<Rightarrow> if i < length ls \<and> ls ! i \<noteq> [] then [ls ! i] else [])"

subsection \<open>Properties\<close>

text \<open>C8: with a valid base URL, \<open>search\<close> POSTs to \<open>/search\<close>, or to
  \<open>/search/autocomplete\<close> when the flag is set, with the API key and the JSON content
  type, and a body that is the JSON object \<open>{"text", "returnid": true, "location":
  {"type": "Point", "coordinates": [lng, lat]}}\<close> in this key order\<close>

theorem search_request_body:
  assumes "baseURL m = Some b" and "url_origin b = Some org"
  shows "search_request m text location autocomplete =
     UrlParsed \<lparr>req_method = POST,
          req_url = org @ ''/search'' @ (if autocomplete then ''/autocomplete'' else []),
          req_headers = [(''x-api-key'', apiKey m), (''content-type'', ''application/json'')],
          req_body = Some (''{'' @ json_quote ''text'' @ '':'' @ json_quote text @ '','' @
                           json_quote ''returnid'' @ '':true,'' @ json_quote ''location'' @ '':{'' @
                           json_quote ''type'' @ '':'' @ json_quote ''Point'' @ '','' @
                           json_quote ''coordinates'' @ '':['' @ json_number (lng location) @ '','' @
                           json_number (lat location) @ '']}}'')\<rparr>"
  using assms
  by (simp add: search_request_def search_path_def url_resolve_origin search_payload_def
      obj_entries_no_index array_index_def is_digit_def json_members_def)

text \<open>C9: the query of \<open>reverseGeocode\<close> parses back to exactly
  \<open>lat\<close> (the point's latitude) followed by \<open>lon\<close> (its longitude), each as
  \<open>Number.prototype.toString\<close> prints it, for every point, zero coordinates included\<close>

theorem reverse_query_parse:
  "form_parse (reverse_query location) =
     [(''lat'', num_to_string (lat location)), (''lon'', num_to_string (lng location))]"
  using qs_plain_strings [of "[(''lat'', num_to_string (lat location)), (''lon'', num_to_string (lng location))]"]
  by (simp add: reverse_query_def reverse_payload_def array_index_def is_digit_def)

text \<open>C18: the service reads the query of \<open>reverseGeocode\<close> back to the exact
  coordinates of the point: reading the \<open>lat\<close> and \<open>lon\<close> values as decimal
  numbers gives the latitude and the longitude, for every finite point.\<close>

theorem reverse_query_values:
  "map (\<lambda>(k, v). (k, parse_number v)) (form_parse (reverse_query \<lparr>lng = Dec c d, lat = Dec a b\<rparr>)) =
     [(''lat'', Some (dec_norm (Dec a b))), (''lon'', Some (dec_norm (Dec c d)))]"
proof -
  have "form_parse (reverse_query \<lparr>lng = Dec c d, lat = Dec a b\<rparr>) =
          [(''lat'', num_to_string (Dec a b)), (''lon'', num_to_string (Dec c d))]"
    using qs_plain_strings [of "[(''lat'', num_to_string (Dec a b)), (''lon'', num_to_string (Dec c d))]"]
    by (simp add: reverse_query_def reverse_payload_def array_index_def is_digit_def del: num_to_string.simps)
  then show ?thesis by (simp add: parse_num_to_string del: num_to_string.simps)
qed

lemma marker_descriptor_eq:
  "marker_descriptor colors labels i loc =
     join_with ''|'' ([''color:'' @ js_string (js_index colors i),
                      num_to_string (lng loc) @ '','' @ num_to_string (lat loc)] @ label_part labels i)"
proof -
  have "filter js_truthy
          [JString (''color:'' @ js_string (js_index colors i)),
           JString (array_join '','' [JNumber (lng loc), JNumber (lat loc)]),
           (case labels of None \<Rightarrow> JUndefined | Some ls \<Rightarrow> js_index ls i)] =
        map JString ([''color:'' @ js_string (js_index colors i),
                      num_to_string (lng loc) @ '','' @ num_to_string (lat loc)] @ label_part labels i)"
    by (simp add: array_join_def join_elem_def label_part_def js_index_def split: option.split)
  then show ?thesis
    by (simp only: marker_descriptor_def array_join_strings)
qed

text \<open>C4: the \<open>markers\<close> value of \<open>staticMap\<close> is the comma-joined list of one
  descriptor per point, \<open>color:{colors[i]}|{lng},{lat}\<close> followed by \<open>|{labels[i]}\<close>
  when that label exists and is not empty\<close>

theorem static_markers_eq:
  "static_markers colors labels locs =
     join_with '',''
       (map (\<lambda>(i, loc). join_with ''|'' ([''color:'' @ js_string (js_index colors i),
                                          num_to_string (lng loc) @ '','' @ num_to_string (lat loc)]
                                         @ label_part labels i))
            (enumerate 0 locs))"
  by (simp add: static_markers_def array_join_def join_elem_def marker_descriptor_eq comp_def
      split_def)

text \<open>C10: the query of \<open>staticMap\<close> parses back to \<open>markers\<close>,
  \<open>width\<close>, \<open>height\<close> and \<open>zoom_level\<close> in this order, width, height and zoom
  defaulting to 700, 500 and 13 when absent, a parameter being dropped only when
  its string form is empty\<close>

theorem static_query_parse:
  "form_parse (static_query locs (Some oo)) =
     filter (\<lambda>p. snd p \<noteq> [])
       [(''markers'', static_markers (case so_colors oo of None \<Rightarrow> [''red'', ''red''] | Some cs \<Rightarrow> cs)
                        (so_labels oo) locs),
        (''width'', js_string (default_to (so_width oo) (JNumber (Dec 700 0)))),
        (''height'', js_string (default_to (so_height oo) (JNumber (Dec 500 0)))),
        (''zoom_level'', js_string (default_to (so_zoom oo) (JNumber (Dec 13 0))))]"
  using qs_plain_strings [of "[(''markers'', static_markers (case so_colors oo of None \<Rightarrow> [''red'', ''red''] | Some cs \<Rightarrow> cs)
                        (so_labels oo) locs),
        (''width'', js_string (default_to (so_width oo) (JNumber (Dec 700 0)))),
        (''height'', js_string (default_to (so_height oo) (JNumber (Dec 500 0)))),
        (''zoom_level'', js_string (default_to (so_zoom oo) (JNumber (Dec 13 0))))]"]
  by (simp add: static_query_def static_payload_def array_index_def is_digit_def Let_def)


subsection \<open>Witnesses\<close>

theorem search_request_body_witness:
  "search_request \<lparr>apiKey = ''k'', baseURL = Some ''https://map.ir''\<rparr> ''tehran''
     \<lparr>lng = Dec 51 0, lat = Dec 35 0\<rparr> True =
   UrlParsed \<lparr>req_method = POST, req_url = ''https://map.ir/search/autocomplete'',
        req_headers = [(''x-api-key'', ''k''), (''content-type'', ''application/json'')],
        req_body = Some (''{'' @ json_quote ''text'' @ '':'' @ json_quote ''tehran'' @ '','' @
                         json_quote ''returnid'' @ '':true,'' @ json_quote ''location'' @ '':{'' @
                         json_quote ''type'' @ '':'' @ json_quote ''Point'' @ '','' @
                         json_quote ''coordinates'' @ '':[51,35]}}'')\<rparr>"
  using search_request_body [of "\<lparr>apiKey = ''k'', baseURL = Some ''https://map.ir''\<rparr>"
      "''https://map.ir''" "''https://map.ir''" "''tehran''" "\<lparr>lng = Dec 51 0, lat = Dec 35 0\<rparr>" True]
  by (simp add: url_known pos_to_string_def strip10.simps
      nat_digits.simps)

theorem static_query_parse_witness:
  "form_parse (static_query [\<lparr>lng = Dec 10 0, lat = Dec 20 0\<rparr>] (Some (no_static_options\<lparr>so_colors := Some [''blue'']\<rparr>))) =
     [(''markers'', ''color:blue|10,20''), (''width'', ''700''), (''height'', ''500''), (''zoom_level'', ''13'')]"
  using static_query_parse [of "[\<lparr>lng = Dec 10 0, lat = Dec 20 0\<rparr>]" "no_static_options\<lparr>so_colors := Some [''blue'']\<rparr>"]
  by (simp add: no_static_options_def default_to_def static_markers_def marker_descriptor_def js_index_def
      array_join_def join_elem_def pos_to_string_def strip10.simps nat_digits.simps replicate_numeral_unfold)

end
