(* ===== verification/JsonParse.thy ===== *)
theory JsonParse
  imports Json Decimal FormUrlencoded
begin

text \<open>
  \<open>JSON.parse\<close> (ECMA-262 25.5.1 with the grammar of ECMA-404), the reader the
  map service applies to the body \<open>search\<close> sends. A platform function, modelled
  from the standards on UTF-8 bytes: whitespace is space, tab, line feed and
  carriage return; a string literal may not hold a control character, and its
  escapes \<open>\uXXXX\<close> are written back as the UTF-8 bytes of the code point
  (a surrogate pair as one code point); numbers are read by \<open>scan_number\<close>;
  objects are built member by member with \<open>obj_set\<close> (CreateDataProperty, a
  repeated key keeps its first place and takes the last value).

  The recursive descent spends one unit of fuel per nesting level and per
  element; \<open>json_parse\<close> runs it with more fuel than the text has characters,
  and \<open>parse_value_fuel_stable\<close> shows that such fuel never runs out, so the
  result is that of the unbounded recursion.
\<close>

definition json_ws :: "char \<Rightarrow> bool" where
  "json_ws c = (c = CHR '' '' \<or> c = CHR 0x09 \<or> c = CHR 0x0A \<or> c = CHR 0x0D)"

definition skip_ws :: "bytes \<Rightarrow> bytes" where
  "skip_ws s = dropWhile json_ws s"

definition utf8_encode :: "nat \<Rightarrow> bytes" where
  "utf8_encode cp =
     (if cp < 0x80 then [char_of cp]
      else if cp < 0x800 then [char_of (0xC0 + cp div 64), char_of (0x80 + cp mod 64)]
      else if cp < 0x10000 then
        [char_of (0xE0 + cp div 4096), char_of (0x80 + cp div 64 mod 64), char_of (0x80 + cp mod 64)]
      else [char_of (0xF0 + cp div 262144), char_of (0x80 + cp div 4096 mod 64),
            char_of (0x80 + cp div 64 mod 64), char_of (0x80 + cp mod 64)])"

definition hex4 :: "bytes \<Rightarrow> nat option" where
  "hex4 s =
     (if length s = 4 then
        (case (hex_value (s ! 0), hex_value (s ! 1), hex_value (s ! 2), hex_value (s ! 3)) of
           (Some a, Some b, Some c, Some d) \<Rightarrow> Some (4096 * a + 256 * b + 16 * c + d)
         | _ \<Rightarrow> None)
      else None)"

text \<open>The escape after a backslash: the bytes it stands for and how many input
  bytes it takes. A lone surrogate has no UTF-8 form and is refused.\<close>

definition unicode_escape :: "bytes \<Rightarrow> (bytes \<times> nat) option" where
  "unicode_escape t =
     (case hex4 (take 4 t) of
        None \<Rightarrow> None
      | Some v \<Rightarrow>
          if 0xD800 \<le> v \<and> v < 0xDC00 then
            (if take 2 (drop 4 t) = [CHR 0x5C, CHR ''u''] then
               (case hex4 (take 4 (drop 6 t)) of
                  Some w \<Rightarrow>
                    if 0xDC00 \<le> w \<and> w < 0xE000
                    then Some (utf8_encode (0x10000 + (v - 0xD800) * 1024 + (w - 0xDC00)), 11)
                    else None
                | None \<Rightarrow> None)
             else None)
          else if 0xDC00 \<le> v \<and> v < 0xE000 then None
          else Some (utf8_encode v, 5))"

definition esc_decode :: "bytes \<Rightarrow> (bytes \<times> nat) option" where
  "esc_decode r =
     (case r of
        [] \<Rightarrow> None
      | e # t \<Rightarrow>
          if e = CHR 0x22 then Some ([CHR 0x22], 1)
          else if e = CHR 0x5C then Some ([CHR 0x5C], 1)
          else if e = CHR ''/'' then Some ([CHR ''/''], 1)
          else if e = CHR ''b'' then Some ([CHR 0x08], 1)
          else if e = CHR ''f'' then Some ([CHR 0x0C], 1)
          else if e = CHR ''n'' then Some ([CHR 0x0A], 1)
          else if e = CHR ''r'' then Some ([CHR 0x0D], 1)
          else if e = CHR ''t'' then Some ([CHR 0x09], 1)
          else if e = CHR ''u'' then unicode_escape t
          else None)"

function str_body :: "bytes \<Rightarrow> (bytes \<times> bytes) option" where
  "str_body [] = None"
| "str_body (c # r) =
     (if c = CHR 0x22 then Some ([], r)
      else if c = CHR 0x5C then
        (case esc_decode r of
           None \<Rightarrow> None
         | Some (d, k) \<Rightarrow> map_option (\<lambda>(s, rest). (d @ s, rest)) (str_body (drop k r)))
      else if (of_char c :: nat) < 32 then None
      else map_option (\<lambda>(s, rest). (c # s, rest)) (str_body r))"
  by pat_completeness auto
termination
  by (relation "measure length") auto

fun parse_value :: "nat \<Rightarrow> bytes \<Rightarrow> (jsval \<times> bytes) option"
and parse_elems :: "nat \<Rightarrow> jsval list \<Rightarrow> bytes \<Rightarrow> (jsval \<times> bytes) option"
and parse_members :: "nat \<Rightarrow> jsobj \<Rightarrow> bytes \<Rightarrow> (jsval \<times> bytes) option" where
  "parse_value 0 s = None"
| "parse_value (Suc n) s0 =
     (let s = skip_ws s0 in
      case s of
        [] \<Rightarrow> None
      | c # r \<Rightarrow>
          if c = CHR ''{'' then
            (let r' = skip_ws r in
             if r' \<noteq> [] \<and> hd r' = CHR ''}'' then Some (JObject [], tl r') else parse_members n [] r')
          else if c = CHR ''['' then
            (let r' = skip_ws r in
             if r' \<noteq> [] \<and> hd r' = CHR '']'' then Some (JArray [], tl r') else parse_elems n [] r')
          else if c = CHR 0x22 then map_option (\<lambda>(t, rest). (JString t, rest)) (str_body r)
          else if take 4 s = ''true'' then Some (JBool True, drop 4 s)
          else if take 5 s = ''false'' then Some (JBool False, drop 5 s)
          else if take 4 s = ''null'' then Some (JNull, drop 4 s)
          else map_option (\<lambda>(x, rest). (JNumber x, rest)) (scan_number s))"
| "parse_elems 0 acc s = None"
| "parse_elems (Suc n) acc s =
     (case parse_value (Suc n) s of
        None \<Rightarrow> None
      | Some (v, r) \<Rightarrow>
          (case skip_ws r of
             [] \<Rightarrow> None
           | c # r' \<Rightarrow>
               if c = CHR '','' then parse_elems n (acc @ [v]) r'
               else if c = CHR '']'' then Some (JArray (acc @ [v]), r')
               else None))"
| "parse_members 0 obj s = None"
| "parse_members (Suc n) obj s =
     (case skip_ws s of
        [] \<Rightarrow> None
      | q # r \<Rightarrow>
          if q \<noteq> CHR 0x22 then None
          else
            (case str_body r of
               None \<Rightarrow> None
             | Some (k, r1) \<Rightarrow>
                 (case skip_ws r1 of
                    [] \<Rightarrow> None
                  | c # r2 \<Rightarrow>
                      if c \<noteq> CHR '':'' then None
                      else
                        (case parse_value (Suc n) r2 of
                           None \<Rightarrow> None
                         | Some (v, r3) \<Rightarrow>
                             (case skip_ws r3 of
                                [] \<Rightarrow> None
                              | d # r4 \<Rightarrow>
                                  if d = CHR '','' then parse_members n (obj_set k v obj) r4
                                  else if d = CHR ''}'' then Some (JObject (obj_set k v obj), r4)
                                  else None)))))"

definition json_parse :: "bytes \<Rightarrow> js_error + jsval" where
  "json_parse s =
     (case parse_value (Suc (length s)) s of
        Some (v, r) \<Rightarrow> if skip_ws r = [] then Inr v else Inl (SyntaxError ''Unexpected token in JSON'')
      | None \<Rightarrow> Inl (SyntaxError ''Unexpected token in JSON''))"

text \<open>The value \<open>JSON.parse(JSON.stringify(v))\<close> has, by the two standards:
  \<open>undefined\<close> members are dropped and \<open>undefined\<close> elements become \<open>null\<close>,
  non-finite numbers become \<open>null\<close>, members come in \<open>Object.entries\<close> order
  and are created one by one.\<close>

fun json_norm :: "jsval \<Rightarrow> jsval" where
  "json_norm JUndefined = JUndefined"
| "json_norm JNull = JNull"
| "json_norm (JBool b) = JBool b"
| "json_norm (JNumber x) = (if num_finite x then JNumber (dec_norm x) else JNull)"
| "json_norm (JString s) = JString s"
| "json_norm (JArray xs) = JArray (map (\<lambda>v. if v = JUndefined then JNull else json_norm v) xs)"
| "json_norm (JObject ps) =
     JObject (from_entries (concat (map (\<lambda>(k, v). if v = JUndefined then [] else [(k, json_norm v)])
                                         (obj_entries ps))))"

definition json_end :: "bytes \<Rightarrow> bool" where
  "json_end r = (r = [] \<or> hd r \<in> {CHR '','', CHR '']'', CHR ''}''})"

subsection \<open>Reading back what JSON.stringify writes: strings\<close>

lemma skip_ws_Nil [simp]: "skip_ws [] = []"
  by (simp add: skip_ws_def)

lemma skip_ws_Cons: "\<not> json_ws c \<Longrightarrow> skip_ws (c # r) = c # r"
  by (simp add: skip_ws_def)

lemma hex_value_hex_lower: "d < 16 \<Longrightarrow> hex_value (hex_lower d) = Some d"
  by (simp add: hex_lower_def hex_value_def Let_def)

lemma utf8_encode_ascii: "(of_char c :: nat) < 0x80 \<Longrightarrow> utf8_encode (of_char c) = [c]"
  by (simp add: utf8_encode_def)

lemma str_body_control:
  assumes "(of_char c :: nat) < 32"
  shows "str_body (CHR 0x5C # CHR ''u'' # CHR ''0'' # CHR ''0'' #
            hex_lower (of_char c div 16) # hex_lower (of_char c mod 16) # rest) =
         map_option (\<lambda>(s, x). (c # s, x)) (str_body rest)"
proof -
  have hi: "hex_value (hex_lower (of_char c div 16)) = Some (of_char c div 16)"
    using assms by (intro hex_value_hex_lower) simp
  have lo: "hex_value (hex_lower (of_char c mod 16)) = Some (of_char c mod 16)"
    by (intro hex_value_hex_lower) simp
  have v: "4096 * 0 + 256 * 0 + 16 * (of_char c div 16) + of_char c mod 16 = (of_char c :: nat)"
    by simp
  have h0: "hex_value CHR ''0'' = Some 0" by (simp add: hex_value_def)
  have u: "unicode_escape (CHR ''0'' # CHR ''0'' # hex_lower (of_char c div 16) #
             hex_lower (of_char c mod 16) # rest) = Some ([c], 5)"
    using assms by (simp add: unicode_escape_def hex4_def hi lo h0 utf8_encode_ascii)
  show ?thesis
    by (simp add: esc_decode_def u)
qed

lemma str_body_escape:
  "str_body (json_escape c @ rest) = map_option (\<lambda>(s, x). (c # s, x)) (str_body rest)"
proof -
  consider "c = CHR 0x22" | "c = CHR 0x5C" | "c = CHR 0x08" | "c = CHR 0x0C" | "c = CHR 0x0A"
    | "c = CHR 0x0D" | "c = CHR 0x09"
    | "c \<notin> {CHR 0x22, CHR 0x5C, CHR 0x08, CHR 0x0C, CHR 0x0A, CHR 0x0D, CHR 0x09}"
    by blast
  then show ?thesis
  proof cases
    case 8
    show ?thesis
    proof (cases "(of_char c :: nat) < 32")
      case True
      with 8 have "json_escape c @ rest = CHR 0x5C # CHR ''u'' # CHR ''0'' # CHR ''0'' #
            hex_lower (of_char c div 16) # hex_lower (of_char c mod 16) # rest"
        by (simp add: json_escape_def)
      then show ?thesis by (simp only: str_body_control [OF True])
    next
      case False
      with 8 show ?thesis by (simp add: json_escape_def)
    qed
  qed (simp_all add: json_escape_def esc_decode_def)
qed

lemma str_body_quote: "str_body (concat (map json_escape s) @ CHR 0x22 # r) = Some (s, r)"
  by (induction s) (simp_all add: str_body_escape)

subsection \<open>Reading back what JSON.stringify writes: values\<close>

lemma json_stringify_None_iff: "json_stringify v = None \<longleftrightarrow> v = JUndefined"
  by (cases v) simp_all

lemma hd_pos_to_string: "0 < m \<Longrightarrow> is_digit (hd (pos_to_string m x))"
proof -
  assume m: "0 < m"
  obtain s e where se: "strip10 m x = (s, e)" by (cases "strip10 m x")
  obtain ip fd ex where "pos_to_string m x = num_text ip fd ex" and "valid_int ip"
    using pos_to_string_text [OF m se] by blast
  then show ?thesis by (cases ip) (simp_all add: num_text_def valid_int_def)
qed

lemma num_to_string_head:
  "num_to_string (Dec m x) \<noteq> [] \<and>
   (hd (num_to_string (Dec m x)) = CHR ''-'' \<or> is_digit (hd (num_to_string (Dec m x))))"
  using hd_pos_to_string [of "nat (- m)" x] hd_pos_to_string [of "nat m" x] pos_to_string_not_Nil
  by (auto simp: is_digit_def)

lemma json_end_num_end: "json_end r \<Longrightarrow> num_end r"
  by (cases r) (auto simp: json_end_def num_end_def is_digit_def)

lemma json_end_skip_ws: "json_end r \<Longrightarrow> skip_ws r = r"
  by (cases r) (auto simp: json_end_def skip_ws_def json_ws_def)

lemma parse_literal:
  "parse_value (Suc m) (''null'' @ r) = Some (JNull, r)"
  "parse_value (Suc m) (''true'' @ r) = Some (JBool True, r)"
  "parse_value (Suc m) (''false'' @ r) = Some (JBool False, r)"
  by (simp_all add: skip_ws_Cons json_ws_def)

lemma parse_string: "parse_value (Suc m) (json_quote s @ r) = Some (JString s, r)"
  by (simp add: json_quote_def skip_ws_Cons json_ws_def str_body_quote)

lemma parse_number:
  assumes "num_end r"
  shows "parse_value (Suc m) (num_to_string (Dec a b) @ r) = Some (JNumber (dec_norm (Dec a b)), r)"
proof -
  obtain c rest where cr: "num_to_string (Dec a b) = c # rest" and c: "c = CHR ''-'' \<or> is_digit c"
    using num_to_string_head [of a b] by (cases "num_to_string (Dec a b)") auto
  have nc: "\<not> json_ws c" "c \<noteq> CHR ''{''" "c \<noteq> CHR ''[''" "c \<noteq> CHR 0x22" "c \<noteq> CHR ''t''"
    "c \<noteq> CHR ''f''" "c \<noteq> CHR ''n''"
    using c by (auto simp: json_ws_def is_digit_def)
  have "scan_number (c # rest @ r) = Some (dec_norm (Dec a b), r)"
    using scan_num_to_string [OF assms, of a b] cr by simp
  with nc show ?thesis
    by (simp add: cr skip_ws_Cons del: num_to_string.simps)
qed

lemma skip_ws_delims [simp]:
  "skip_ws (CHR '','' # r) = CHR '','' # r" "skip_ws (CHR '']'' # r) = CHR '']'' # r"
  "skip_ws (CHR ''}'' # r) = CHR ''}'' # r" "skip_ws (CHR '':'' # r) = CHR '':'' # r"
  "skip_ws (CHR 0x22 # r) = CHR 0x22 # r"
  by (simp_all add: skip_ws_Cons json_ws_def)

lemma parse_elems_join:
  assumes "\<forall>p \<in> set ps. \<forall>r n. json_end r \<longrightarrow> length (fst p @ r) < n \<longrightarrow>
             parse_value n (fst p @ r) = Some (snd p, r)"
    and "ps \<noteq> []" and "length (join_with '','' (map fst ps) @ CHR '']'' # r) < n"
  shows "parse_elems n acc (join_with '','' (map fst ps) @ CHR '']'' # r) =
           Some (JArray (acc @ map snd ps), r)"
  using assms
proof (induction ps arbitrary: acc n)
  case Nil
  then show ?case by simp
next
  case (Cons p ps)
  obtain m where n: "n = Suc m" using Cons.prems(3) by (cases n) auto
  have H: "json_end r' \<Longrightarrow> length (fst p @ r') < n' \<Longrightarrow> parse_value n' (fst p @ r') = Some (snd p, r')"
    for r' n' using Cons.prems(1) by simp
  show ?case
  proof (cases "ps = []")
    case True
    have "parse_value (Suc m) (fst p @ CHR '']'' # r) = Some (snd p, CHR '']'' # r)"
      by (rule H) (use Cons.prems(3) True n in \<open>simp_all add: json_end_def\<close>)
    then show ?thesis using True n by simp
  next
    case False
    let ?rest = "CHR '','' # join_with '','' (map fst ps) @ CHR '']'' # r"
    have j: "join_with '','' (map fst (p # ps)) @ CHR '']'' # r = fst p @ ?rest"
      using False by (simp add: join_with_Cons)
    have v: "parse_value (Suc m) (fst p @ ?rest) = Some (snd p, ?rest)"
      by (rule H) (use Cons.prems(3) j n in \<open>simp_all add: json_end_def\<close>)
    have l: "length (join_with '','' (map fst ps) @ CHR '']'' # r) < m"
      using Cons.prems(3) j n by simp
    have "parse_elems m (acc @ [snd p]) (join_with '','' (map fst ps) @ CHR '']'' # r) =
            Some (JArray ((acc @ [snd p]) @ map snd ps), r)"
      using Cons.IH [of m "acc @ [snd p]"] Cons.prems(1) False l by simp
    then show ?thesis using j v n by simp
  qed
qed

lemma parse_members_join:
  assumes "\<forall>q \<in> set ms. \<forall>r n. json_end r \<longrightarrow> length (fst (snd q) @ r) < n \<longrightarrow>
             parse_value n (fst (snd q) @ r) = Some (snd (snd q), r)"
    and "ms \<noteq> []"
    and "length (join_with '','' (map (\<lambda>q. json_quote (fst q) @ '':'' @ fst (snd q)) ms) @ CHR ''}'' # r) < n"
  shows "parse_members n obj
           (join_with '','' (map (\<lambda>q. json_quote (fst q) @ '':'' @ fst (snd q)) ms) @ CHR ''}'' # r) =
         Some (JObject (obj_set_all obj (map (\<lambda>q. (fst q, snd (snd q))) ms)), r)"
  using assms
proof (induction ms arbitrary: obj n)
  case Nil
  then show ?case by simp
next
  case (Cons q ms)
  obtain m where n: "n = Suc m" using Cons.prems(3) by (cases n) auto
  obtain k t v where q: "q = (k, t, v)" by (cases q) auto
  let ?txt = "\<lambda>q. json_quote (fst q) @ '':'' @ fst (snd q)"
  define rest where "rest = (if ms = [] then CHR ''}'' # r
                             else CHR '','' # join_with '','' (map ?txt ms) @ CHR ''}'' # r)"
  have j: "join_with '','' (map ?txt (q # ms)) @ CHR ''}'' # r =
             CHR 0x22 # concat (map json_escape k) @ CHR 0x22 # CHR '':'' # t @ rest"
    by (cases "ms = []") (simp_all add: q rest_def join_with_Cons json_quote_def)
  have H: "json_end r' \<Longrightarrow> length (t @ r') < n' \<Longrightarrow> parse_value n' (t @ r') = Some (v, r')"
    for r' n' using Cons.prems(1) by (simp add: q)
  have L: "length (t @ rest) < length (join_with '','' (map ?txt (q # ms)) @ CHR ''}'' # r)"
    by (simp only: j) simp
  have lt: "length (t @ rest) < Suc m" using L Cons.prems(3) n by linarith
  have v: "parse_value (Suc m) (t @ rest) = Some (v, rest)"
    by (rule H [OF _ lt]) (simp add: rest_def json_end_def)
  show ?case
  proof (cases "ms = []")
    case True
    then show ?thesis
      using j v n by (simp add: q rest_def str_body_quote obj_set_all_def)
  next
    case False
    have "length rest = Suc (length (join_with '','' (map ?txt ms) @ CHR ''}'' # r))"
      using False by (simp add: rest_def)
    then have l: "length (join_with '','' (map ?txt ms) @ CHR ''}'' # r) < m"
      using lt by simp
    have "parse_members m (obj_set k v obj) (join_with '','' (map ?txt ms) @ CHR ''}'' # r) =
            Some (JObject (obj_set_all (obj_set k v obj) (map (\<lambda>q. (fst q, snd (snd q))) ms)), r)"
      using Cons.IH [of m "obj_set k v obj"] Cons.prems(1) False l by simp
    then show ?thesis
      using j v n False by (simp add: q rest_def str_body_quote obj_set_all_def)
  qed
qed

lemma stringify_head:
  assumes "json_stringify v = Some t"
  shows "t \<noteq> [] \<and> \<not> json_ws (hd t) \<and> hd t \<noteq> CHR '']'' \<and> hd t \<noteq> CHR ''}''"
proof (cases v)
  case (JNumber x)
  show ?thesis
  proof (cases x)
    case (Dec a b)
    with JNumber assms have t: "t = num_to_string (Dec a b)" by (simp del: num_to_string.simps)
    show ?thesis
      using num_to_string_head [of a b] unfolding t
      by (auto simp: json_ws_def is_digit_def simp del: num_to_string.simps)
  qed (use JNumber assms in \<open>auto simp: json_ws_def\<close>)
qed (use assms in \<open>auto simp: json_ws_def json_quote_def split: if_splits\<close>)

lemma json_members_map:
  "json_members (map (\<lambda>p. (fst p, json_stringify (snd p))) es) =
     map (\<lambda>p. json_quote (fst p) @ '':'' @ the (json_stringify (snd p))) (filter (\<lambda>p. snd p \<noteq> JUndefined) es)"
  by (induction es) (auto simp: json_members_def json_stringify_None_iff split: option.split)

lemma norm_members_map:
  "concat (map (\<lambda>(k, v). if v = JUndefined then [] else [(k, json_norm v)]) es) =
     map (\<lambda>p. (fst p, json_norm (snd p))) (filter (\<lambda>p. snd p \<noteq> JUndefined) es)"
  by (induction es) auto

lemma stringify_members:
  "json_members (obj_entries (map (\<lambda>(k, v). (k, json_stringify v)) ps)) =
     map (\<lambda>p. json_quote (fst p) @ '':'' @ the (json_stringify (snd p)))
       (filter (\<lambda>p. snd p \<noteq> JUndefined) (obj_entries ps))"
proof -
  have e: "map (\<lambda>(k, v). (k, json_stringify v)) ps = map (\<lambda>p. (fst p, json_stringify (snd p))) ps"
    by (simp add: split_def)
  show ?thesis unfolding e obj_entries_map_snd json_members_map by (rule refl)
qed

lemma skip_ws_text: "a \<noteq> [] \<Longrightarrow> \<not> json_ws (hd a) \<Longrightarrow> skip_ws (a @ s) = a @ s"
  by (cases a) (simp_all add: skip_ws_Cons)

lemma elem_text_head:
  "(case json_stringify v of None \<Rightarrow> ''null'' | Some t \<Rightarrow> t) \<noteq> [] \<and>
   \<not> json_ws (hd (case json_stringify v of None \<Rightarrow> ''null'' | Some t \<Rightarrow> t)) \<and>
   hd (case json_stringify v of None \<Rightarrow> ''null'' | Some t \<Rightarrow> t) \<noteq> CHR '']''"
  using stringify_head [of v] by (cases "json_stringify v") (simp_all add: json_ws_def)

lemma join_with_first: "xs \<noteq> [] \<Longrightarrow> \<exists>rest. join_with sep (map f xs) = f (hd xs) @ rest"
  by (cases xs) (auto simp: join_with_Cons)

lemma parse_scalars:
  "0 < n \<Longrightarrow> parse_value n (CHR ''n'' # CHR ''u'' # CHR ''l'' # CHR ''l'' # r) = Some (JNull, r)"
  "0 < n \<Longrightarrow> parse_value n (CHR ''t'' # CHR ''r'' # CHR ''u'' # CHR ''e'' # r) = Some (JBool True, r)"
  "0 < n \<Longrightarrow>
     parse_value n (CHR ''f'' # CHR ''a'' # CHR ''l'' # CHR ''s'' # CHR ''e'' # r) = Some (JBool False, r)"
  "0 < n \<Longrightarrow> parse_value n (json_quote s @ r) = Some (JString s, r)"
  using parse_literal [simplified] parse_string by (auto simp: gr0_conv_Suc)

lemma parse_stringify:
  "json_stringify v = Some t \<Longrightarrow> json_end r \<Longrightarrow> length (t @ r) < n \<Longrightarrow>
   parse_value n (t @ r) = Some (json_norm v, r)"
proof (induction v arbitrary: t r n rule: json_stringify.induct)
  case (4 x)
  then obtain m where n: "n = Suc m" by (cases n) auto
  show ?case
  proof (cases x)
    case (Dec a b)
    with "4.prems"(1) have t: "t = num_to_string (Dec a b)" by (simp del: num_to_string.simps)
    show ?thesis
      using parse_number [OF json_end_num_end [OF "4.prems"(2)], of m a b]
      by (simp add: t n Dec del: num_to_string.simps)
  qed (use "4.prems" in \<open>auto simp: n parse_literal [simplified]\<close>)
next
  case (6 xs)
  obtain m where n: "n = Suc m" using "6.prems"(3) by (cases n) auto
  let ?et = "\<lambda>v. case json_stringify v of None \<Rightarrow> ''null'' | Some t \<Rightarrow> t"
  let ?ev = "\<lambda>v. if v = JUndefined then JNull else json_norm v"
  let ?J = "join_with '','' (map ?et xs)"
  have t: "t = CHR ''['' # ?J @ '']''" using "6.prems"(1) by simp
  show ?case
  proof (cases "xs = []")
    case True
    then show ?thesis using t n by (simp add: skip_ws_Cons json_ws_def)
  next
    case False
    let ?ps = "map (\<lambda>v. (?et v, ?ev v)) xs"
    have P: "\<forall>p \<in> set ?ps. \<forall>r n. json_end r \<longrightarrow> length (fst p @ r) < n \<longrightarrow>
               parse_value n (fst p @ r) = Some (snd p, r)"
    proof (intro ballI allI impI)
      fix p r' n'
      assume p: "p \<in> set ?ps" and e: "json_end r'" and l: "length (fst p @ r') < n'"
      then obtain v where v: "v \<in> set xs" and pv: "p = (?et v, ?ev v)" by auto
      show "parse_value n' (fst p @ r') = Some (snd p, r')"
      proof (cases "json_stringify v")
        case None
        with l obtain m' where "n' = Suc m'" by (cases n') auto
        with None pv show ?thesis
          using parse_literal(1) [of m' r'] by (simp add: json_stringify_None_iff)
      next
        case (Some tv)
        with pv e l show ?thesis
          using "6.IH" [OF v Some e] by (auto simp: json_stringify_None_iff)
      qed
    qed
    have fs: "map fst ?ps = map ?et xs" by (simp add: comp_def)
    obtain rest where J: "?J = ?et (hd xs) @ rest" using join_with_first [OF False] by blast
    note e = elem_text_head [of "hd xs"]
    have sk: "skip_ws (?J @ CHR '']'' # r) = ?J @ CHR '']'' # r"
      unfolding J append_assoc by (rule skip_ws_text) (use e in simp_all)
    have h: "hd (?J @ CHR '']'' # r) \<noteq> CHR '']''"
      unfolding J append_assoc using e by simp
    have "parse_elems m [] (?J @ CHR '']'' # r) = Some (JArray ([] @ map snd ?ps), r)"
      using parse_elems_join [OF P, of r m "[]"] False "6.prems"(3) t n by (simp add: comp_def)
    then show ?thesis
      using sk h t n by (simp add: skip_ws_Cons json_ws_def comp_def)
  qed
next
  case (7 ps)
  obtain m where n: "n = Suc m" using "7.prems"(3) by (cases n) auto
  let ?qs = "filter (\<lambda>p. snd p \<noteq> JUndefined) (obj_entries ps)"
  let ?ms = "map (\<lambda>p. (fst p, the (json_stringify (snd p)), json_norm (snd p))) ?qs"
  let ?txt = "\<lambda>q. json_quote (fst q) @ '':'' @ fst (snd q)"
  let ?J = "join_with '','' (map ?txt ?ms)"
  have t: "t = CHR ''{'' # ?J @ ''}''"
    using "7.prems"(1) by (simp add: stringify_members comp_def)
  have nrm: "json_norm (JObject ps) = JObject (from_entries (map (\<lambda>q. (fst q, snd (snd q))) ?ms))"
    by (simp add: norm_members_map comp_def)
  show ?case
  proof (cases "?ms = []")
    case True
    then show ?thesis
      using t n nrm by (simp add: skip_ws_Cons json_ws_def from_entries_def obj_set_all_def)
  next
    case False
    have P: "\<forall>q \<in> set ?ms. \<forall>r n. json_end r \<longrightarrow> length (fst (snd q) @ r) < n \<longrightarrow>
               parse_value n (fst (snd q) @ r) = Some (snd (snd q), r)"
    proof (intro ballI allI impI)
      fix q r' n'
      assume q: "q \<in> set ?ms" and e: "json_end r'" and l: "length (fst (snd q) @ r') < n'"
      then obtain k v where kv: "(k, v) \<in> set ps" and u: "v \<noteq> JUndefined"
          and qv: "q = (k, the (json_stringify v), json_norm v)"
        by auto
      from u obtain tv where tv: "json_stringify v = Some tv" by (cases "json_stringify v") (simp_all add: json_stringify_None_iff)
      show "parse_value n' (fst (snd q) @ r') = Some (snd (snd q), r')"
        using "7.IH" [OF kv refl tv e] l by (simp add: qv tv)
    qed
    obtain q0 qs' where ms: "?ms = q0 # qs'" using False by (cases ?ms) auto
    have J: "?J = CHR 0x22 # concat (map json_escape (fst q0)) @ CHR 0x22 # CHR '':'' # fst (snd q0) @
                  (if qs' = [] then [] else CHR '','' # join_with '','' (map ?txt qs'))"
      unfolding ms by (simp add: join_with_Cons json_quote_def)
    have "parse_members m [] (?J @ CHR ''}'' # r) =
            Some (JObject (obj_set_all [] (map (\<lambda>q. (fst q, snd (snd q))) ?ms)), r)"
      by (rule parse_members_join [OF P False]) (use "7.prems"(3) t n in simp)
    then show ?thesis
      using t n nrm J by (simp add: skip_ws_Cons json_ws_def from_entries_def)
  qed
qed (auto simp: parse_scalars)

subsection \<open>The parser consumes input, so its fuel suffices\<close>

lemma length_skip_ws: "length (skip_ws s) \<le> length s"
  by (simp add: skip_ws_def length_dropWhile_le)

lemma str_body_consumes: "str_body s = Some (t, r) \<Longrightarrow> length r < length s"
proof (induction "length s" arbitrary: s t rule: less_induct)
  case less
  show ?case
  proof (cases s)
    case Nil
    with less.prems show ?thesis by simp
  next
    case (Cons c r0)
    show ?thesis
    proof (cases "c = CHR 0x22 \<or> c \<noteq> CHR 0x5C")
      case True
      have "length r < length r0" if "str_body r0 = Some (a, r)" for a
        using less.hyps [OF _ that] Cons by simp
      with less.prems Cons True show ?thesis by (auto split: if_splits)
    next
      case False
      with less.prems Cons obtain d k t' where e: "esc_decode r0 = Some (d, k)"
          and b: "str_body (drop k r0) = Some (t', r)"
        by (auto split: option.splits prod.splits)
      have "length r < length (drop k r0)" using less.hyps [OF _ b] Cons by simp
      then show ?thesis using Cons by simp
    qed
  qed
qed

lemma scan_frac_consumes: "scan_frac r = Some (fd, r') \<Longrightarrow> length r' \<le> length r"
  by (auto simp: scan_frac_def Let_def length_dropWhile_le le_SucI split: list.splits if_splits)

lemma scan_exp_consumes: "scan_exp r = Some (e, r') \<Longrightarrow> length r' \<le> length r"
proof -
  assume a: "scan_exp r = Some (e, r')"
  have "length (snd (exp_sign t)) \<le> length t" for t
    by (simp add: exp_sign_def split: list.split)
  with a show ?thesis
    by (auto simp: scan_exp_def Let_def split: list.splits if_splits prod.splits)
      (metis length_dropWhile_le le_SucI order_trans snd_conv)+
qed

lemma dropWhile_shorter: "takeWhile P s \<noteq> [] \<Longrightarrow> length (dropWhile P s) < length s"
  by (induction s) (auto simp: length_dropWhile_le le_imp_less_Suc split: if_splits)

lemma scan_number_consumes: "scan_number s = Some (x, r) \<Longrightarrow> length r < length s"
proof -
  assume a: "scan_number s = Some (x, r)"
  obtain neg s1 where ns: "(case s of c # t \<Rightarrow> if c = CHR ''-'' then (True, t) else (False, s)
                                 | [] \<Rightarrow> (False, [])) = (neg, s1)" by fastforce
  have s1: "length s1 \<le> length s" using ns by (auto split: list.splits if_splits)
  from a ns obtain fd r2 e where ip: "takeWhile is_digit s1 \<noteq> []"
      and f: "scan_frac (dropWhile is_digit s1) = Some (fd, r2)" and ex: "scan_exp r2 = Some (e, r)"
    by (auto simp: scan_number_def Let_def split: if_splits option.splits prod.splits)
  have "length r \<le> length r2" by (rule scan_exp_consumes [OF ex])
  also have "\<dots> \<le> length (dropWhile is_digit s1)" by (rule scan_frac_consumes [OF f])
  also have "\<dots> < length s1" by (rule dropWhile_shorter [OF ip])
  finally show ?thesis using s1 by simp
qed

lemma skip_ws_Cons_shorter: "skip_ws s = c # r \<Longrightarrow> length r < length s"
  using length_skip_ws [of s] by simp

lemma parse_consumes:
  "parse_value n s = Some (v, r) \<Longrightarrow> length r < length s"
  "parse_elems n acc s = Some (v, r) \<Longrightarrow> length r < length s"
  "parse_members n obj s = Some (v, r) \<Longrightarrow> length r < length s"
proof (induction n s and n acc s and n obj s arbitrary: v r and v r and v r
       rule: parse_value_parse_elems_parse_members.induct)
  case (2 n s0)
  from "2.prems" obtain c rr where sk: "skip_ws s0 = c # rr"
    by (cases "skip_ws s0") (simp_all add: Let_def)
  have l0: "length rr < length s0" by (rule skip_ws_Cons_shorter [OF sk])
  have l1: "length (skip_ws rr) \<le> length rr" by (rule length_skip_ws)
  have l2: "length (tl (skip_ws rr)) \<le> length rr" using l1 by simp
  show ?case
    using "2.prems" "2.IH" l0 l1 l2 str_body_consumes scan_number_consumes [of "c # rr"]
    by (fastforce simp: Let_def sk split: if_splits)
next
  case (4 n acc s)
  then show ?case
    by (fastforce dest: skip_ws_Cons_shorter split: option.splits prod.splits list.splits if_splits)
next
  case (6 n obj s)
  then show ?case
    by (fastforce dest: skip_ws_Cons_shorter str_body_consumes split: option.splits prod.splits list.splits if_splits)
qed simp_all

lemma parse_Nil [simp]:
  "parse_value n [] = None" "parse_elems n acc [] = None" "parse_members n obj [] = None"
  by (cases n; simp add: Let_def)+

lemma parse_fuel_step:
  "(\<forall>s. length s < n \<longrightarrow> parse_value (Suc n) s = parse_value n s) \<and>
   (\<forall>acc s. length s < n \<longrightarrow> parse_elems (Suc n) acc s = parse_elems n acc s) \<and>
   (\<forall>obj s. length s < n \<longrightarrow> parse_members (Suc n) obj s = parse_members n obj s)"
proof (induction n)
  case 0
  then show ?case by simp
next
  case (Suc m)
  have IHE: "parse_elems m acc s = parse_elems (Suc m) acc s" if "length s < m" for acc s
    using Suc.IH that by metis
  have IHM: "parse_members m obj s = parse_members (Suc m) obj s" if "length s < m" for obj s
    using Suc.IH that by metis
  have PV: "parse_value (Suc (Suc m)) s = parse_value (Suc m) s" if l: "length s < Suc m" for s
  proof (cases "skip_ws s")
    case (Cons c rr)
    have lt: "length (skip_ws rr) < m"
      using skip_ws_Cons_shorter [OF Cons] length_skip_ws [of rr] l by simp
    show ?thesis by (simp add: Cons Let_def IHE [OF lt] IHM [OF lt])
  qed (simp add: Let_def)
  have PE: "parse_elems (Suc (Suc m)) acc s = parse_elems (Suc m) acc s" if l: "length s < Suc m" for acc s
  proof (cases "parse_value (Suc m) s")
    case (Some vr)
    obtain v r where vr: "vr = (v, r)" by (cases vr)
    have lr: "length r < length s" using parse_consumes(1) [of "Suc m" s v r] Some vr by blast
    show ?thesis
    proof (cases "skip_ws r")
      case (Cons c r')
      have lt: "length r' < m" using skip_ws_Cons_shorter [OF Cons] lr l by simp
      show ?thesis by (simp add: PV [OF l] Some vr Cons IHE [OF lt] del: parse_value.simps)
    qed (simp add: PV [OF l] Some vr del: parse_value.simps)
  qed (simp add: PV [OF l] del: parse_value.simps)
  have PM: "parse_members (Suc (Suc m)) obj s = parse_members (Suc m) obj s" if l: "length s < Suc m" for obj s
  proof (cases "skip_ws s")
    case s0: (Cons q r)
    have lr: "length r < Suc m" using skip_ws_Cons_shorter [OF s0] l by simp
    show ?thesis
    proof (cases "str_body r")
      case sb: (Some kr1)
      obtain k r1 where kr1: "kr1 = (k, r1)" by (cases kr1)
      have l1: "length r1 < Suc m" using str_body_consumes [of r k r1] sb kr1 lr by simp
      show ?thesis
      proof (cases "skip_ws r1")
        case s1: (Cons c r2)
        have l2: "length r2 < Suc m" using skip_ws_Cons_shorter [OF s1] l1 by simp
        note base = s0 sb kr1 s1 PV [OF l2]
        show ?thesis
        proof (cases "parse_value (Suc m) r2")
          case pv: (Some vr3)
          obtain v r3 where vr3: "vr3 = (v, r3)" by (cases vr3)
          have l3: "length r3 < length r2" using parse_consumes(1) [of "Suc m" r2 v r3] pv vr3 by blast
          show ?thesis
          proof (cases "skip_ws r3")
            case s3: (Cons d r4)
            have lt: "length r4 < m" using skip_ws_Cons_shorter [OF s3] l3 l2 by simp
            show ?thesis by (simp add: base pv vr3 s3 IHM [OF lt] del: parse_value.simps)
          qed (simp add: base pv vr3 del: parse_value.simps)
        qed (simp add: base del: parse_value.simps)
      qed (simp add: s0 sb kr1)
    qed (simp add: s0)
  qed simp
  from PV PE PM show ?case by blast
qed

text \<open>Fuel beyond the length of the text changes nothing: the recursion never runs
  out of fuel on a text shorter than its fuel, so \<open>json_parse\<close> computes the
  result of the unbounded recursive descent.\<close>

lemma parse_value_fuel_stable:
  "length s < n \<Longrightarrow> parse_value n s = parse_value (Suc (length s)) s"
proof (induction n)
  case (Suc k)
  show ?case
  proof (cases "length s < k")
    case True
    then have "parse_value (Suc k) s = parse_value k s" using parse_fuel_step by blast
    with Suc.IH True show ?thesis by simp
  next
    case False
    with Suc.prems have "k = length s" by simp
    then show ?thesis by simp
  qed
qed simp

lemma json_parse_stringify: "json_stringify v = Some t \<Longrightarrow> json_parse t = Inr (json_norm v)"
  using parse_stringify [of v t "[]" "Suc (length t)"] by (simp add: json_parse_def json_end_def)

end
