(* ===== verification/Payloads.thy ===== *)
theory Payloads
  imports Client Decimal
begin

text \<open>
  The TypeScript declarations of the request side of the client: the payload
  interfaces of src/src/index.ts (lines 113 to 179) and src/src/route.ts (lines
  56 to 65) that the code casts its objects to with \<open>as\<close>. A cast has no run-time
  effect, so each type is modelled as a predicate on the values the code builds,
  and the lemmas say when the cast is sound. A template literal type
  \<open>`${number}`\<close> admits a string when it is non-empty and reads as a finite
  number; on the texts \<open>Number::toString\<close> prints, this is the decimal grammar
  of \<open>parse_number\<close> (\<open>number_text_num_to_string\<close>). A placeholder of a
  template type matches up to the first occurrence of the literal text that
  follows it, which \<open>split_first\<close> models.
\<close>

fun is_jstring :: "jsval \<Rightarrow> bool" where
  "is_jstring (JString s) = True"
| "is_jstring _ = False"

definition number_text :: "bytes \<Rightarrow> bool" where
  "number_text s = (parse_number s \<noteq> None)"

definition number_field :: "jsobj \<Rightarrow> bytes \<Rightarrow> bool" where
  "number_field obj k = (case map_of obj k of Some (JString s) \<Rightarrow> number_text s | _ \<Rightarrow> False)"

definition string_record :: "jsobj \<Rightarrow> bool" where
  "string_record obj = list_all (\<lambda>p. is_jstring (snd p)) obj"

text \<open>\<open>interface IReversePayload extends Record<string, string> { lat: `${number}`; lon: `${number}` }\<close>\<close>

definition is_IReversePayload :: "jsobj \<Rightarrow> bool" where
  "is_IReversePayload obj = (string_record obj \<and> number_field obj ''lat'' \<and> number_field obj ''lon'')"

definition split_first :: "char \<Rightarrow> bytes \<Rightarrow> (bytes \<times> bytes) option" where
  "split_first c s =
     (if c \<in> set s then Some (takeWhile (\<lambda>x. x \<noteq> c) s, tl (dropWhile (\<lambda>x. x \<noteq> c) s)) else None)"

text \<open>\<open>markers: `color:${"red" | "blue"}|${number},${number}|${string}`\<close>\<close>

definition markers_typed :: "bytes \<Rightarrow> bool" where
  "markers_typed s =
     (take 6 s = ''color:'' \<and>
      (case split_first CHR ''|'' (drop 6 s) of
         None \<Rightarrow> False
       | Some (c, r1) \<Rightarrow>
           (c = ''red'' \<or> c = ''blue'') \<and>
           (case split_first CHR '','' r1 of
              None \<Rightarrow> False
            | Some (a, r2) \<Rightarrow>
                number_text a \<and>
                (case split_first CHR ''|'' r2 of
                   None \<Rightarrow> False
                 | Some (b, r3) \<Rightarrow> number_text b))))"

text \<open>\<open>interface IStaticMapPayload extends Record<string, string>\<close> with
  \<open>width\<close>, \<open>height\<close> and \<open>zoom_level\<close> of type \<open>`${number}`\<close> and the
  \<open>markers\<close> template.\<close>

definition is_IStaticMapPayload :: "jsobj \<Rightarrow> bool" where
  "is_IStaticMapPayload obj =
     (string_record obj \<and> number_field obj ''width'' \<and> number_field obj ''height'' \<and>
      number_field obj ''zoom_level'' \<and>
      (case map_of obj ''markers'' of Some (JString m) \<Rightarrow> markers_typed m | _ \<Rightarrow> False))"

text \<open>\<open>interface IRouteOptions extends Record<string, unknown>\<close>: every declared
  member is optional (absent or \<open>undefined\<close>), \<open>alternatives\<close> and \<open>steps\<close>
  are booleans, \<open>overview\<close> is \<open>"full"\<close> or a boolean, \<open>geometries\<close> is
  \<open>"polyline6"\<close>; other members are unconstrained.\<close>

fun is_jbool :: "jsval \<Rightarrow> bool" where
  "is_jbool (JBool b) = True"
| "is_jbool _ = False"

definition optional_member :: "jsobj \<Rightarrow> bytes \<Rightarrow> (jsval \<Rightarrow> bool) \<Rightarrow> bool" where
  "optional_member obj k P = (case map_of obj k of None \<Rightarrow> True | Some v \<Rightarrow> v = JUndefined \<or> P v)"

definition is_IRouteOptions :: "jsobj \<Rightarrow> bool" where
  "is_IRouteOptions obj =
     (optional_member obj ''alternatives'' is_jbool \<and> optional_member obj ''steps'' is_jbool \<and>
      optional_member obj ''overview'' (\<lambda>v. is_jbool v \<or> v = JString ''full'') \<and>
      optional_member obj ''geometries'' (\<lambda>v. v = JString ''polyline6''))"

text \<open>\<open>interface ISearchPayload { location: Point; returnid: boolean; text: string }\<close>
  with the GeoJSON \<open>Point\<close> \<open>{type: "Point", coordinates: Position}\<close>, a position
  being an array of numbers (at least two: longitude, latitude).\<close>

definition is_position :: "jsval list \<Rightarrow> bool" where
  "is_position xs = (2 \<le> length xs \<and> list_all (\<lambda>v. case v of JNumber n \<Rightarrow> True | _ \<Rightarrow> False) xs)"

definition is_Point :: "jsval \<Rightarrow> bool" where
  "is_Point v =
     (case v of
        JObject ps \<Rightarrow> map_of ps ''type'' = Some (JString ''Point'') \<and>
                     (case map_of ps ''coordinates'' of Some (JArray xs) \<Rightarrow> is_position xs | _ \<Rightarrow> False)
      | _ \<Rightarrow> False)"

definition is_ISearchPayload :: "jsval \<Rightarrow> bool" where
  "is_ISearchPayload v =
     (case v of
        JObject ps \<Rightarrow> (case map_of ps ''location'' of Some l \<Rightarrow> is_Point l | None \<Rightarrow> False) \<and>
                     (case map_of ps ''returnid'' of Some b \<Rightarrow> is_jbool b | None \<Rightarrow> False) \<and>
                     (case map_of ps ''text'' of Some t \<Rightarrow> is_jstring t | None \<Rightarrow> False)
      | _ \<Rightarrow> False)"

subsection \<open>Number texts\<close>

lemma parse_number_nonfinite:
  "parse_number ''NaN'' = None" "parse_number ''Infinity'' = None" "parse_number ''-Infinity'' = None"
  by (simp_all add: parse_number_def scan_number_def is_digit_def)

lemma number_text_num_to_string: "number_text (num_to_string n) \<longleftrightarrow> num_finite n"
proof (cases n)
  case (Dec m x)
  then show ?thesis by (simp add: number_text_def parse_num_to_string del: num_to_string.simps)
qed (simp_all add: number_text_def parse_number_nonfinite)

text \<open>C20: the object \<open>reverseGeocode\<close> casts to \<open>IReversePayload\<close> has that type
  (string members, \<open>lat\<close> and \<open>lon\<close> number texts) exactly when both coordinates
  of the point are finite numbers.\<close>

theorem reverse_payload_typed:
  "is_IReversePayload (reverse_payload loc) \<longleftrightarrow> num_finite (lat loc) \<and> num_finite (lng loc)"
  by (simp add: is_IReversePayload_def reverse_payload_def string_record_def number_field_def
      number_text_num_to_string del: num_to_string.simps)

lemma digits_prefix_set: "set (takeWhile is_digit s) \<subseteq> Collect is_digit"
  by (auto dest: set_takeWhileD)

lemma scan_frac_prefix:
  assumes "scan_frac r = Some (fd, r2)"
  shows "\<exists>p. r = p @ r2 \<and> set p \<subseteq> insert CHR ''.'' (Collect is_digit)"
proof (cases r)
  case (Cons c r')
  show ?thesis
  proof (cases "c = CHR ''.''")
    case True
    with assms Cons have "r2 = dropWhile is_digit r'" by (simp add: scan_frac_def Let_def split: if_splits)
    with True Cons show ?thesis
      using digits_prefix_set [of r'] by (intro exI [of _ "CHR ''.'' # takeWhile is_digit r'"]) auto
  next
    case False
    with assms Cons show ?thesis by (simp add: scan_frac_def)
  qed
qed (use assms in \<open>simp add: scan_frac_def\<close>)

lemma exp_sign_prefix: "exp_sign r = (sg, r') \<Longrightarrow> \<exists>p. r = p @ r' \<and> set p \<subseteq> {CHR ''+'', CHR ''-''}"
  by (auto simp: exp_sign_def split: list.splits if_splits intro: exI [of _ "[]"])

lemma scan_exp_prefix:
  assumes "scan_exp r = Some (e, r3)"
  shows "\<exists>p. r = p @ r3 \<and> set p \<subseteq> {CHR ''e'', CHR ''E'', CHR ''+'', CHR ''-''} \<union> Collect is_digit"
proof (cases r)
  case (Cons c r')
  show ?thesis
  proof (cases "c = CHR ''e'' \<or> c = CHR ''E''")
    case True
    obtain sg r'' where sgr: "exp_sign r' = (sg, r'')" by (cases "exp_sign r'")
    obtain q where q: "r' = q @ r''" and qs: "set q \<subseteq> {CHR ''+'', CHR ''-''}"
      using exp_sign_prefix [OF sgr] by blast
    from assms Cons True sgr have "r3 = dropWhile is_digit r''"
      by (simp add: scan_exp_def Let_def split: if_splits)
    then have "r = (c # q @ takeWhile is_digit r'') @ r3" using Cons q by simp
    moreover have "set (c # q @ takeWhile is_digit r'') \<subseteq>
                     {CHR ''e'', CHR ''E'', CHR ''+'', CHR ''-''} \<union> Collect is_digit"
      using True qs digits_prefix_set [of r''] by auto
    ultimately show ?thesis by blast
  next
    case False
    with assms Cons show ?thesis by (simp add: scan_exp_def)
  qed
qed (use assms in \<open>simp add: scan_exp_def\<close>)

lemma scan_number_prefix:
  assumes "scan_number s = Some (v, r)"
  shows "\<exists>p. s = p @ r \<and> set p \<subseteq> {CHR ''.'', CHR ''e'', CHR ''E'', CHR ''+'', CHR ''-''} \<union> Collect is_digit"
proof -
  obtain neg s1 where ns: "(case s of c # t \<Rightarrow> if c = CHR ''-'' then (True, t) else (False, s)
                                 | [] \<Rightarrow> (False, [])) = (neg, s1)" by fastforce
  have s0: "\<exists>p. s = p @ s1 \<and> set p \<subseteq> {CHR ''-''}"
    using ns by (auto split: list.splits if_splits intro: exI [of _ "[]"])
  from assms ns obtain fd r2 e where f: "scan_frac (dropWhile is_digit s1) = Some (fd, r2)"
      and ex: "scan_exp r2 = Some (e, r)"
    by (auto simp: scan_number_def Let_def split: if_splits option.splits prod.splits)
  obtain p0 where p0: "s = p0 @ s1" "set p0 \<subseteq> {CHR ''-''}" using s0 by blast
  obtain p1 where p1: "dropWhile is_digit s1 = p1 @ r2" "set p1 \<subseteq> insert CHR ''.'' (Collect is_digit)"
    using scan_frac_prefix [OF f] by blast
  obtain p2 where p2: "r2 = p2 @ r" "set p2 \<subseteq> {CHR ''e'', CHR ''E'', CHR ''+'', CHR ''-''} \<union> Collect is_digit"
    using scan_exp_prefix [OF ex] by blast
  have "s = (p0 @ takeWhile is_digit s1 @ p1 @ p2) @ r"
    using p0(1) p1(1) p2(1) takeWhile_dropWhile_id [of is_digit s1] by (metis append_assoc)
  moreover have "set (p0 @ takeWhile is_digit s1 @ p1 @ p2) \<subseteq>
                   {CHR ''.'', CHR ''e'', CHR ''E'', CHR ''+'', CHR ''-''} \<union> Collect is_digit"
    using p0(2) p1(2) p2(2) digits_prefix_set [of s1] by auto
  ultimately show ?thesis by blast
qed

lemma number_text_delims: "number_text s \<Longrightarrow> CHR '','' \<notin> set s \<and> CHR ''|'' \<notin> set s"
proof -
  assume "number_text s"
  then obtain v where "scan_number s = Some (v, [])"
    by (auto simp: number_text_def parse_number_def split: option.splits list.splits prod.splits)
  from scan_number_prefix [OF this] show ?thesis by (auto simp: is_digit_def)
qed

lemma takeWhile_not_in:
  "c \<notin> set b \<Longrightarrow> takeWhile (\<lambda>x. x \<noteq> c) (b @ ys) = b @ takeWhile (\<lambda>x. x \<noteq> c) ys"
  "c \<notin> set b \<Longrightarrow> dropWhile (\<lambda>x. x \<noteq> c) (b @ ys) = dropWhile (\<lambda>x. x \<noteq> c) ys"
  by (induction b) auto

lemma enumerate_Nil_iff: "enumerate n xs = [] \<longleftrightarrow> xs = []"
  by (cases xs) simp_all

lemma split_first_append: "c \<notin> set a \<Longrightarrow> split_first c (a @ c # z) = Some (a, z)"
  by (simp add: split_first_def takeWhile_not_in)

lemma split_first_none: "c \<notin> set a \<Longrightarrow> split_first c a = None"
  by (simp add: split_first_def)

lemma num_to_string_no_bar: "CHR ''|'' \<notin> set (num_to_string n)"
proof -
  have "CHR ''|'' \<notin> num_alphabet" by (simp add: num_alphabet_def)
  then show ?thesis using set_num_to_string [of n] by blast
qed

lemma markers_without_label:
  assumes a: "CHR ''|'' \<notin> set a" "CHR '','' \<notin> set a" and b: "CHR ''|'' \<notin> set b"
    and t: "t = [] \<or> hd t = CHR '',''"
  shows "\<not> markers_typed (''color:red|'' @ a @ CHR '','' # b @ t)"
proof -
  have s1: "split_first CHR ''|'' (''red|'' @ a @ CHR '','' # b @ t) = Some (''red'', a @ CHR '','' # b @ t)"
    using split_first_append [of "CHR ''|''" "''red''"] by simp
  have s2: "split_first CHR '','' (a @ CHR '','' # b @ t) = Some (a, b @ t)"
    by (rule split_first_append [OF a(2)])
  have s3: "\<not> (case split_first CHR ''|'' (b @ t) of None \<Rightarrow> False | Some (x, r3) \<Rightarrow> number_text x)"
  proof (cases "t = []")
    case True
    with b show ?thesis by (simp add: split_first_none)
  next
    case False
    with t obtain t' where t': "t = CHR '','' # t'" by (cases t) auto
    show ?thesis
    proof (cases "CHR ''|'' \<in> set (b @ t)")
      case True
      have "CHR '','' \<in> set (takeWhile (\<lambda>x. x \<noteq> CHR ''|'') (b @ t))"
        using b by (simp add: t' takeWhile_not_in)
      with True show ?thesis by (auto simp: split_first_def dest: number_text_delims)
    next
      case False
      then show ?thesis by (simp add: split_first_none)
    qed
  qed
  show ?thesis
    using s1 s2 s3 by (simp add: markers_typed_def)
qed

text \<open>C21: the cast \<open>as IStaticMapPayload\<close> in \<open>staticMap\<close> is unsound for the
  default colours and no labels: the \<open>markers\<close> value the code builds then never
  matches the declared template \<open>`color:${"red" | "blue"}|${number},${number}|${string}`\<close>
  (one marker lacks the second \<open>|\<close>, two markers put \<open>,color:red\<close> into a
  number), whatever the points.\<close>

theorem static_payload_untyped:
  assumes "so_colors opts = None" and "so_labels opts = None"
  shows "\<not> is_IStaticMapPayload (static_payload locs (Some opts))"
proof -
  let ?m = "static_markers [''red'', ''red''] None locs"
  have mk: "map_of (static_payload locs (Some opts)) ''markers'' = Some (JString ?m)"
    using assms by (simp add: static_payload_def Let_def)
  have "\<not> markers_typed ?m"
  proof (cases locs)
    case Nil
    then show ?thesis by (simp add: static_markers_def array_join_def markers_typed_def)
  next
    case (Cons l ls)
    define t where "t = (if ls = [] then []
        else CHR '','' # join_with '','' (map (\<lambda>(idx, loc). marker_descriptor [''red'', ''red''] None idx loc)
                                           (enumerate 1 ls)))"
    have "?m = ''color:red|'' @ num_to_string (lng l) @ CHR '','' # num_to_string (lat l) @ t"
      by (simp add: Cons t_def static_markers_def array_join_def join_elem_def marker_descriptor_eq
          label_part_def js_index_def join_with_Cons split_def comp_def enumerate_Nil_iff
          del: num_to_string.simps)
    then show ?thesis
      using markers_without_label [of "num_to_string (lng l)" "num_to_string (lat l)" t]
        num_to_string_no_bar num_to_string_excludes(1)
      by (simp add: t_def del: num_to_string.simps)
  qed
  with mk show ?thesis by (simp add: is_IStaticMapPayload_def)
qed


lemma static_payload_typed_example:
  "is_IStaticMapPayload (static_payload [\<lparr>lng = Dec 513 (-1), lat = Dec 357 (-1)\<rparr>]
     (Some (no_static_options\<lparr>so_labels := Some [''a'']\<rparr>)))"
  by (simp add: is_IStaticMapPayload_def static_payload_def Let_def no_static_options_def
      string_record_def number_field_def markers_typed_def split_first_def static_markers_def
      array_join_def join_elem_def marker_descriptor_eq label_part_def js_index_def
      default_to_def strip10.simps pos_to_string_def nat_digits.simps number_text_def
      parse_number_def scan_number_def scan_frac_def scan_exp_def is_digit_def)

lemma optional_member_assign:
  assumes "wf_obj opts"
  shows "optional_member (obj_assign route_defaults opts) k P \<longleftrightarrow>
           (case map_of opts k of None \<Rightarrow> optional_member route_defaults k P | Some v \<Rightarrow> v = JUndefined \<or> P v)"
  using map_of_obj_assign [OF wf_route_defaults assms]
  by (simp add: optional_member_def map_add_def split: option.split)

text \<open>C22: merging the caller's options into the defaults of \<open>route\<close> with
  \<open>Object.assign\<close> keeps the type \<open>IRouteOptions\<close> the code casts the result to,
  whenever the caller's options have that type.\<close>

theorem route_options_typed:
  assumes "wf_obj opts" and "is_IRouteOptions opts"
  shows "is_IRouteOptions (obj_assign route_defaults opts)"
  using assms(2)
  by (simp add: is_IRouteOptions_def optional_member_assign [OF assms(1)])
     (auto simp: optional_member_def route_defaults_def split: option.splits)


theorem static_payload_untyped_witness:
  "\<not> is_IStaticMapPayload (static_payload [\<lparr>lng = Dec 513 (-1), lat = Dec 357 (-1)\<rparr>] (Some no_static_options))"
  using static_payload_untyped [of no_static_options "[\<lparr>lng = Dec 513 (-1), lat = Dec 357 (-1)\<rparr>]"]
  by (simp add: no_static_options_def)

theorem route_options_typed_witness:
  "is_IRouteOptions (obj_assign route_defaults [(''steps'', JBool False), (''overview'', JString ''full'')])"
  using route_options_typed [of "[(''steps'', JBool False), (''overview'', JString ''full'')]"]
  by (simp add: wf_obj_def is_IRouteOptions_def optional_member_def)


end
