(* ===== verification/Responses.thy ===== *)
theory Responses
  imports Payloads JsonParse
begin

text \<open>
  The response side of the client: \<open>res.json()\<close>, which every JSON-reading
  operation applies to the body, and the TypeScript result types the code casts
  its value to with \<open>as T | undefined\<close> (\<open>ISearchResult\<close>, src/src/index.ts
  lines 119 to 135; \<open>IReverseResult\<close>, lines 142 to 165; \<open>IRouteResponse\<close>,
  src/src/route.ts lines 72 to 76). \<open>res.json()\<close> reads the body as UTF-8,
  dropping a leading byte order mark, and runs \<open>JSON.parse\<close> on it
  (\<open>json_parse\<close> of JsonParse.thy); a \<open>SyntaxError\<close> rejects the promise.
  The casts have no run-time effect, so the types are predicates on the parsed
  value and the lemmas say what the code does with values outside them. The
  element types \<open>Route\<close> and \<open>Waypoint\<close> come from the \<open>osrm\<close> package, outside
  this repository; the model requires only that they are objects.
\<close>

definition utf8_bom :: bytes where
  "utf8_bom = [CHR 0xEF, CHR 0xBB, CHR 0xBF]"

definition res_json :: "bytes \<Rightarrow> jsval option" where
  "res_json body =
     (let s = (if take 3 body = utf8_bom then drop 3 body else body) in
      case json_parse s of Inl e \<Rightarrow> None | Inr v \<Rightarrow> Some v)"

fun is_jnumber :: "jsval \<Rightarrow> bool" where
  "is_jnumber (JNumber n) = True"
| "is_jnumber _ = False"

fun is_jobject :: "jsval \<Rightarrow> bool" where
  "is_jobject (JObject ps) = True"
| "is_jobject _ = False"

definition member :: "jsval \<Rightarrow> bytes \<Rightarrow> (jsval \<Rightarrow> bool) \<Rightarrow> bool" where
  "member v k P = (case v of JObject ps \<Rightarrow> (case map_of ps k of Some x \<Rightarrow> P x | None \<Rightarrow> False) | _ \<Rightarrow> False)"

definition array_of :: "(jsval \<Rightarrow> bool) \<Rightarrow> jsval \<Rightarrow> bool" where
  "array_of P v = (case v of JArray xs \<Rightarrow> list_all P xs | _ \<Rightarrow> False)"

text \<open>One element of \<open>ISearchResult.value\<close>.\<close>

definition is_ISearchResult_value :: "jsval \<Rightarrow> bool" where
  "is_ISearchResult_value v =
     (list_all (\<lambda>k. member v k is_jstring)
        [''Address'', ''City'', ''FClass'', ''Id'', ''Province'', ''Text'', ''Title'', ''Type''] \<and>
      member v ''Coordinate'' (\<lambda>c. member c ''lat'' is_jnumber \<and> member c ''lon'' is_jnumber))"

definition is_ISearchResult :: "jsval \<Rightarrow> bool" where
  "is_ISearchResult v =
     (member v ''odata.count'' is_jnumber \<and> member v ''request_id'' is_jnumber \<and>
      member v ''value'' (array_of is_ISearchResult_value))"

definition is_IReverseResult :: "jsval \<Rightarrow> bool" where
  "is_IReverseResult v =
     (list_all (\<lambda>k. member v k is_jstring)
        [''address'', ''address_compact'', ''city'', ''country'', ''county'', ''district'', ''last'',
         ''name'', ''neighbourhood'', ''penult'', ''plaque'', ''poi'', ''postal_address'', ''postal_code'',
         ''primary'', ''province'', ''region'', ''rural_district'', ''village''] \<and>
      member v ''geom'' is_Point)"

definition is_IRouteResponse :: "jsval \<Rightarrow> bool" where
  "is_IRouteResponse v =
     (member v ''code'' (\<lambda>c. c = JString ''ok'') \<and> member v ''routes'' (array_of is_jobject) \<and>
      member v ''waypoints'' (array_of is_jobject))"

lemma parse_never_undefined:
  "(parse_value n s = Some (v, r) \<longrightarrow> v \<noteq> JUndefined) \<and>
   (parse_elems n acc s = Some (v, r) \<longrightarrow> (\<exists>xs. v = JArray xs)) \<and>
   (parse_members n obj s = Some (v, r) \<longrightarrow> (\<exists>ps. v = JObject ps))"
proof (induction n arbitrary: s acc obj v r)
  case 0
  then show ?case by simp
next
  case (Suc n)
  have ihe: "parse_elems n acc s = Some (v, r) \<Longrightarrow> \<exists>xs. v = JArray xs" for acc s v r
    using Suc.IH by blast
  have ihm: "parse_members n obj s = Some (v, r) \<Longrightarrow> \<exists>ps. v = JObject ps" for obj s v r
    using Suc.IH by blast
  have p: "parse_value (Suc n) s = Some (v, r) \<Longrightarrow> v \<noteq> JUndefined"
    by (auto simp: Let_def dest: ihe ihm split: list.splits if_splits option.splits prod.splits)
  have e: "parse_elems (Suc n) acc s = Some (v, r) \<Longrightarrow> \<exists>xs. v = JArray xs"
    by (auto simp del: parse_value.simps dest: ihe split: option.splits list.splits if_splits)
  have m: "parse_members (Suc n) obj s = Some (v, r) \<Longrightarrow> \<exists>ps. v = JObject ps"
    by (auto simp del: parse_value.simps dest: ihm split: option.splits list.splits if_splits prod.splits)
  show ?case using p e m by blast
qed

lemma parse_value_not_undefined: "parse_value n s = Some (v, r) \<Longrightarrow> v \<noteq> JUndefined"
  using parse_never_undefined by blast

lemma json_parse_not_undefined: "json_parse s = Inr v \<Longrightarrow> v \<noteq> JUndefined"
  by (auto simp: json_parse_def simp del: parse_value.simps dest: parse_value_not_undefined
      split: option.splits if_splits)

lemma res_json_not_undefined: "res_json body = Some v \<Longrightarrow> v \<noteq> JUndefined"
  using json_parse_not_undefined by (auto simp: res_json_def Let_def split: sum.splits)

end
