(* ===== verification/Spec2Isabelle.thy ===== *)
theory Spec2Isabelle
  imports Client JsonParse Payloads Responses
begin

text \<open>
  \<^bold>\<open>A verification model of the map.ir services client (src/src).\<close>

  The repository is a small TypeScript client for the map.ir HTTP API. Class
  \<open>Mapir\<close> (src/src/index.ts) holds an API key and a base URL; its methods
  \<open>search\<close>, \<open>reverseGeocode\<close>, \<open>route\<close> (src/src/route.ts) and
  \<open>staticMap\<close> each build one HTTP request from their arguments and the two
  fields and send it with \<open>fetch\<close>. The query strings are built by \<open>qs\<close>
  (src/src/utils.ts), which cleans an object of falsy values, stringifies the rest
  and hands it to \<open>URLSearchParams\<close>. There is no other shared state: the
  components interact only through calls and through the read-only client record.

  \<^bold>\<open>Theories.\<close>
  \<^item> \<open>Prelude\<close>: strings as UTF-8 byte lists (\<open>bytes\<close>), \<open>join_with\<close> and
    \<open>split_on\<close> with their round trip, sorting helpers, the \<open>model_simps\<close>
    collection of evaluation rules.
  \<^item> \<open>JsValue\<close> (ECMA-262, spec-modelled): values \<open>jsval\<close>, numbers \<open>number\<close>
    as shortest decimals, ToBoolean \<open>js_truthy\<close>, \<open>Number::toString\<close>
    \<open>num_to_string\<close> (all four notations of the standard, exponent forms
    included), ToString \<open>js_string\<close>, \<open>Array.prototype.join\<close> \<open>array_join\<close>,
    objects as creation-ordered association lists with the \<open>[[OwnPropertyKeys]]\<close>
    order (\<open>obj_entries\<close>: array-index keys first, ascending), \<open>obj_set\<close>,
    \<open>from_entries\<close> and \<open>obj_assign\<close>, with their map abstractions
    (\<open>map_of_obj_set\<close>, \<open>foldl_upd_distinct\<close>) and the well-formedness
    invariant \<open>wf_obj\<close> (distinct keys) that every operation keeps.
  \<^item> \<open>FormUrlencoded\<close> (WHATWG URL section 5, spec-modelled): the serializer
    \<open>form_serialize\<close> of \<open>URLSearchParams\<close> and the parser \<open>form_parse\<close>, with
    the round trip \<open>form_parse_serialize\<close>; the parser stands for the server
    reading the query.
  \<^item> \<open>Url\<close> (WHATWG URL section 4, spec-modelled): \<open>new URL(path, base)\<close> as
    \<open>url_resolve\<close> on path-absolute inputs. The base goes through the basic
    URL parser \<open>url_base\<close>: preprocessing, the lower-cased scheme, special and
    non-special schemes, the userinfo (\<open>authority\<close>), the host parser
    (\<open>domain_host\<close>: percent-decoding, lower-casing, forbidden code points;
    \<open>opaque_host\<close>), IPv4 hosts read into a 32-bit word and printed back
    (\<open>ipv4_parser\<close>, \<open>ipv4_serialize\<close>, with \<open>ipv4_parser_serialize\<close>), the
    port state with its \<open>2^16\<close> bound and default ports (\<open>port_parser\<close>), and the
    file scheme with its drive-letter quirk (\<open>file_base\<close>). \<open>url_origin\<close> is the
    serialised scheme and authority a path-absolute reference keeps; it never
    contains \<open>#\<close> (\<open>url_origin_no_hash\<close>). The parser's result has three
    cases: refused (\<open>UrlFailure\<close>, \<open>new URL\<close> throws), parsed, or a host the
    model does not serialise (\<open>UrlUnmodelled\<close>, IDNA and IPv6). The lemmas
    \<open>url_port_bound\<close> (ports only below \<open>2^16\<close>), \<open>url_ipv4_bound\<close> (a numeric
    host is an IPv4 address exactly below \<open>2^32\<close>, never wrapped) and
    \<open>ipv4_parser_serialize\<close> are facts of this standard model, not of the
    client.
  \<^item> \<open>Http\<close>: requests, the network as a parameter \<open>network\<close> (any function
    from requests to a transport failure or a response), \<open>fetch\<close> followed by
    \<open>res.json()\<close> (\<open>fetch_json\<close>, the JSON parser also a parameter) or
    \<open>res.blob()\<close> (\<open>fetch_blob\<close>), and the outcome of a call: \<open>Thrown\<close>,
    \<open>Caught\<close> (logged, \<open>undefined\<close> returned), \<open>Rejected\<close>, \<open>Resolved\<close>,
    and \<open>Unmodelled\<close> for a base whose host the URL model does not serialise:
    the real constructor accepts such a base, and the model claims nothing
    about the call.
    Before the network, \<open>fetch\<close> builds a \<open>Request\<close> (\<open>request_new\<close>, Fetch
    standard, spec-modelled): header values converted to byte strings
    (\<open>byte_string\<close>), a URL with credentials refused (\<open>url_credentials\<close>),
    header values stripped of surrounding HTTP whitespace and checked for NUL,
    LF and CR; each failure is a \<open>TypeError\<close> rejection.
  \<^item> \<open>Json\<close> (spec-modelled): \<open>JSON.stringify\<close> as \<open>json_stringify\<close>.
  \<^item> \<open>Decimal\<close> (spec-modelled): the reader of decimal number texts (the number
    grammar of JSON) as \<open>scan_number\<close> and \<open>parse_number\<close>, values normalised by
    \<open>dec_norm\<close>; it stands for the service reading the coordinates it receives,
    and \<open>parse_num_to_string\<close> shows that every finite \<open>Number::toString\<close> text
    reads back to its value, in each of the five notations of the standard.
  \<^item> \<open>JsonParse\<close> (spec-modelled): \<open>JSON.parse\<close> as \<open>json_parse\<close>, a recursive
    descent (\<open>parse_value\<close>, \<open>parse_elems\<close>, \<open>parse_members\<close>, string literals
    by \<open>str_body\<close>) that stands for the service reading the body of
    \<open>search\<close>; \<open>parse_stringify\<close> shows that it reads every text
    \<open>json_stringify\<close> writes back to the value \<open>json_norm\<close> describes.
  \<^item> \<open>Payloads\<close>: the request-side TypeScript declarations of index.ts and
    route.ts (\<open>ISearchPayload\<close>, \<open>IReversePayload\<close>, \<open>IStaticMapPayload\<close> with its \<open>markers\<close>
    template, \<open>IRouteOptions\<close>) as predicates, and when the code's \<open>as\<close>
    casts to them are sound.
  \<^item> \<open>Responses\<close>: \<open>res.json()\<close> as \<open>res_json\<close> (a UTF-8 byte order mark
    removed, then \<open>json_parse\<close>), and the response declarations of index.ts and
    route.ts (\<open>ISearchResult\<close>, \<open>IReverseResult\<close>, \<open>IRouteResponse\<close>) as
    predicates on parsed values; \<open>json_parse_not_undefined\<close> shows that
    \<open>JSON.parse\<close> never yields \<open>undefined\<close>.
  \<^item> \<open>Utils\<close>: utils.ts, \<open>isValue\<close>, \<open>cleanObj\<close>, \<open>convertAllPropsToString\<close>,
    \<open>qs\<close>, \<open>toFaDigits\<close>, one definition per function.
  \<^item> \<open>Mapir\<close>: the class's fields (record \<open>mapir\<close>) and its constructor
    \<open>Mapir_new\<close>; the point type \<open>lnglat\<close>.
  \<^item> \<open>Route\<close>: route.ts, the type-to-segment table \<open>route_segment\<close>, the
    defaults, \<open>locations_string\<close>, \<open>route_query\<close>, the request builder
    \<open>route_request\<close> and the whole method \<open>route\<close> with its \<open>try/catch\<close>.
  \<^item> \<open>Client\<close>: the other methods of index.ts, each as a request builder
    (\<open>search_request\<close>, \<open>reverse_request\<close>, \<open>staticMap_request\<close>) and the
    method that sends it (\<open>search\<close>, \<open>reverseGeocode\<close>, \<open>staticMap\<close>).
  \<^item> this theory: the properties that span the operations.

  Each method is modelled as the composition the code performs: build the URL
  (\<open>UrlFailure\<close> when \<open>new URL\<close> throws), build the request, run the network and
  the body reader. Because the network and the JSON parser are parameters, every
  theorem about a call holds for every server behaviour.

  \<^bold>\<open>What is proved\<close> (claims C1 to C28, each stated next to its theorem).
  The query string built by \<open>qs\<close> parses back to exactly the truthy entries
  (C1); the options of \<open>route\<close> reach the server as the defaults overridden by
  the caller, \<open>false\<close> included (C2), and its URL has the documented shape (C3);
  the static-map markers (C4, C10), the search body (C8) and the
  reverse-geocode query (C9) are exactly what the code builds. The error
  behaviour: \<open>route\<close> alone catches a bad base URL (C5), and it never throws
  and catches nothing else (C7); a non-JSON body rejects and never yields
  \<open>undefined\<close> (C6); a static map resolves to the body of any response (C13).
  Every request carries the API key (C11); \<open>cleanObj\<close> refines a filter on
  maps (C12); the constructor always leaves a non-empty base URL (C14);
  \<open>toFaDigits\<close> loses no information (C15); the waypoint string of a route
  reads back to the exact coordinate values (C16, using that
  \<open>Number::toString\<close> only emits characters of \<open>num_alphabet\<close>); no request
  URL contains \<open>#\<close> (C17); the \<open>reverseGeocode\<close> query reads back to the exact
  coordinates (C18, with the decimal reader of Decimal.thy); the body of
  \<open>search\<close> is read by \<open>JSON.parse\<close> as exactly the payload of the code (C19).
  The casts: the reverse payload has its declared type exactly for finite points
  (C20); the static-map payload never has its declared type with the default
  colours and no labels (C21); merging route options keeps \<open>IRouteOptions\<close>
  (C22); the search payload is an \<open>ISearchPayload\<close>, and so is what the server
  reads from the body exactly when the point is finite (C23). What \<open>fetch\<close>
  refuses: a base URL with credentials makes every call reject (C24), and so does
  an API key that is not a valid header value (C25); C6, C13 and C26 hold under
  the complementary hypotheses. A transport failure rejects every call,
  \<open>route\<close> included (C26). The responses: with \<open>res.json()\<close> as the reader,
  no operation resolves to \<open>undefined\<close> (C27), and the casts to the response
  types check nothing (C28).

  \<^bold>\<open>Bounds and fuel.\<close> Every definition of the client is total and
  structurally recursive or has an automatic termination proof (\<open>nat_digits\<close>,
  \<open>strip10\<close> on a decreasing mantissa, \<open>pct_decode\<close>, \<open>json_stringify\<close> on
  the value's size; \<open>str_body\<close> on the input length): the client has no loop
  that may run forever. The one fuelled definition is the \<open>JSON.parse\<close> model,
  whose mutual recursion re-enters on the rest of its own result; \<open>json_parse\<close>
  gives it one unit more than the text's length, and \<open>parse_value_fuel_stable\<close>
  (from \<open>parse_consumes\<close>: every step consumes input) shows that any larger
  fuel gives the same result, so the bound never cuts a parse short.

  \<^bold>\<open>Not modelled.\<close> The rounding of decimal literals to binary doubles (a
  number is its shortest decimal form); UTF-16 code units and lone surrogates
  (strings are their UTF-8 bytes); in \<open>new URL\<close>, the IDNA (UTS 46) mapping
  of non-ASCII hosts and \<open>xn--\<close> labels (it needs the Unicode tables) and IPv6
  hosts, for which the parser returns \<open>UrlUnmodelled\<close> and a call has the
  outcome \<open>Unmodelled\<close> (no theorem says anything of it; none invents an
  error for a base the real constructor accepts), and the percent-encoding of path characters, which the paths the
  client builds never contain; in \<open>res.json()\<close>, the replacement of invalid
  UTF-8 sequences by U+FFFD before parsing (bodies are read as their bytes), and
  in the general theorems the body reader stays a parameter, so they hold for
  any reader and \<open>res_json\<close> is one instance (C27, C28); the \<open>Route\<close> and
  \<open>Waypoint\<close> element types of \<open>IRouteResponse\<close>, which come from the osrm
  package outside the repository and are required only to be objects; in the \<open>JSON.parse\<close>
  model of request bodies, a lone surrogate escape \<open>\uD800\<close> to \<open>\uDFFF\<close>
  (valid JSON with no UTF-8 form) is refused, which no text \<open>JSON.stringify\<close>
  writes from UTF-8 strings; the
  \<open>console.error\<close> text written by \<open>route\<close>'s catch block (the outcome records
  the caught error instead).
\<close>

section \<open>Properties across the client's operations\<close>

lemma valid_base_resolve:
  "baseURL m = Some b \<Longrightarrow> url_origin b = Some org \<Longrightarrow> url_resolve (baseURL m) p = UrlParsed (org @ p)"
  by (simp add: url_resolve_origin)

lemmas request_defs = search_request_def reverse_request_def route_request_def staticMap_request_def

lemmas operation_defs = search_def reverseGeocode_def route_def staticMap_def send_def

text \<open>What \<open>new Request\<close> makes of a request the client builds, from the base's
  credentials and the API key.\<close>

lemma client_request_new:
  assumes "url_origin b = Some org" and "\<not> url_credentials org"
    and "byte_string key = Some kb" and "header_value_ok (header_normalize kb)"
    and "take 1 q \<noteq> ''/''" and "rest = [] \<or> rest = [(''content-type'', ''application/json'')]"
  shows "request_new \<lparr>req_method = mth, req_url = org @ CHR ''/'' # q, req_headers = (''x-api-key'', key) # rest,
                      req_body = bd\<rparr> =
           Inr \<lparr>req_method = mth, req_url = org @ CHR ''/'' # q,
                req_headers = (''x-api-key'', header_normalize kb) # rest, req_body = bd\<rparr>"
  using assms url_credentials_path [OF assms(1) refl assms(5)]
  by (intro request_new_client) simp_all

lemma header_bytes_client:
  "byte_string key = Some kb \<Longrightarrow> rest = [] \<or> rest = [(''content-type'', ''application/json'')] \<Longrightarrow>
   those (map header_bytes ((''x-api-key'', key) # rest)) = Some ((''x-api-key'', kb) # rest)"
  by (elim disjE) (simp_all add: header_bytes_def)

lemma credentials_request_new:
  assumes "url_origin b = Some org" and "url_credentials org" and "byte_string key = Some kb"
    and "take 1 q \<noteq> ''/''" and "rest = [] \<or> rest = [(''content-type'', ''application/json'')]"
  shows "request_new \<lparr>req_method = mth, req_url = org @ CHR ''/'' # q, req_headers = (''x-api-key'', key) # rest,
                      req_body = bd\<rparr> =
           Inl (TypeError ''Request cannot be constructed from a URL that includes credentials'')"
  using assms url_credentials_path [OF assms(1) refl assms(4)] header_bytes_client [OF assms(3,5)]
  by (simp add: request_new_def)

lemma key_request_new:
  assumes "url_origin b = Some org" and "\<not> url_credentials org"
    and "case byte_string key of None \<Rightarrow> True | Some kb \<Rightarrow> \<not> header_value_ok (header_normalize kb)"
    and "take 1 q \<noteq> ''/''" and "rest = [] \<or> rest = [(''content-type'', ''application/json'')]"
  shows "request_new \<lparr>req_method = mth, req_url = org @ CHR ''/'' # q, req_headers = (''x-api-key'', key) # rest,
                      req_body = bd\<rparr> =
           Inl (TypeError (case byte_string key of None \<Rightarrow> ''Cannot convert argument to a ByteString''
                           | Some kb \<Rightarrow> ''Invalid header value''))"
proof (cases "byte_string key")
  case None
  then show ?thesis by (simp add: request_new_def header_bytes_def)
next
  case (Some kb)
  have "header_fill (''x-api-key'', kb) = None" using assms(3) Some by (simp add: header_fill_def)
  then show ?thesis
    using Some assms url_credentials_path [OF assms(1) refl assms(4)] header_bytes_client [OF Some assms(5)]
    by (simp add: request_new_def)
qed

lemma client_paths:
  "search_path ac = CHR ''/'' # ''search'' @ (if ac then ''/autocomplete'' else [])"
  "take 1 (''search'' @ x) \<noteq> ''/''" "take 1 (''reverse?'' @ x) \<noteq> ''/''"
  "take 1 (''static?'' @ x) \<noteq> ''/''" "take 1 (''routes/'' @ x) \<noteq> ''/''"
  by (simp_all add: search_path_def)

text \<open>C5: when the client's base URL is missing or the URL parser refuses
  it, \<open>search\<close>, \<open>reverseGeocode\<close> and \<open>staticMap\<close> throw the \<open>TypeError\<close> of
  \<open>new URL\<close> synchronously, while \<open>route\<close> catches it and returns \<open>undefined\<close>.\<close>

theorem invalid_base_asymmetry:
  assumes "case baseURL m of None \<Rightarrow> True | Some b \<Rightarrow> url_base b = UrlFailure"
  shows "search m net parse text location autocomplete = Thrown (TypeError ''Invalid URL'') \<and>
         reverseGeocode m net parse location = Thrown (TypeError ''Invalid URL'') \<and>
         staticMap m net locs options = Thrown (TypeError ''Invalid URL'') \<and>
         route m net parse locs t ropts = Caught (TypeError ''Invalid URL'')"
  using url_resolve_failure [OF assms] by (simp add: operation_defs request_defs)

text \<open>C6: with a valid base URL without credentials and an API key that is a
  valid header value, when the server answers with a body
  that is not JSON, \<open>search\<close>, \<open>reverseGeocode\<close> and \<open>route\<close> return a promise that
  rejects with a \<open>SyntaxError\<close>; none resolves to \<open>undefined\<close>.\<close>

theorem json_failure_rejects:
  assumes "baseURL m = Some b" and "url_origin b = Some org" and "\<not> url_credentials org"
    and "byte_string (apiKey m) = Some kb" and "header_value_ok (header_normalize kb)"
    and "net = (\<lambda>_. Response r)" and "parse (resp_body r) = None"
  shows "search m net parse text location autocomplete = Rejected (SyntaxError ''Unexpected token in JSON'') \<and>
         reverseGeocode m net parse location = Rejected (SyntaxError ''Unexpected token in JSON'') \<and>
         route m net parse locs t ropts = Rejected (SyntaxError ''Unexpected token in JSON'')"
  using valid_base_resolve [OF assms(1,2)] assms(6,7)
    client_request_new [OF assms(2-5) client_paths(2)] client_request_new [OF assms(2-5) client_paths(3)]
    client_request_new [OF assms(2-5) client_paths(5)]
  by (simp add: operation_defs request_defs fetch_json_def client_paths(1))

text \<open>C13: with a valid base URL without credentials and an API key that is a
  valid header value, \<open>staticMap\<close> sends the key with surrounding whitespace
  removed, resolves to the raw body bytes of whatever HTTP response arrives,
  whatever its status, and rejects only on a transport failure.\<close>

theorem static_map_resolves_body:
  assumes "baseURL m = Some b" and "url_origin b = Some org" and "\<not> url_credentials org"
    and "byte_string (apiKey m) = Some kb" and "header_value_ok (header_normalize kb)"
  shows "staticMap m net locs options =
           (case net \<lparr>req_method = GET, req_url = org @ ''/static?'' @ static_query locs options,
                      req_headers = [(''x-api-key'', header_normalize kb)], req_body = None\<rparr> of
              NetworkFailure \<Rightarrow> Rejected (TypeError ''Failed to fetch'')
            | Response r \<Rightarrow> Resolved (resp_body r))"
  using valid_base_resolve [OF assms(1,2)] client_request_new [OF assms(2-5) client_paths(4), of "[]"]
  by (simp add: operation_defs request_defs fetch_blob_def)

text \<open>C11: every request the client sends carries the header
  \<open>x-api-key\<close> with the client's API key, first in its header list.\<close>

theorem api_key_header:
  "(case search_request m text location autocomplete of UrlParsed r \<Rightarrow>
      hd (req_headers r) = (''x-api-key'', apiKey m) | _ \<Rightarrow> True) \<and>
   (case reverse_request m location of UrlParsed r \<Rightarrow>
      hd (req_headers r) = (''x-api-key'', apiKey m) | _ \<Rightarrow> True) \<and>
   (case route_request m locs t ropts of UrlParsed r \<Rightarrow>
      hd (req_headers r) = (''x-api-key'', apiKey m) | _ \<Rightarrow> True) \<and>
   (case staticMap_request m locs options of UrlParsed r \<Rightarrow>
      hd (req_headers r) = (''x-api-key'', apiKey m) | _ \<Rightarrow> True)"
  by (simp add: request_defs url_bind_def split: url_result.split)

text \<open>C14: a client made by the constructor always has a base URL,
  and it is never empty: an absent or empty \<open>baseURL\<close> option keeps
  \<open>https://map.ir\<close>; likewise an absent or empty \<open>apiKey\<close> leaves the key empty.\<close>

theorem constructor_base_url:
  "(\<exists>b. baseURL (Mapir_new opt) = Some b \<and> b \<noteq> []) \<and>
   (apiKey (Mapir_new opt) = (case opt of None \<Rightarrow> [] | Some oo \<Rightarrow> (case opt_apiKey oo of None \<Rightarrow> [] | Some k \<Rightarrow> k)))"
  by (auto simp: Mapir_new_def mapir_defaults_def Let_def split: option.splits)

subsection \<open>Witnesses\<close>

theorem invalid_base_asymmetry_witness:
  "(case baseURL \<lparr>apiKey = ''k'', baseURL = Some ''map.ir''\<rparr> of None \<Rightarrow> True
      | Some b \<Rightarrow> url_base b = UrlFailure) \<and>
   search \<lparr>apiKey = ''k'', baseURL = Some ''map.ir''\<rparr> (\<lambda>_. NetworkFailure) (\<lambda>_. Some ()) ''a''
     \<lparr>lng = Dec 51 0, lat = Dec 35 0\<rparr> False = Thrown (TypeError ''Invalid URL'') \<and>
   route \<lparr>apiKey = ''k'', baseURL = Some ''map.ir''\<rparr> (\<lambda>_. NetworkFailure) (\<lambda>_. Some ()) []
     car [] = Caught (TypeError ''Invalid URL'')"
  using invalid_base_asymmetry [of "\<lparr>apiKey = ''k'', baseURL = Some ''map.ir''\<rparr>"
      "\<lambda>_. NetworkFailure" "\<lambda>_. Some ()" "''a''" "\<lparr>lng = Dec 51 0, lat = Dec 35 0\<rparr>" False
      "[]" None car "[]"]
  by (simp add: url_known)

theorem json_failure_rejects_witness:
  "search (Mapir_new None) (\<lambda>_. Response \<lparr>status = 200, resp_body = ''<html>''\<rparr>) (\<lambda>_. None :: unit option)
     ''tehran'' \<lparr>lng = Dec 51 0, lat = Dec 35 0\<rparr> True = Rejected (SyntaxError ''Unexpected token in JSON'')"
  using json_failure_rejects [of "Mapir_new None" "''https://map.ir''" "''https://map.ir''"
      "[]" "\<lambda>_. Response \<lparr>status = 200, resp_body = ''<html>''\<rparr>" "\<lparr>status = 200, resp_body = ''<html>''\<rparr>"
      "\<lambda>_. None :: unit option" "''tehran''" "\<lparr>lng = Dec 51 0, lat = Dec 35 0\<rparr>" True]
  by (simp add: url_known Mapir_new_def mapir_defaults_def url_credentials_def header_value_ok_def
      header_normalize_def)

theorem static_map_resolves_body_witness:
  "staticMap (Mapir_new None) (\<lambda>_. Response \<lparr>status = 404, resp_body = ''png''\<rparr>) [] None = Resolved ''png''"
  using static_map_resolves_body [of "Mapir_new None" "''https://map.ir''" "''https://map.ir''"
      "[]" "\<lambda>_. Response \<lparr>status = 404, resp_body = ''png''\<rparr>" "[]" None]
  by (simp add: url_known Mapir_new_def mapir_defaults_def url_credentials_def header_value_ok_def
      header_normalize_def)

text \<open>C17: no request URL built by \<open>search\<close>, \<open>reverseGeocode\<close>, \<open>route\<close> or
  \<open>staticMap\<close> contains \<open>#\<close>, so no part of the query is cut off as a fragment
  before it reaches the server.\<close>

theorem request_urls_no_fragment:
  "(case search_request m text location autocomplete of UrlParsed r \<Rightarrow>
      CHR ''#'' \<notin> set (req_url r) | _ \<Rightarrow> True) \<and>
   (case reverse_request m location of UrlParsed r \<Rightarrow> CHR ''#'' \<notin> set (req_url r) | _ \<Rightarrow> True) \<and>
   (case route_request m locs t ropts of UrlParsed r \<Rightarrow> CHR ''#'' \<notin> set (req_url r) | _ \<Rightarrow> True) \<and>
   (case staticMap_request m locs options of UrlParsed r \<Rightarrow> CHR ''#'' \<notin> set (req_url r) | _ \<Rightarrow> True)"
proof -
  have seg: "CHR ''#'' \<notin> set (route_segment t)" by (cases t) simp_all
  let ?p = "\<lambda>l. num_to_string (lng l) @ '','' @ num_to_string (lat l)"
  have "set (join_with '';'' (map ?p locs)) \<subseteq> set '';'' \<union> \<Union> (set ` set (map ?p locs))"
    by (rule set_join_with_subset)
  also have "\<dots> \<subseteq> num_alphabet \<union> {CHR '','', CHR '';''}"
    using set_num_to_string by fastforce
  finally have locs: "CHR ''#'' \<notin> set (locations_string locs)"
    using num_alphabet_excludes by (auto simp: locations_string_eq)
  show ?thesis
    using seg locs url_base_no_hash form_serialize_no_hash
    by (auto simp: request_defs url_resolve_def url_bind_def search_path_def reverse_query_def
        route_query_def static_query_def qs_def Let_def split: option.splits url_result.splits)
qed

lemma search_payload_json:
  "json_stringify (search_payload text location) = Some b \<Longrightarrow>
   json_parse b = Inr (JObject [(''text'', JString text), (''returnid'', JBool True),
     (''location'', JObject [(''type'', JString ''Point''),
        (''coordinates'', JArray [json_norm (JNumber (lng location)), json_norm (JNumber (lat location))])])])"
  by (drule json_parse_stringify)
     (simp add: search_payload_def obj_entries_no_index array_index_def is_digit_def del: json_norm.simps(4))

text \<open>C19: the body \<open>search\<close> sends is read by \<open>JSON.parse\<close> on the server as
  exactly the payload of the code: the search text unchanged (every byte,
  quotes, backslashes and control characters included), \<open>returnid: true\<close> and
  the GeoJSON point with the longitude first; a coordinate arrives as its
  exact value, or as \<open>null\<close> when it is not finite.\<close>

theorem search_body_parse:
  assumes "search_request m text location autocomplete = UrlParsed r"
  shows "map_option json_parse (req_body r) =
           Some (Inr (JObject [(''text'', JString text), (''returnid'', JBool True),
             (''location'', JObject [(''type'', JString ''Point''),
                (''coordinates'', JArray [json_norm (JNumber (lng location)),
                                          json_norm (JNumber (lat location))])])]))"
proof -
  have b: "req_body r = json_stringify (search_payload text location)"
    using assms by (auto simp: search_request_def)
  obtain t where t: "json_stringify (search_payload text location) = Some t"
    by (simp add: search_payload_def)
  show ?thesis using b t search_payload_json [OF t] by (simp del: json_norm.simps(4))
qed

theorem search_body_parse_witness:
  "map_option json_parse (req_body (url_value (search_request \<lparr>apiKey = ''k'', baseURL = Some ''https://map.ir''\<rparr>
      ''tehran'' \<lparr>lng = Dec 514 (-1), lat = Dec 35 0\<rparr> False))) =
   Some (Inr (JObject [(''text'', JString ''tehran''), (''returnid'', JBool True),
      (''location'', JObject [(''type'', JString ''Point''),
         (''coordinates'', JArray [JNumber (Dec 514 (-1)), JNumber (Dec 35 0)])])]))"
  using search_body_parse [of "\<lparr>apiKey = ''k'', baseURL = Some ''https://map.ir''\<rparr>" "''tehran''"
      "\<lparr>lng = Dec 514 (-1), lat = Dec 35 0\<rparr>" False
      "url_value (search_request \<lparr>apiKey = ''k'', baseURL = Some ''https://map.ir''\<rparr>
         ''tehran'' \<lparr>lng = Dec 514 (-1), lat = Dec 35 0\<rparr> False)"]
  by (simp add: search_request_def url_resolve_origin url_known
      search_path_def strip10.simps)

text \<open>C23: the payload \<open>search\<close> casts to \<open>ISearchPayload\<close> always has that type
  on the client side, but the value the server's \<open>JSON.parse\<close> reads from the
  body has it exactly when both coordinates are finite: a non-finite coordinate
  arrives as \<open>null\<close>, which is not a GeoJSON position.\<close>

theorem search_payload_typed:
  assumes "search_request m text location autocomplete = UrlParsed r"
  shows "is_ISearchPayload (search_payload text location) \<and>
         (\<exists>b v. req_body r = Some b \<and> json_parse b = Inr v \<and>
                (is_ISearchPayload v \<longleftrightarrow> num_finite (lng location) \<and> num_finite (lat location)))"
proof -
  have b: "req_body r = json_stringify (search_payload text location)"
    using assms by (auto simp: search_request_def)
  obtain t where t: "json_stringify (search_payload text location) = Some t"
    by (simp add: search_payload_def)
  have n: "(case json_norm (JNumber x) of JNumber n \<Rightarrow> True | _ \<Rightarrow> False) \<longleftrightarrow> num_finite x" for x
    by simp
  show ?thesis
    using b t search_payload_json [OF t] n [of "lng location"] n [of "lat location"]
    by (simp add: is_ISearchPayload_def is_Point_def is_position_def search_payload_def
        del: json_norm.simps(4))
qed

theorem search_payload_typed_witness:
  "is_ISearchPayload (search_payload ''tehran'' \<lparr>lng = Dec 514 (-1), lat = Dec 35 0\<rparr>) \<and>
   (\<exists>b v. req_body (url_value (search_request \<lparr>apiKey = ''k'', baseURL = Some ''https://map.ir''\<rparr>
      ''tehran'' \<lparr>lng = Dec 514 (-1), lat = Dec 35 0\<rparr> True)) = Some b \<and> json_parse b = Inr v \<and>
      is_ISearchPayload v)"
  using search_payload_typed [of "\<lparr>apiKey = ''k'', baseURL = Some ''https://map.ir''\<rparr>" "''tehran''"
      "\<lparr>lng = Dec 514 (-1), lat = Dec 35 0\<rparr>" True
      "url_value (search_request \<lparr>apiKey = ''k'', baseURL = Some ''https://map.ir''\<rparr>
         ''tehran'' \<lparr>lng = Dec 514 (-1), lat = Dec 35 0\<rparr> True)"]
  by (simp add: search_request_def url_resolve_origin url_known
      search_path_def)


section \<open>Requests that fetch refuses\<close>

text \<open>C24: a base URL with credentials (\<open>https://user:pw@host\<close>) is accepted by
  \<open>new URL\<close>, but \<open>fetch\<close> refuses to build a request from it: all four
  operations return a promise that rejects with a \<open>TypeError\<close>, whatever the
  network would have answered.\<close>

theorem credentials_reject:
  assumes "baseURL m = Some b" and "url_origin b = Some org" and "url_credentials org"
    and "byte_string (apiKey m) = Some kb"
  shows "search m net parse text location ac =
           Rejected (TypeError ''Request cannot be constructed from a URL that includes credentials'') \<and>
         reverseGeocode m net parse location =
           Rejected (TypeError ''Request cannot be constructed from a URL that includes credentials'') \<and>
         staticMap m net' locs options =
           Rejected (TypeError ''Request cannot be constructed from a URL that includes credentials'') \<and>
         route m net parse locs t ropts =
           Rejected (TypeError ''Request cannot be constructed from a URL that includes credentials'')"
  using valid_base_resolve [OF assms(1,2)]
    credentials_request_new [OF assms(2-4) client_paths(2)] credentials_request_new [OF assms(2-4) client_paths(3)]
    credentials_request_new [OF assms(2-4) client_paths(4), of "[]"] credentials_request_new [OF assms(2-4) client_paths(5)]
  by (simp add: operation_defs request_defs fetch_json_def fetch_blob_def client_paths(1))

text \<open>C25: an API key that is not a byte string (a character above U+00FF),
  or that still contains NUL, LF or CR once leading and trailing whitespace is
  removed, makes all four operations reject with a \<open>TypeError\<close> before any
  request reaches the network.\<close>

theorem invalid_key_rejects:
  assumes "baseURL m = Some b" and "url_origin b = Some org" and "\<not> url_credentials org"
    and "case byte_string (apiKey m) of None \<Rightarrow> True | Some kb \<Rightarrow> \<not> header_value_ok (header_normalize kb)"
  shows "search m net parse text location ac = Rejected (TypeError (key_error (apiKey m))) \<and>
         reverseGeocode m net parse location = Rejected (TypeError (key_error (apiKey m))) \<and>
         staticMap m net' locs options = Rejected (TypeError (key_error (apiKey m))) \<and>
         route m net parse locs t ropts = Rejected (TypeError (key_error (apiKey m)))"
  using valid_base_resolve [OF assms(1,2)]
    key_request_new [OF assms(2-4) client_paths(2)] key_request_new [OF assms(2-4) client_paths(3)]
    key_request_new [OF assms(2-4) client_paths(4), of "[]"] key_request_new [OF assms(2-4) client_paths(5)]
  by (simp add: operation_defs request_defs fetch_json_def fetch_blob_def client_paths(1) key_error_def)

subsection \<open>Witnesses\<close>

theorem credentials_reject_witness:
  "search \<lparr>apiKey = ''k'', baseURL = Some ''https://user:pw@map.ir''\<rparr> (\<lambda>_. NetworkFailure) (\<lambda>_. Some ())
     ''a'' \<lparr>lng = Dec 51 0, lat = Dec 35 0\<rparr> False =
   Rejected (TypeError ''Request cannot be constructed from a URL that includes credentials'')"
  using credentials_reject [of "\<lparr>apiKey = ''k'', baseURL = Some ''https://user:pw@map.ir''\<rparr>"
      "''https://user:pw@map.ir''" "''https://user:pw@map.ir''" "''k''" "\<lambda>_. NetworkFailure" "\<lambda>_. Some ()"
      "''a''" "\<lparr>lng = Dec 51 0, lat = Dec 35 0\<rparr>" False]
  by (simp add: url_known url_credentials_def)

theorem invalid_key_rejects_witness:
  "route \<lparr>apiKey = ''a'' @ [CHR 0x0A] @ ''b'', baseURL = Some ''https://map.ir''\<rparr> (\<lambda>_. NetworkFailure)
     (\<lambda>_. Some ()) [] car [] = Rejected (TypeError ''Invalid header value'')"
  using invalid_key_rejects [of "\<lparr>apiKey = ''a'' @ [CHR 0x0A] @ ''b'', baseURL = Some ''https://map.ir''\<rparr>"
      "''https://map.ir''" "''https://map.ir''" "\<lambda>_. NetworkFailure" "\<lambda>_. Some ()"]
  by (simp add: url_known url_credentials_def key_error_def header_value_ok_def header_normalize_def
      http_whitespace_def)


section \<open>Transport failures\<close>

text \<open>C26: with a valid base URL without credentials and an API key that is a
  valid header value, when the network fails (\<open>fetch\<close> rejects with
  \<open>TypeError: Failed to fetch\<close>), all four operations return a promise
  that rejects with that error: none retries or catches it, \<open>route\<close> included,
  which returns the promise of \<open>fetch\<close> from its \<open>try\<close> block without
  awaiting it.\<close>

theorem network_failure_rejects:
  assumes "baseURL m = Some b" and "url_origin b = Some org" and "\<not> url_credentials org"
    and "byte_string (apiKey m) = Some kb" and "header_value_ok (header_normalize kb)"
    and "net = (\<lambda>_. NetworkFailure)"
  shows "search m net parse text location ac = Rejected (TypeError ''Failed to fetch'') \<and>
         reverseGeocode m net parse location = Rejected (TypeError ''Failed to fetch'') \<and>
         staticMap m net locs options = Rejected (TypeError ''Failed to fetch'') \<and>
         route m net parse locs t ropts = Rejected (TypeError ''Failed to fetch'')"
  using valid_base_resolve [OF assms(1,2)] assms(6)
    client_request_new [OF assms(2-5) client_paths(2)] client_request_new [OF assms(2-5) client_paths(3)]
    client_request_new [OF assms(2-5) client_paths(4), of "[]"] client_request_new [OF assms(2-5) client_paths(5)]
  by (simp add: operation_defs request_defs fetch_json_def fetch_blob_def client_paths(1))

subsection \<open>Witnesses\<close>

theorem network_failure_rejects_witness:
  "route (Mapir_new None) (\<lambda>_. NetworkFailure) (\<lambda>_. Some ()) [\<lparr>lng = Dec 51 0, lat = Dec 35 0\<rparr>] car [] =
   Rejected (TypeError ''Failed to fetch'')"
  using network_failure_rejects [of "Mapir_new None" "''https://map.ir''" "''https://map.ir''" "[]"
      "\<lambda>_. NetworkFailure" "\<lambda>_. Some ()" "''a''" "\<lparr>lng = Dec 51 0, lat = Dec 35 0\<rparr>" False]
  by (simp add: url_known Mapir_new_def mapir_defaults_def url_credentials_def header_value_ok_def
      header_normalize_def)


section \<open>What the JSON-reading operations resolve to\<close>

lemma fetch_res_json_defined: "fetch_json net res_json req \<noteq> Resolved JUndefined"
  using res_json_not_undefined
  by (auto simp: fetch_json_def split: sum.splits net_result.splits option.splits)

text \<open>C27: with \<open>res.json()\<close> as the body reader, \<open>search\<close>, \<open>reverseGeocode\<close>
  and \<open>route\<close> never resolve to \<open>undefined\<close>, whatever the key and the
  server's answer, on every base URL the model covers: \<open>JSON.parse\<close> yields no \<open>undefined\<close>, and a body it
  refuses rejects the promise. The \<open>| undefined\<close> of the casts is never taken.\<close>

theorem never_resolves_undefined:
  "search m net res_json text location ac \<noteq> Resolved JUndefined \<and>
   reverseGeocode m net res_json location \<noteq> Resolved JUndefined \<and>
   route m net res_json locs t ropts \<noteq> Resolved JUndefined"
  using fetch_res_json_defined [of net]
  by (auto simp: search_def reverseGeocode_def route_def send_def split: url_result.splits)

text \<open>C28: the casts to \<open>ISearchResult\<close>, \<open>IReverseResult\<close> and
  \<open>IRouteResponse\<close> check nothing: with a valid base and key, \<open>search\<close>,
  \<open>reverseGeocode\<close> and \<open>route\<close> resolve with exactly the value \<open>res.json()\<close>
  reads from the body, whatever its shape.\<close>

theorem result_casts_unchecked:
  assumes "baseURL m = Some b" and "url_origin b = Some org" and "\<not> url_credentials org"
    and "byte_string (apiKey m) = Some kb" and "header_value_ok (header_normalize kb)"
    and "net = (\<lambda>_. Response r)" and "res_json (resp_body r) = Some v"
  shows "search m net res_json text location ac = Resolved v \<and>
         reverseGeocode m net res_json location = Resolved v \<and>
         route m net res_json locs t ropts = Resolved v"
  using valid_base_resolve [OF assms(1,2)] assms(6,7)
    client_request_new [OF assms(2-5) client_paths(2)] client_request_new [OF assms(2-5) client_paths(3)]
    client_request_new [OF assms(2-5) client_paths(5)]
  by (simp add: operation_defs request_defs fetch_json_def client_paths(1))

subsection \<open>Witnesses\<close>

theorem result_casts_unchecked_witness:
  "search (Mapir_new None) (\<lambda>_. Response \<lparr>status = 200, resp_body = ''{}''\<rparr>) res_json
     ''tehran'' \<lparr>lng = Dec 51 0, lat = Dec 35 0\<rparr> False = Resolved (JObject []) \<and>
   \<not> is_ISearchResult (JObject []) \<and> \<not> is_IReverseResult (JObject []) \<and> \<not> is_IRouteResponse (JObject [])"
  using result_casts_unchecked [of "Mapir_new None" "''https://map.ir''" "''https://map.ir''" "[]"
      "\<lambda>_. Response \<lparr>status = 200, resp_body = ''{}''\<rparr>" "\<lparr>status = 200, resp_body = ''{}''\<rparr>" "JObject []"
      "''tehran''" "\<lparr>lng = Dec 51 0, lat = Dec 35 0\<rparr>" False]
  by (simp add: url_known Mapir_new_def mapir_defaults_def url_credentials_def header_value_ok_def
      header_normalize_def res_json_def utf8_bom_def json_parse_def skip_ws_def json_ws_def
      is_ISearchResult_def is_IReverseResult_def is_IRouteResponse_def member_def)

end
